(* ===== verification/Prelude.thy ===== *)
theory Prelude
  imports Complex_Main "HOL-Library.Monad_Syntax"
begin

text \<open>
  Shared material of the cloth-simulation development: the collections of
  facts the component theories extend, and the pieces of JavaScript semantics
  that \<^verbatim>\<open>src/src/ClothSimulation.tsx\<close> relies on but does not define itself.

  \<^item> An exception is the value \<open>None\<close> of an \<open>option\<close> result. The only
    exception the simulation classes can raise is the \<^verbatim>\<open>TypeError\<close> of reading a
    property of \<^verbatim>\<open>undefined\<close>, so one error value is enough.
  \<^item> \<open>array_get\<close> is an array read \<^verbatim>\<open>a[i]\<close>: \<^verbatim>\<open>undefined\<close> (here \<open>None\<close>) outside
    the array, never an unspecified value.
  \<^item> \<open>fold_opt\<close> is \<^verbatim>\<open>forEach\<close> / \<^verbatim>\<open>for ... of\<close> over an array whose body may
    raise: the first exception ends the loop and is the result.
  \<^item> \<open>filter_opt\<close> is \<^verbatim>\<open>Array.prototype.filter\<close> with a predicate that may raise.
\<close>

section \<open>Fact collections\<close>

named_theorems frame \<open>fields an operation leaves unchanged\<close>
named_theorems wf_intros \<open>operations that keep the heap well formed\<close>

section \<open>Array reads\<close>

definition array_get :: "'a list \<Rightarrow> int \<Rightarrow> 'a option" where
  "array_get xs i = (if 0 \<le> i \<and> i < int (length xs) then Some (xs ! nat i) else None)"

lemma array_get_Some_iff:
  "array_get xs i = Some v \<longleftrightarrow> 0 \<le> i \<and> i < int (length xs) \<and> xs ! nat i = v"
  by (auto simp: array_get_def)

lemma array_get_None_iff: "array_get xs i = None \<longleftrightarrow> i < 0 \<or> int (length xs) \<le> i"
  by (auto simp: array_get_def)

lemma array_get_nat [simp]: "n < length xs \<Longrightarrow> array_get xs (int n) = Some (xs ! n)"
  by (simp add: array_get_def)

lemma array_get_append1:
  "i < int (length xs) \<Longrightarrow> array_get (xs @ ys) i = array_get xs i"
  by (auto simp: array_get_def nth_append)

section \<open>Loops whose body may raise\<close>

primrec fold_opt :: "('a \<Rightarrow> 's \<Rightarrow> 's option) \<Rightarrow> 'a list \<Rightarrow> 's \<Rightarrow> 's option" where
  "fold_opt f [] s = Some s"
| "fold_opt f (x # xs) s = (case f x s of None \<Rightarrow> None | Some s' \<Rightarrow> fold_opt f xs s')"

lemma fold_opt_append:
  "fold_opt f (xs @ ys) s = (case fold_opt f xs s of None \<Rightarrow> None | Some s' \<Rightarrow> fold_opt f ys s')"
  by (induction xs arbitrary: s) (auto split: option.splits)

lemma fold_opt_snoc:
  "fold_opt f (xs @ [x]) s = (case fold_opt f xs s of None \<Rightarrow> None | Some s' \<Rightarrow> f x s')"
  by (simp add: fold_opt_append split: option.splits)

text \<open>
  The loop rule: an invariant that every iteration keeps, and under which no
  iteration raises, holds after the loop, and the loop does not raise. The
  invariant may depend on the elements still to come only through \<open>set xs\<close>.
\<close>

lemma fold_opt_invariant:
  assumes "P s"
    and "\<And>x s. x \<in> set xs \<Longrightarrow> P s \<Longrightarrow> \<exists>s'. f x s = Some s' \<and> P s'"
  shows "\<exists>s'. fold_opt f xs s = Some s' \<and> P s'"
  using assms
proof (induction xs arbitrary: s)
  case Nil
  then show ?case by simp
next
  case (Cons x xs)
  from Cons.prems obtain s1 where s1: "f x s = Some s1" "P s1"
    by (meson list.set_intros(1))
  from Cons.IH [OF s1(2)] Cons.prems(2) obtain s' where "fold_opt f xs s1 = Some s'" "P s'"
    by (meson list.set_intros(2))
  with s1 show ?case by simp
qed

text \<open>Partial correctness: what every iteration keeps holds of a result, if there is one.\<close>

lemma fold_opt_preserves:
  assumes "fold_opt f xs s = Some s'" and "P s"
    and "\<And>x s s'. x \<in> set xs \<Longrightarrow> P s \<Longrightarrow> f x s = Some s' \<Longrightarrow> P s'"
  shows "P s'"
  using assms
proof (induction xs arbitrary: s)
  case Nil
  then show ?case by simp
next
  case (Cons x xs)
  from Cons.prems(1) obtain s1 where s1: "f x s = Some s1" "fold_opt f xs s1 = Some s'"
    by (auto split: option.splits)
  from Cons.prems(2,3) s1(1) have "P s1" by (meson list.set_intros(1))
  with Cons.IH [OF s1(2)] Cons.prems(3) show ?case by (meson list.set_intros(2))
qed

lemma fold_opt_total:
  "(\<And>x s. x \<in> set xs \<Longrightarrow> f x s = Some (g x s)) \<Longrightarrow> fold_opt f xs s = Some (fold g xs s)"
  by (induction xs arbitrary: s) auto

text \<open>A loop whose body only appends to the state.\<close>

lemma fold_opt_emit:
  "(\<And>x s. x \<in> set xs \<Longrightarrow> f x s = Some (s @ g x))
    \<Longrightarrow> fold_opt f xs s = Some (s @ concat (map g xs))"
  by (induction xs arbitrary: s) simp_all

lemma fold_opt_cong [fundef_cong]:
  "xs = ys \<Longrightarrow> s = t \<Longrightarrow> (\<And>x s. x \<in> set ys \<Longrightarrow> f x s = g x s)
    \<Longrightarrow> fold_opt f xs s = fold_opt g ys t"
  by (induction ys arbitrary: xs s t) (auto split: option.splits)

section \<open>Filtering with a predicate that may raise\<close>

primrec filter_opt :: "('a \<Rightarrow> bool option) \<Rightarrow> 'a list \<Rightarrow> 'a list option" where
  "filter_opt p [] = Some []"
| "filter_opt p (x # xs) =
     (case p x of None \<Rightarrow> None
      | Some b \<Rightarrow> (case filter_opt p xs of None \<Rightarrow> None
                   | Some ys \<Rightarrow> Some (if b then x # ys else ys)))"

lemma filter_opt_total:
  "(\<And>x. x \<in> set xs \<Longrightarrow> p x = Some (q x)) \<Longrightarrow> filter_opt p xs = Some (filter q xs)"
  by (induction xs) auto

lemma filter_opt_Some_subseq:
  "filter_opt p xs = Some ys \<Longrightarrow> set ys \<subseteq> set xs \<and> length ys \<le> length xs"
  by (induction xs arbitrary: ys) (auto split: option.splits if_splits)

lemma filter_opt_Some_defined:
  "filter_opt p xs = Some ys \<Longrightarrow> x \<in> set xs \<Longrightarrow> p x \<noteq> None"
  by (induction xs arbitrary: ys) (auto split: option.splits)

lemma filter_opt_None_iff: "filter_opt p xs = None \<longleftrightarrow> (\<exists>x \<in> set xs. p x = None)"
  by (induction xs) (auto split: option.splits)

section \<open>Lists updated in place\<close>

lemma nth_list_update_if: "xs[i := v] ! j = (if i = j \<and> i < length xs then v else xs ! j)"
  by (cases "i < length xs") (auto simp: nth_list_update list_update_beyond)

lemma map_list_update_same: "i < length xs \<Longrightarrow> f v = f (xs ! i) \<Longrightarrow> map f (xs[i := v]) = map f xs"
  by (simp add: map_update list_update_same_conv)

lemma sum_list_update_same:
  fixes f :: "'a \<Rightarrow> nat"
  shows "i < length xs \<Longrightarrow> f v = f (xs ! i) \<Longrightarrow> sum_list (map f (xs[i := v])) = sum_list (map f xs)"
  by (simp add: map_list_update_same)

text \<open>
  The concatenation of the lists held by the elements of an array, when one
  element is replaced: the store's list of all constraints is of this form.
\<close>

lemma concat_map_update:
  "i < length xs \<Longrightarrow>
     concat (map f (xs[i := v])) =
       concat (map f (take i xs)) @ f v @ concat (map f (drop (Suc i) xs))"
  by (simp add: upd_conv_take_nth_drop)

lemma concat_map_nth_split:
  "i < length xs \<Longrightarrow>
     concat (map f xs) =
       concat (map f (take i xs)) @ f (xs ! i) @ concat (map f (drop (Suc i) xs))"
  using concat_map_update [of i xs f "xs ! i"] by simp

lemma distinct_map_append_filter:
  "distinct (map g (A @ B @ C)) \<Longrightarrow> distinct (map g (A @ filter P B @ C))"
  by (auto simp: distinct_map_filter; blast)

lemma distinct_map_concat_update_filter:
  assumes "distinct (map g (concat (map f xs)))" and "f v = filter P (f (xs ! i))"
  shows "distinct (map g (concat (map f (xs[i := v]))))"
proof (cases "i < length xs")
  case True
  from assms(1) have "distinct (map g (concat (map f (take i xs)) @ f (xs ! i)
      @ concat (map f (drop (Suc i) xs))))"
    using concat_map_nth_split [OF True, of f] by simp
  then show ?thesis
    unfolding concat_map_update [OF True] assms(2) by (rule distinct_map_append_filter)
next
  case False
  with assms(1) show ?thesis by (simp add: list_update_beyond)
qed

lemma distinct_map_append_snoc:
  "distinct (map g (A @ B @ C)) \<Longrightarrow> g x \<notin> g ` set (A @ B @ C)
    \<Longrightarrow> distinct (map g (A @ (B @ [x]) @ C))"
  by auto

lemma distinct_map_concat_update_snoc:
  assumes "distinct (map g (concat (map f xs)))" and "f v = f (xs ! i) @ [x]"
    and "g x \<notin> g ` set (concat (map f xs))"
  shows "distinct (map g (concat (map f (xs[i := v]))))"
proof (cases "i < length xs")
  case True
  note split = concat_map_nth_split [OF True, of f]
  from assms(1,3) show ?thesis
    unfolding concat_map_update [OF True] assms(2)
    by (intro distinct_map_append_snoc) (simp_all add: split [symmetric])
next
  case False
  with assms(1) show ?thesis by (simp add: list_update_beyond)
qed

section \<open>Counting loops\<close>

text \<open>
  A loop \<^verbatim>\<open>for (let x = 0; x <= w; x++)\<close> runs over \<open>[0..w]\<close>; two nested counting
  loops are one loop over the row-major index.
\<close>

lemma upto_0_nat: "[0..w] = map int [0 ..< nat (w + 1)]"
proof (rule nth_equalityI)
  fix i assume "i < length [0..w]"
  then show "[0..w] ! i = map int [0 ..< nat (w + 1)] ! i" by (simp add: nth_upto)
qed simp

lemma fold_block:
  "fold (\<lambda>i. f (i div m) (i mod m)) [n * m ..< n * m + m] s = fold (f n) [0 ..< m] s"
proof -
  have "[n * m ..< n * m + m] = map (\<lambda>x. x + n * m) [0 ..< m]"
    by (simp add: map_add_upt add.commute)
  then have "fold (\<lambda>i. f (i div m) (i mod m)) [n * m ..< n * m + m] s =
      fold ((\<lambda>i. f (i div m) (i mod m)) \<circ> (\<lambda>x. x + n * m)) [0 ..< m] s"
    by (simp only: fold_map)
  also have "\<dots> = fold (f n) [0 ..< m] s"
    by (rule fold_cong) simp_all
  finally show ?thesis .
qed

lemma fold_grid:
  "fold (\<lambda>y. fold (f y) [0 ..< m]) [0 ..< n] s = fold (\<lambda>i. f (i div m) (i mod m)) [0 ..< n * m] s"
proof (induction n)
  case (Suc n)
  have "[0 ..< Suc n * m] = [0 ..< n * m] @ [n * m ..< n * m + m]"
    using upt_add_eq_append [of 0 "n * m" m] by (simp add: add.commute)
  with Suc show ?case by (simp add: fold_block)
qed simp

lemma sum_list_indicator:
  "sum_list (map (\<lambda>x. (if x \<noteq> 0 then 1 else 0) + c) [0 ..< m]) = (m - 1) + m * (c :: nat)"
  by (induction m) (auto simp: algebra_simps)

section \<open>Square roots of sums of squares\<close>

text \<open>
  Distances are \<^verbatim>\<open>Math.sqrt(dx * dx + dy * dy)\<close>. These facts let a comparison of
  such a distance with a threshold, and a closed instance, be decided without
  evaluating a square root.
\<close>

lemma sqrt_sum_squares_zero_iff [simp]: "sqrt (a * a + b * b) = 0 \<longleftrightarrow> a = 0 \<and> b = 0"
  by (simp add: sum_squares_eq_zero_iff)

lemma sqrt_sum_squares_nonneg [simp]: "0 \<le> sqrt (a * a + b * b)"
  by simp

lemma sqrt_less_iff_sq: "0 \<le> c \<Longrightarrow> sqrt a < c \<longleftrightarrow> a < c * c"
  using real_sqrt_less_iff [of a "c * c"] by simp

lemma less_sqrt_iff_sq: "0 \<le> c \<Longrightarrow> c < sqrt a \<longleftrightarrow> c * c < a"
  using real_sqrt_less_iff [of "c * c" a] by simp

lemma sqrt_le_iff_sq: "0 \<le> c \<Longrightarrow> sqrt a \<le> c \<longleftrightarrow> a \<le> c * c"
  using real_sqrt_le_iff [of a "c * c"] by simp

lemma sqrt_scaled_sum_squares:
  "sqrt ((k * a) * (k * a) + (k * b) * (k * b)) = \<bar>k\<bar> * sqrt (a * a + b * b)"
proof -
  have "(k * a) * (k * a) + (k * b) * (k * b) = (k * k) * (a * a + b * b)"
    by (simp add: algebra_simps)
  then show ?thesis by (simp add: real_sqrt_mult)
qed

text \<open>The length of the vector \<open>(a, b)\<close>, for statements about distances between points.\<close>

definition euclid :: "real \<Rightarrow> real \<Rightarrow> real" where
  "euclid a b = sqrt (a * a + b * b)"

lemma euclid_nonneg [simp]: "0 \<le> euclid a b"
  by (simp add: euclid_def)

lemma euclid_zero_iff [simp]: "euclid a b = 0 \<longleftrightarrow> a = 0 \<and> b = 0"
  by (simp add: euclid_def)

lemma euclid_pos_iff [simp]: "0 < euclid a b \<longleftrightarrow> a \<noteq> 0 \<or> b \<noteq> 0"
  using euclid_nonneg [of a b] euclid_zero_iff [of a b] by linarith

lemma euclid_scale: "euclid (k * a) (k * b) = \<bar>k\<bar> * euclid a b"
  by (simp add: euclid_def sqrt_scaled_sum_squares)

lemma euclid_commute: "euclid (a - b) (c - d) = euclid (b - a) (d - c)"
  using euclid_scale [of "-1" "a - b" "c - d"] by simp

lemma euclid_less_iff: "0 \<le> r \<Longrightarrow> euclid a b < r \<longleftrightarrow> a * a + b * b < r * r"
  by (simp add: euclid_def sqrt_less_iff_sq)

lemma less_euclid_iff: "0 \<le> r \<Longrightarrow> r < euclid a b \<longleftrightarrow> r * r < a * a + b * b"
  by (simp add: euclid_def less_sqrt_iff_sq)

lemma euclid_axis [simp]: "euclid a 0 = \<bar>a\<bar>" "euclid 0 a = \<bar>a\<bar>"
  by (simp_all add: euclid_def)

end
