(* ===== verification/JSNumber.thy ===== *)
theory JSNumber
  imports Prelude
begin

text \<open>
  The values of TypeScript's \<^verbatim>\<open>number\<close> as the simulation uses them: a real
  number, one of the two infinities, or \<^verbatim>\<open>NaN\<close>. The arithmetic follows IEEE 754
  in every case that involves an infinity, a division by zero or \<^verbatim>\<open>NaN\<close>; on
  finite values it is exact real arithmetic. What is not modelled: rounding to
  53 bits, overflow of a finite result to an infinity, and the sign of zero
  (the only divisor of the program that can be zero is a \<^verbatim>\<open>Math.sqrt\<close> result,
  which is never \<^verbatim>\<open>-0\<close>).

  The type is an instance of the syntactic classes only (\<open>+\<close>, \<open>-\<close>, \<open>*\<close>, \<open>/\<close>,
  \<open><\<close>, numerals), so the operations of the source read as they are written
  there, and no law of an ordered field is assumed of them: \<open>NaN\<close> breaks most.
\<close>

section \<open>The type and its arithmetic\<close>

datatype number = Fin real | PInf | NInf | NaN

instantiation number :: "{zero, one, plus, uminus, times, ord}"
begin

definition zero_number :: number where
  "zero_number = Fin 0"

definition one_number :: number where
  "one_number = Fin 1"

fun plus_number :: "number \<Rightarrow> number \<Rightarrow> number" where
  "plus_number (Fin a) (Fin b) = Fin (a + b)"
| "plus_number NaN _ = NaN"
| "plus_number _ NaN = NaN"
| "plus_number PInf NInf = NaN"
| "plus_number NInf PInf = NaN"
| "plus_number PInf _ = PInf"
| "plus_number _ PInf = PInf"
| "plus_number NInf _ = NInf"
| "plus_number _ NInf = NInf"

fun uminus_number :: "number \<Rightarrow> number" where
  "uminus_number (Fin a) = Fin (- a)"
| "uminus_number PInf = NInf"
| "uminus_number NInf = PInf"
| "uminus_number NaN = NaN"

fun times_number :: "number \<Rightarrow> number \<Rightarrow> number" where
  "times_number (Fin a) (Fin b) = Fin (a * b)"
| "times_number NaN _ = NaN"
| "times_number _ NaN = NaN"
| "times_number (Fin a) PInf = (if a = 0 then NaN else if 0 < a then PInf else NInf)"
| "times_number (Fin a) NInf = (if a = 0 then NaN else if 0 < a then NInf else PInf)"
| "times_number PInf (Fin b) = (if b = 0 then NaN else if 0 < b then PInf else NInf)"
| "times_number NInf (Fin b) = (if b = 0 then NaN else if 0 < b then NInf else PInf)"
| "times_number PInf PInf = PInf"
| "times_number PInf NInf = NInf"
| "times_number NInf PInf = NInf"
| "times_number NInf NInf = PInf"

fun less_number :: "number \<Rightarrow> number \<Rightarrow> bool" where
  "less_number (Fin a) (Fin b) = (a < b)"
| "less_number NaN _ = False"
| "less_number _ NaN = False"
| "less_number _ NInf = False"
| "less_number PInf _ = False"
| "less_number (Fin a) PInf = True"
| "less_number NInf _ = True"

fun less_eq_number :: "number \<Rightarrow> number \<Rightarrow> bool" where
  "less_eq_number (Fin a) (Fin b) = (a \<le> b)"
| "less_eq_number NaN _ = False"
| "less_eq_number _ NaN = False"
| "less_eq_number NInf _ = True"
| "less_eq_number _ PInf = True"
| "less_eq_number _ NInf = False"
| "less_eq_number PInf _ = False"

instance ..

end

instantiation number :: minus
begin

definition minus_number :: "number \<Rightarrow> number \<Rightarrow> number" where
  "minus_number a b = a + (- b)"

instance ..

end

instantiation number :: inverse
begin

fun divide_number :: "number \<Rightarrow> number \<Rightarrow> number" where
  "divide_number (Fin a) (Fin b) =
     (if b = 0 then (if a = 0 then NaN else if 0 < a then PInf else NInf)
      else Fin (a / b))"
| "divide_number NaN _ = NaN"
| "divide_number _ NaN = NaN"
| "divide_number (Fin a) PInf = Fin 0"
| "divide_number (Fin a) NInf = Fin 0"
| "divide_number PInf (Fin b) = (if 0 \<le> b then PInf else NInf)"
| "divide_number NInf (Fin b) = (if 0 \<le> b then NInf else PInf)"
| "divide_number PInf PInf = NaN"
| "divide_number PInf NInf = NaN"
| "divide_number NInf PInf = NaN"
| "divide_number NInf NInf = NaN"

definition inverse_number :: "number \<Rightarrow> number" where
  "inverse_number a = divide (Fin 1) a"

instance ..

end

instance number :: semigroup_add
proof
  fix a b c :: number
  show "a + b + c = a + (b + c)"
    by (cases a; cases b; cases c) simp_all
qed

instance number :: numeral ..

text \<open>Decimal literals such as \<open>0.99\<close> are read as \<open>99 / 10 ^ 2\<close>.\<close>

instance number :: power ..

section \<open>The functions of \<^verbatim>\<open>Math\<close> the program calls\<close>

fun Math_sqrt :: "number \<Rightarrow> number" where
  "Math_sqrt (Fin a) = (if a < 0 then NaN else Fin (sqrt a))"
| "Math_sqrt PInf = PInf"
| "Math_sqrt NInf = NaN"
| "Math_sqrt NaN = NaN"

fun Math_max :: "number \<Rightarrow> number \<Rightarrow> number" where
  "Math_max NaN _ = NaN"
| "Math_max _ NaN = NaN"
| "Math_max a b = (if a < b then b else a)"

fun Math_min :: "number \<Rightarrow> number \<Rightarrow> number" where
  "Math_min NaN _ = NaN"
| "Math_min _ NaN = NaN"
| "Math_min a b = (if b < a then b else a)"

text \<open>The exponentiation \<^verbatim>\<open>a ** 2\<close>: a square, \<open>NaN\<close> for \<open>NaN\<close>, \<open>PInf\<close> for an infinity.\<close>

definition pow2 :: "number \<Rightarrow> number" where
  "pow2 a = a * a"

text \<open>An integer loop counter or grid dimension used in arithmetic on numbers.\<close>

definition of_int_number :: "int \<Rightarrow> number" where
  "of_int_number i = Fin (real_of_int i)"

definition of_nat_number :: "nat \<Rightarrow> number" where
  "of_nat_number n = Fin (real n)"

section \<open>Finite values\<close>

fun is_finite :: "number \<Rightarrow> bool" where
  "is_finite (Fin a) = True"
| "is_finite _ = False"

fun val :: "number \<Rightarrow> real" where
  "val (Fin a) = a"
| "val _ = 0"

lemma is_finite_iff: "is_finite a \<longleftrightarrow> (\<exists>r. a = Fin r)"
  by (cases a) auto

lemma is_finite_val: "is_finite a \<Longrightarrow> a = Fin (val a)"
  by (cases a) auto

section \<open>Normal forms on finite values\<close>

lemma zero_number [simp]: "(0 :: number) = Fin 0"
  by (simp add: zero_number_def)

lemma one_number [simp]: "(1 :: number) = Fin 1"
  by (simp add: one_number_def)

lemma numeral_number [simp]: "(numeral n :: number) = Fin (numeral n)"
  by (induction n) (simp_all only: numeral.simps one_number_def plus_number.simps)

lemma minus_Fin [simp]: "Fin a - Fin b = Fin (a - b)"
  by (simp add: minus_number_def)

lemma power_Fin [simp]: "Fin a ^ n = Fin (a ^ n)"
  by (induction n) simp_all

lemma divide_Fin: "b \<noteq> 0 \<Longrightarrow> Fin a / Fin b = Fin (a / b)"
  by simp

lemma greater_Fin [simp]: "Fin a > Fin b \<longleftrightarrow> b < a"
  by simp

lemma pow2_Fin [simp]: "pow2 (Fin a) = Fin (a * a)"
  by (simp add: pow2_def)

lemma of_int_number_simps [simp]:
  "of_int_number 0 = Fin 0" "of_int_number 1 = Fin 1"
  "of_int_number (numeral k) = Fin (numeral k)"
  by (simp_all add: of_int_number_def)

lemma of_nat_number_simps [simp]:
  "of_nat_number 0 = Fin 0" "of_nat_number (numeral k) = Fin (numeral k)"
  by (simp_all add: of_nat_number_def)

lemma Math_max_Fin [simp]: "Math_max (Fin a) (Fin b) = Fin (max a b)"
  by (simp add: max_def)

lemma Math_min_Fin [simp]: "Math_min (Fin a) (Fin b) = Fin (min a b)"
  by (simp add: min_def)

lemma Math_sqrt_sum_squares [simp]:
  "Math_sqrt (Fin (a * a + b * b)) = Fin (sqrt (a * a + b * b))"
  by (simp add: not_less)

section \<open>How \<open>NaN\<close> and the infinities behave\<close>

lemma NaN_absorbs [simp]:
  "a + NaN = NaN" "NaN + a = NaN" "a - NaN = NaN" "NaN - a = NaN"
  "a * NaN = NaN" "NaN * a = NaN" "a / NaN = NaN" "NaN / a = NaN"
  by (cases a; simp add: minus_number_def)+

lemma NaN_compares_false [simp]:
  "\<not> a < NaN" "\<not> NaN < a" "\<not> a \<le> NaN" "\<not> NaN \<le> a"
  by (cases a; simp)+

lemma Math_max_NaN [simp]: "Math_max a NaN = NaN"
  by (cases a) simp_all

lemma Math_min_NaN [simp]: "Math_min a NaN = NaN"
  by (cases a) simp_all

lemma less_Fin_finite: "a < Fin c \<Longrightarrow> 0 \<le> val a \<or> a = NInf \<or> is_finite a"
  by (cases a) auto

text \<open>Division by zero: the quotient of two zeros is \<open>NaN\<close>, any other an infinity.\<close>

lemma divide_by_zero:
  "Fin a / Fin 0 = (if a = 0 then NaN else if 0 < a then PInf else NInf)"
  by simp

lemma quotient_by_zero_not_finite: "\<not> is_finite (a / Fin 0)"
  by (cases a) simp_all

text \<open>Zero times anything that is not finite is \<open>NaN\<close>.\<close>

lemma zero_times_not_finite: "\<not> is_finite a \<Longrightarrow> Fin 0 * a = NaN"
  by (cases a) simp_all

lemma zero_times_quotient_by_zero [simp]: "Fin 0 * (Fin a / Fin 0) = NaN"
  by simp

section \<open>Clamping\<close>

text \<open>
  \<^verbatim>\<open>Math.max(lo, Math.min(hi, v))\<close> on finite bounds: \<open>NaN\<close> stays \<open>NaN\<close>, every
  other value lands between \<open>lo\<close> and \<open>max lo hi\<close>.
\<close>

lemma clamp_cases:
  "Math_max (Fin lo) (Math_min (Fin hi) a) =
     (case a of Fin r \<Rightarrow> Fin (max lo (min hi r)) | PInf \<Rightarrow> Fin (max lo hi)
      | NInf \<Rightarrow> Fin lo | NaN \<Rightarrow> NaN)"
  by (cases a) (auto simp: max_def min_def)

lemma clamp_NaN_iff: "Math_max (Fin lo) (Math_min (Fin hi) a) = NaN \<longleftrightarrow> a = NaN"
  unfolding clamp_cases by (cases a) auto

lemma clamp_bounds:
  assumes "Math_max (Fin lo) (Math_min (Fin hi) a) = Fin r"
  shows "lo \<le> r \<and> r \<le> max lo hi"
  using assms unfolding clamp_cases by (cases a) auto

lemma clamp_id: "lo \<le> r \<Longrightarrow> r \<le> hi \<Longrightarrow> Math_max (Fin lo) (Math_min (Fin hi) (Fin r)) = Fin r"
  by simp

lemma is_finite_clamp: "is_finite (Math_max (Fin lo) (Math_min (Fin hi) a)) \<longleftrightarrow> a \<noteq> NaN"
  unfolding clamp_cases by (cases a) simp_all

section \<open>Finite results\<close>

text \<open>
  The operations the simulation applies to finite operands give finite results,
  the division when the divisor is not zero and the square root on a sum of
  squares.
\<close>

lemma is_finite_Fin_ops [simp]:
  "is_finite (Fin a + Fin b)" "is_finite (Fin a - Fin b)" "is_finite (Fin a * Fin b)"
  "b \<noteq> 0 \<Longrightarrow> is_finite (Fin a / Fin b)" "is_finite (Math_sqrt (Fin (a * a + b * b)))"
  by (simp_all add: not_less)

lemma not_finite_NaN [simp]: "\<not> is_finite NaN" "\<not> is_finite PInf" "\<not> is_finite NInf"
  by simp_all

end
