(* ===== verification/Store.thy ===== *)
theory Store
  imports JSNumber
begin

text \<open>
  The objects of \<^verbatim>\<open>src/src/ClothSimulation.tsx\<close> and the store they live in.

  A \<^verbatim>\<open>Point\<close> object is an address into the list \<open>h_points\<close>, in allocation
  order; a variable of type \<^verbatim>\<open>Point\<close> holds \<open>Some\<close> address, or \<open>None\<close> when it
  is \<^verbatim>\<open>undefined\<close> at run time (an array read out of range). The fields of a
  \<^verbatim>\<open>Constraint\<close> are never assigned after its constructor has run, so a
  constraint is the record of its fields together with \<open>c_id\<close>, the identity
  that \<^verbatim>\<open>c !== this\<close> compares; \<open>h_next_id\<close> is the next identity to hand out.
  Two records with the same fields and different \<open>c_id\<close> are two objects.

  The fields of both classes carry the initial of their class (\<open>p_x\<close> for
  \<^verbatim>\<open>Point.x\<close>, \<open>c_length\<close> for \<^verbatim>\<open>Constraint.length\<close>): \<open>x\<close>, \<open>y\<close> and \<open>length\<close> are
  needed as variables and as the list function. The values the closure of
  the effect captures (the props, the canvas, the mouse variables) are
  records of their own, passed to the operations that read them.
\<close>

section \<open>Objects\<close>

type_synonym addr = nat
type_synonym pref = "addr option"

record constraint =
  c_id :: nat
  c_p1 :: pref
  c_p2 :: pref
  c_length :: number

record point =
  p_x :: number
  p_y :: number
  p_px :: number
  p_py :: number
  p_vx :: number
  p_vy :: number
  p_pinX :: "number option"
  p_pinY :: "number option"
  p_constraints :: "constraint list"

record heap =
  h_points :: "point list"
  h_next_id :: nat

section \<open>What the closure captures\<close>

record props =
  width :: nat
  height :: nat
  clothWidth :: int
  clothHeight :: int
  spacing :: number
  gravity :: number
  mouseInfluence :: number
  mouseCut :: number
  tearDistance :: number
  backgroundColor :: string
  lineColor :: string

text \<open>
  Of \<^verbatim>\<open>clothSettings\<close> the classes read two entries; every other entry repeats
  a prop and is never read.
\<close>

definition physicsAccuracy :: nat where
  "physicsAccuracy = 3"

definition startY :: number where
  "startY = 10"

record mouse =
  mouseX :: number
  mouseY :: number
  mouseDown :: bool
  mouseButton :: int

text \<open>
  The canvas element: its \<^verbatim>\<open>width\<close> and \<^verbatim>\<open>height\<close> attributes are unsigned
  integers in the DOM. The classes read them through \<^verbatim>\<open>canvas?.width ?? 200\<close>.
\<close>

record canvas =
  canvas_width :: nat
  canvas_height :: nat

definition canvasWidth :: "canvas option \<Rightarrow> number" where
  "canvasWidth cv = (case cv of None \<Rightarrow> 200 | Some c \<Rightarrow> of_nat_number (canvas_width c))"

definition canvasHeight :: "canvas option \<Rightarrow> number" where
  "canvasHeight cv = (case cv of None \<Rightarrow> 200 | Some c \<Rightarrow> of_nat_number (canvas_height c))"

lemma canvasWidth_finite: "\<exists>w. canvasWidth cv = Fin w \<and> 0 \<le> w"
  by (cases cv) (auto simp: canvasWidth_def of_nat_number_def)

lemma canvasHeight_finite: "\<exists>w. canvasHeight cv = Fin w \<and> 0 \<le> w"
  by (cases cv) (auto simp: canvasHeight_def of_nat_number_def)

section \<open>Reading and writing the store\<close>

text \<open>
  \<open>deref\<close> is a property read through a variable of type \<^verbatim>\<open>Point\<close>: the
  \<^verbatim>\<open>TypeError\<close> of \<^verbatim>\<open>undefined.x\<close> is \<open>None\<close>. An address beyond the store does not
  arise in JavaScript; the model treats it like \<^verbatim>\<open>undefined\<close>.
\<close>

definition deref :: "heap \<Rightarrow> pref \<Rightarrow> (addr \<times> point) option" where
  "deref h r = (case r of None \<Rightarrow> None
     | Some a \<Rightarrow> if a < length (h_points h) then Some (a, h_points h ! a) else None)"

definition upd_point :: "addr \<Rightarrow> (point \<Rightarrow> point) \<Rightarrow> heap \<Rightarrow> heap" where
  "upd_point a f h = h\<lparr>h_points := (h_points h)[a := f (h_points h ! a)]\<rparr>"

definition points_count :: "heap \<Rightarrow> nat" where
  "points_count h = length (h_points h)"

definition point_at :: "heap \<Rightarrow> addr \<Rightarrow> point" where
  "point_at h a = h_points h ! a"

lemma deref_Some_iff:
  "deref h r = Some (a, p) \<longleftrightarrow> r = Some a \<and> a < points_count h \<and> p = point_at h a"
  by (auto simp: deref_def points_count_def point_at_def split: option.splits)

lemma deref_None_iff: "deref h r = None \<longleftrightarrow> (\<forall>a. r = Some a \<longrightarrow> points_count h \<le> a)"
  by (auto simp: deref_def points_count_def split: option.splits)

lemma deref_valid [simp]: "a < points_count h \<Longrightarrow> deref h (Some a) = Some (a, point_at h a)"
  by (simp add: deref_Some_iff)

lemma deref_undefined [simp]: "deref h None = None"
  by (simp add: deref_def)

lemma deref_beyond [simp]: "\<not> a < points_count h \<Longrightarrow> deref h (Some a) = None"
  by (simp add: deref_def points_count_def)

lemma points_count_upd [simp, frame]: "points_count (upd_point a f h) = points_count h"
  by (simp add: upd_point_def points_count_def)

lemma next_id_upd [simp, frame]: "h_next_id (upd_point a f h) = h_next_id h"
  by (simp add: upd_point_def)

lemma point_at_upd:
  "point_at (upd_point a f h) b =
     (if a = b \<and> a < points_count h then f (point_at h a) else point_at h b)"
  by (simp add: upd_point_def point_at_def points_count_def nth_list_update_if)

lemma point_at_upd_same [simp]: "a < points_count h \<Longrightarrow> point_at (upd_point a f h) a = f (point_at h a)"
  by (simp add: point_at_upd)

lemma point_at_upd_other [simp]: "a \<noteq> b \<Longrightarrow> point_at (upd_point a f h) b = point_at h b"
  by (simp add: point_at_upd)

lemma deref_upd:
  "deref (upd_point a f h) r =
     map_option (\<lambda>(b, p). (b, if a = b then f p else p)) (deref h r)"
  by (auto simp: deref_def upd_point_def nth_list_update_if split: option.splits)

lemma upd_point_id: "f (point_at h a) = point_at h a \<Longrightarrow> upd_point a f h = h"
  by (simp add: upd_point_def point_at_def)

lemma upd_point_cong: "f (point_at h a) = g (point_at h a) \<Longrightarrow> upd_point a f h = upd_point a g h"
  by (simp add: upd_point_def point_at_def)

lemma upd_point_beyond: "points_count h \<le> a \<Longrightarrow> upd_point a f h = h"
  by (simp add: upd_point_def points_count_def list_update_beyond)

lemma upd_point_twice:
  "a < points_count h \<Longrightarrow> upd_point a g (upd_point a f h) = upd_point a (g \<circ> f) h"
  by (simp add: upd_point_def points_count_def)

lemma heap_eqI:
  "points_count h = points_count h' \<Longrightarrow> h_next_id h = h_next_id h'
    \<Longrightarrow> (\<And>a. a < points_count h \<Longrightarrow> point_at h a = point_at h' a) \<Longrightarrow> h = h'"
  by (cases h; cases h') (auto simp: points_count_def point_at_def intro: nth_equalityI)

section \<open>The topology held in the store\<close>

text \<open>
  The constraints a point holds, all constraints of the store in the order in
  which \<^verbatim>\<open>Cloth.draw\<close> walks them, and their identities.
\<close>

definition constraints_of :: "heap \<Rightarrow> addr \<Rightarrow> constraint list" where
  "constraints_of h a = p_constraints (point_at h a)"

definition all_constraints :: "heap \<Rightarrow> constraint list" where
  "all_constraints h = concat (map p_constraints (h_points h))"

definition constraint_ids :: "heap \<Rightarrow> nat list" where
  "constraint_ids h = map c_id (all_constraints h)"

lemma all_constraints_iff:
  "c \<in> set (all_constraints h) \<longleftrightarrow> (\<exists>a < points_count h. c \<in> set (constraints_of h a))"
  by (force simp: all_constraints_def constraints_of_def points_count_def point_at_def
      set_conv_nth [of "h_points h"])

section \<open>Well-formed stores\<close>

text \<open>
  What the constructor of \<^verbatim>\<open>Cloth\<close> establishes and every later operation
  keeps: a constraint is held by its first end point only, both its ends are
  objects of the store, and no identity is used twice or is still to be
  handed out. The definition is executable; \<open>wf_heap_iff\<close> is its reading
  with quantifiers.
\<close>

definition wf_constraint :: "heap \<Rightarrow> addr \<Rightarrow> constraint \<Rightarrow> bool" where
  "wf_constraint h a c \<longleftrightarrow>
     c_p1 c = Some a \<and> deref h (c_p2 c) \<noteq> None \<and> c_id c < h_next_id h"

definition wf_heap :: "heap \<Rightarrow> bool" where
  "wf_heap h \<longleftrightarrow>
     list_all (\<lambda>a. list_all (wf_constraint h a) (constraints_of h a)) [0..<points_count h]
     \<and> distinct (constraint_ids h)"

lemma wf_heap_iff:
  "wf_heap h \<longleftrightarrow>
     (\<forall>a < points_count h. \<forall>c \<in> set (constraints_of h a). wf_constraint h a c)
     \<and> distinct (constraint_ids h)"
  by (auto simp: wf_heap_def list_all_iff)

lemma wf_heapD:
  "wf_heap h \<Longrightarrow> a < points_count h \<Longrightarrow> c \<in> set (constraints_of h a) \<Longrightarrow> wf_constraint h a c"
  by (simp add: wf_heap_iff)

lemma wf_constraint_deref:
  "wf_constraint h a c \<Longrightarrow> a < points_count h \<Longrightarrow>
     deref h (c_p1 c) = Some (a, point_at h a) \<and> (\<exists>b < points_count h. c_p2 c = Some b)"
  by (cases "c_p2 c") (auto simp: wf_constraint_def deref_None_iff not_le)

lemma constraints_of_upd:
  "constraints_of (upd_point a f h) b =
     (if a = b \<and> a < points_count h then p_constraints (f (point_at h a)) else constraints_of h b)"
  by (simp add: constraints_of_def point_at_upd)

lemma wf_constraint_cong:
  "points_count h' = points_count h \<Longrightarrow> h_next_id h' = h_next_id h
    \<Longrightarrow> wf_constraint h' a c = wf_constraint h a c"
  by (simp add: wf_constraint_def deref_None_iff)

lemma wf_constraint_grow:
  "wf_constraint h a c \<Longrightarrow> points_count h \<le> points_count h' \<Longrightarrow> h_next_id h \<le> h_next_id h'
    \<Longrightarrow> wf_constraint h' a c"
  by (fastforce simp: wf_constraint_def deref_None_iff not_le)

lemma ids_below_next:
  "wf_heap h \<Longrightarrow> c \<in> set (all_constraints h) \<Longrightarrow> c_id c < h_next_id h"
  by (auto simp: all_constraints_iff wf_constraint_def dest: wf_heapD)

lemma constraint_ids_upd:
  "constraint_ids (upd_point a f h) =
     map c_id (concat (map p_constraints ((h_points h)[a := f (point_at h a)])))"
  by (simp add: constraint_ids_def all_constraints_def upd_point_def point_at_def)

text \<open>
  Every write the classes make to a point either leaves its list of
  constraints alone or replaces it by a filtered copy. Both keep the store
  well formed (for the first, \<open>P\<close> is the predicate that is always true).
\<close>

lemma wf_heap_upd_point [wf_intros]:
  assumes wf: "wf_heap h"
    and keep: "p_constraints (f (point_at h a)) = filter P (p_constraints (point_at h a))"
  shows "wf_heap (upd_point a f h)"
proof -
  have "wf_constraint (upd_point a f h) b c"
    if "b < points_count h" "c \<in> set (constraints_of (upd_point a f h) b)" for b c
  proof -
    from that(2) keep have "c \<in> set (constraints_of h b)"
      by (auto simp: constraints_of_def point_at_upd split: if_splits)
    with wf that(1) have "wf_constraint h b c" by (rule wf_heapD)
    then show ?thesis by (simp add: wf_constraint_cong [of "upd_point a f h" h])
  qed
  moreover from wf keep have "distinct (constraint_ids (upd_point a f h))"
    unfolding constraint_ids_upd
    by (intro distinct_map_concat_update_filter [where P = P])
      (simp_all add: wf_heap_iff constraint_ids_def all_constraints_def point_at_def)
  ultimately show ?thesis by (simp add: wf_heap_iff)
qed

lemma wf_heap_upd_coords [wf_intros]:
  assumes "wf_heap h" and "p_constraints (f (point_at h a)) = p_constraints (point_at h a)"
  shows "wf_heap (upd_point a f h)"
  using assms by (intro wf_heap_upd_point [where P = "\<lambda>_. True"]) simp_all

text \<open>In a well-formed store a constraint is determined by its identity.\<close>

lemma distinct_ids_inj:
  assumes "distinct (constraint_ids h)"
    and "c \<in> set (all_constraints h)" and "c' \<in> set (all_constraints h)"
    and "c_id c = c_id c'"
  shows "c = c'"
  using assms unfolding constraint_ids_def by (simp add: distinct_map inj_on_def)

lemma wf_holder_unique:
  assumes "wf_heap h" and "a < points_count h" and "b < points_count h"
    and "c \<in> set (constraints_of h a)" and "c \<in> set (constraints_of h b)"
  shows "a = b"
  using assms wf_heapD [of h a c] wf_heapD [of h b c] by (simp add: wf_constraint_def)

lemma not_held_elsewhere:
  assumes "wf_heap h" and "a < points_count h" and "c \<in> set (constraints_of h a)"
    and "k < points_count h" and "k \<noteq> a"
  shows "c \<notin> set (constraints_of h k)"
  using assms wf_holder_unique [of h a k c] by auto

text \<open>
  So the comparison of identities \<^verbatim>\<open>c' !== c\<close> in a filter removes exactly the
  object \<open>c\<close>.
\<close>

lemma filter_other_ids:
  assumes "wf_heap h" and "c \<in> set (all_constraints h)" and "k < points_count h"
  shows "filter (\<lambda>c'. c_id c' \<noteq> c_id c) (constraints_of h k) = removeAll c (constraints_of h k)"
proof -
  have "(c_id c' \<noteq> c_id c) = (c \<noteq> c')" if "c' \<in> set (constraints_of h k)" for c'
  proof -
    from that assms(3) have "c' \<in> set (all_constraints h)"
      by (auto simp: all_constraints_iff)
    with assms(1,2) show ?thesis
      by (auto simp: wf_heap_iff dest: distinct_ids_inj)
  qed
  then show ?thesis
    by (simp add: removeAll_filter_not_eq cong: filter_cong)
qed

section \<open>What no method changes\<close>

text \<open>
  \<open>evolves h h'\<close>: the store \<open>h'\<close> has the objects of \<open>h\<close> and the same next
  identity, every point has the pin it had, and holds no constraint it did not
  hold in \<open>h\<close>. It is the frame condition of the methods that run every frame:
  they move points and remove constraints, and nothing else.
\<close>

definition same_shape :: "point \<Rightarrow> point \<Rightarrow> bool" where
  "same_shape p p' \<longleftrightarrow> p_pinX p' = p_pinX p \<and> p_pinY p' = p_pinY p
     \<and> set (p_constraints p') \<subseteq> set (p_constraints p)"

definition evolves :: "heap \<Rightarrow> heap \<Rightarrow> bool" where
  "evolves h h' \<longleftrightarrow> points_count h' = points_count h \<and> h_next_id h' = h_next_id h
     \<and> list_all (\<lambda>a. same_shape (point_at h a) (point_at h' a)) [0 ..< points_count h]"

lemma same_shape_refl [simp]: "same_shape p p"
  by (simp add: same_shape_def)

lemma same_shape_trans: "same_shape p q \<Longrightarrow> same_shape q r \<Longrightarrow> same_shape p r"
  by (auto simp: same_shape_def)

lemma evolves_iff:
  "evolves h h' \<longleftrightarrow> points_count h' = points_count h \<and> h_next_id h' = h_next_id h
     \<and> (\<forall>a < points_count h. same_shape (point_at h a) (point_at h' a))"
  by (auto simp: evolves_def list_all_iff)

lemma evolves_refl [simp]: "evolves h h"
  by (simp add: evolves_iff)

lemma evolves_trans: "evolves h k \<Longrightarrow> evolves k h' \<Longrightarrow> evolves h h'"
  by (auto simp: evolves_iff intro: same_shape_trans)

lemma evolves_upd:
  assumes "evolves h k" and "same_shape (point_at k a) (f (point_at k a))"
  shows "evolves h (upd_point a f k)"
proof -
  from assms(2) have "evolves k (upd_point a f k)"
    by (simp add: evolves_iff point_at_upd)
  with assms(1) show ?thesis by (rule evolves_trans)
qed

lemma evolvesD:
  assumes "evolves h h'"
  shows "points_count h' = points_count h" and "h_next_id h' = h_next_id h"
    and "a < points_count h \<Longrightarrow> p_pinX (point_at h' a) = p_pinX (point_at h a)"
    and "a < points_count h \<Longrightarrow> p_pinY (point_at h' a) = p_pinY (point_at h a)"
    and "a < points_count h \<Longrightarrow> set (constraints_of h' a) \<subseteq> set (constraints_of h a)"
  using assms by (simp_all add: evolves_iff same_shape_def constraints_of_def)

lemma fold_opt_evolves:
  assumes "fold_opt f xs h = Some h'" and "\<And>x k k'. f x k = Some k' \<Longrightarrow> evolves k k'"
  shows "evolves h h'"
  using assms(1)
  by (rule fold_opt_preserves [where P = "evolves h"]) (auto intro: evolves_trans assms(2))

lemma deref_grow:
  "deref h q \<noteq> None \<Longrightarrow> points_count h \<le> points_count h' \<Longrightarrow> deref h' q \<noteq> None"
  by (cases q) (auto simp: deref_None_iff)

lemma all_constraints_upd_same:
  assumes "p_constraints (f (point_at h a)) = p_constraints (point_at h a)"
  shows "all_constraints (upd_point a f h) = all_constraints h"
proof (cases "a < points_count h")
  case True
  with assms have "map p_constraints ((h_points h)[a := f (h_points h ! a)]) = map p_constraints (h_points h)"
    by (intro map_list_update_same) (simp_all add: points_count_def point_at_def)
  then show ?thesis by (simp add: all_constraints_def upd_point_def)
next
  case False
  then show ?thesis by (simp add: upd_point_beyond)
qed

end
