(* ===== verification/Constraint.thy ===== *)
theory Constraint
  imports Store
begin

text \<open>
  The class \<^verbatim>\<open>Constraint\<close> (lines 140 to 167 of \<^verbatim>\<open>src/src/ClothSimulation.tsx\<close>):
  its constructor and \<^verbatim>\<open>resolve\<close>, each statement of the source one binding of
  the definition. Then what \<^verbatim>\<open>resolve\<close> computes, in terms of the separation of
  the two end points: a relaxation step puts them exactly the rest length
  apart about an unmoved midpoint, a constraint at rest changes nothing, an
  overstretched one leaves the topology and moves nothing, coincident end
  points are sent to \<open>NaN\<close>, and the only exception is an undefined end.
\<close>

section \<open>The class\<close>

definition Constraint_new :: "props \<Rightarrow> pref \<Rightarrow> pref \<Rightarrow> heap \<Rightarrow> constraint \<times> heap" where
  "Constraint_new pr p1 p2 h =
     (\<lparr>c_id = h_next_id h, c_p1 = p1, c_p2 = p2, c_length = spacing pr\<rparr>,
      h\<lparr>h_next_id := Suc (h_next_id h)\<rparr>)"

text \<open>\<^verbatim>\<open>p.constraints = p.constraints.filter((c) => c !== this)\<close>, as a change of \<open>p\<close>.\<close>

definition detach :: "constraint \<Rightarrow> point \<Rightarrow> point" where
  "detach this = (\<lambda>p. p\<lparr>p_constraints := filter (\<lambda>c. c_id c \<noteq> c_id this) (p_constraints p)\<rparr>)"

definition Constraint_resolve :: "props \<Rightarrow> constraint \<Rightarrow> heap \<Rightarrow> heap option" where
  "Constraint_resolve pr this h = do {
     (a1, P1) \<leftarrow> deref h (c_p1 this);
     (a2, P2) \<leftarrow> deref h (c_p2 this);
     let dx = p_x P1 - p_x P2;
     let dy = p_y P1 - p_y P2;
     let dist = Math_sqrt (dx * dx + dy * dy);
     if dist > tearDistance pr then do {
       let h = upd_point a1 (detach this) h;
       let h = upd_point a2 (detach this) h;
       Some h
     } else do {
       let diff = (c_length this - dist) / dist;
       let px = dx * diff * 0.5;
       let py = dy * diff * 0.5;
       let h = upd_point a1 (\<lambda>p. p\<lparr>p_x := p_x p + px\<rparr>) h;
       let h = upd_point a1 (\<lambda>p. p\<lparr>p_y := p_y p + py\<rparr>) h;
       let h = upd_point a2 (\<lambda>p. p\<lparr>p_x := p_x p - px\<rparr>) h;
       let h = upd_point a2 (\<lambda>p. p\<lparr>p_y := p_y p - py\<rparr>) h;
       Some h
     }
   }"

section \<open>The vocabulary of the statements\<close>

text \<open>
  The distance \<^verbatim>\<open>resolve\<close> computes from two points, the pair \<^verbatim>\<open>(px, py)\<close> it
  adds to the first and subtracts from the second, and a point with finite
  coordinates.
\<close>

definition separation :: "point \<Rightarrow> point \<Rightarrow> number" where
  "separation P Q =
     Math_sqrt ((p_x P - p_x Q) * (p_x P - p_x Q) + (p_y P - p_y Q) * (p_y P - p_y Q))"

definition correction :: "constraint \<Rightarrow> point \<Rightarrow> point \<Rightarrow> number \<times> number" where
  "correction c P Q =
     (let diff = (c_length c - separation P Q) / separation P Q
      in ((p_x P - p_x Q) * diff * 0.5, (p_y P - p_y Q) * diff * 0.5))"

definition shift :: "number \<times> number \<Rightarrow> point \<Rightarrow> point" where
  "shift d = (\<lambda>p. p\<lparr>p_x := p_x p + fst d, p_y := p_y p + snd d\<rparr>)"

definition unshift :: "number \<times> number \<Rightarrow> point \<Rightarrow> point" where
  "unshift d = (\<lambda>p. p\<lparr>p_x := p_x p - fst d, p_y := p_y p - snd d\<rparr>)"

definition located :: "point \<Rightarrow> real \<Rightarrow> real \<Rightarrow> bool" where
  "located P x y \<longleftrightarrow> p_x P = Fin x \<and> p_y P = Fin y"

text \<open>The store in which no point holds the constraint \<open>c\<close> any more.\<close>

definition without :: "constraint \<Rightarrow> heap \<Rightarrow> heap" where
  "without c h = h\<lparr>h_points := map (\<lambda>p. p\<lparr>p_constraints := removeAll c (p_constraints p)\<rparr>) (h_points h)\<rparr>"

text \<open>A store of two points, the second holding one constraint to the first.\<close>

definition example_point :: "real \<Rightarrow> real \<Rightarrow> constraint list \<Rightarrow> point" where
  "example_point x y cs =
     \<lparr>p_x = Fin x, p_y = Fin y, p_px = Fin x, p_py = Fin y, p_vx = Fin 0, p_vy = Fin 0,
      p_pinX = None, p_pinY = None, p_constraints = cs\<rparr>"

definition example_link :: "real \<Rightarrow> constraint" where
  "example_link L = \<lparr>c_id = 0, c_p1 = Some 1, c_p2 = Some 0, c_length = Fin L\<rparr>"

definition example_heap :: "real \<Rightarrow> real \<Rightarrow> real \<Rightarrow> real \<Rightarrow> real \<Rightarrow> heap" where
  "example_heap x0 y0 x1 y1 L =
     \<lparr>h_points = [example_point x0 y0 [], example_point x1 y1 [example_link L]],
      h_next_id = 1\<rparr>"

definition example_props :: "real \<Rightarrow> props" where
  "example_props t =
     \<lparr>width = 200, height = 200, clothWidth = 1, clothHeight = 0, spacing = Fin 10,
      gravity = Fin 1200, mouseInfluence = Fin 30, mouseCut = Fin 15, tearDistance = Fin t,
      backgroundColor = ''transparent'', lineColor = ''#888''\<rparr>"

lemmas example_defs =
  example_point_def example_link_def example_heap_def example_props_def
  deref_def point_at_def points_count_def constraints_of_def

section \<open>The two branches of \<^verbatim>\<open>resolve\<close>\<close>

lemma upd_upd_fields:
  "upd_point a (\<lambda>p. p\<lparr>p_y := p_y p + dy\<rparr>) (upd_point a (\<lambda>p. p\<lparr>p_x := p_x p + dx\<rparr>) h)
     = upd_point a (shift (dx, dy)) h"
  "upd_point a (\<lambda>p. p\<lparr>p_y := p_y p - dy\<rparr>) (upd_point a (\<lambda>p. p\<lparr>p_x := p_x p - dx\<rparr>) h)
     = upd_point a (unshift (dx, dy)) h"
  by (cases "a < points_count h";
      simp add: upd_point_twice upd_point_beyond shift_def unshift_def comp_def)+

lemma Constraint_resolve_eq:
  assumes "deref h (c_p1 c) = Some (a1, P1)" and "deref h (c_p2 c) = Some (a2, P2)"
  shows "Constraint_resolve pr c h =
    Some (if separation P1 P2 > tearDistance pr
          then upd_point a2 (detach c) (upd_point a1 (detach c) h)
          else upd_point a2 (unshift (correction c P1 P2))
                 (upd_point a1 (shift (correction c P1 P2)) h))"
  using assms
  by (simp add: Constraint_resolve_def separation_def correction_def Let_def upd_upd_fields)

lemma Constraint_resolve_None_iff:
  "Constraint_resolve pr c h = None \<longleftrightarrow> deref h (c_p1 c) = None \<or> deref h (c_p2 c) = None"
  by (auto simp: Constraint_resolve_def Let_def split: Option.bind_splits)

lemma Constraint_resolve_SomeE:
  assumes "Constraint_resolve pr c h = Some h'"
  obtains a1 a2 where "c_p1 c = Some a1" "c_p2 c = Some a2"
    "a1 < points_count h" "a2 < points_count h"
    "h' = (if separation (point_at h a1) (point_at h a2) > tearDistance pr
          then upd_point a2 (detach c) (upd_point a1 (detach c) h)
          else upd_point a2 (unshift (correction c (point_at h a1) (point_at h a2)))
                 (upd_point a1 (shift (correction c (point_at h a1) (point_at h a2))) h))"
proof -
  from assms have "deref h (c_p1 c) \<noteq> None" "deref h (c_p2 c) \<noteq> None"
    using Constraint_resolve_None_iff [of pr c h] by auto
  then obtain a1 P1 a2 P2
    where d: "deref h (c_p1 c) = Some (a1, P1)" "deref h (c_p2 c) = Some (a2, P2)"
    by auto
  then have v: "c_p1 c = Some a1" "c_p2 c = Some a2" "a1 < points_count h" "a2 < points_count h"
    by (simp_all add: deref_Some_iff)
  then have "deref h (c_p1 c) = Some (a1, point_at h a1)"
    "deref h (c_p2 c) = Some (a2, point_at h a2)"
    by simp_all
  from assms Constraint_resolve_eq [OF this, of pr] show thesis
    by (intro that [OF v]) simp
qed

section \<open>Fields under the changes \<^verbatim>\<open>resolve\<close> makes\<close>

lemma detach_fields [simp]:
  "p_constraints (detach c p) = filter (\<lambda>c'. c_id c' \<noteq> c_id c) (p_constraints p)"
  "p_x (detach c p) = p_x p" "p_y (detach c p) = p_y p"
  "p_px (detach c p) = p_px p" "p_py (detach c p) = p_py p"
  "p_vx (detach c p) = p_vx p" "p_vy (detach c p) = p_vy p"
  "p_pinX (detach c p) = p_pinX p" "p_pinY (detach c p) = p_pinY p"
  by (simp_all add: detach_def)

lemma shift_fields [simp]:
  "p_constraints (shift d p) = p_constraints p"
  "p_x (shift d p) = p_x p + fst d" "p_y (shift d p) = p_y p + snd d"
  "p_px (shift d p) = p_px p" "p_py (shift d p) = p_py p"
  "p_vx (shift d p) = p_vx p" "p_vy (shift d p) = p_vy p"
  "p_pinX (shift d p) = p_pinX p" "p_pinY (shift d p) = p_pinY p"
  by (simp_all add: shift_def)

lemma unshift_fields [simp]:
  "p_constraints (unshift d p) = p_constraints p"
  "p_x (unshift d p) = p_x p - fst d" "p_y (unshift d p) = p_y p - snd d"
  "p_px (unshift d p) = p_px p" "p_py (unshift d p) = p_py p"
  "p_vx (unshift d p) = p_vx p" "p_vy (unshift d p) = p_vy p"
  "p_pinX (unshift d p) = p_pinX p" "p_pinY (unshift d p) = p_pinY p"
  by (simp_all add: unshift_def)

lemma detach_idem [simp]: "detach c (detach c p) = detach c p"
  by (simp add: detach_def)

lemma without_simps [simp]:
  "points_count (without c h) = points_count h" "h_next_id (without c h) = h_next_id h"
  "k < points_count h \<Longrightarrow>
     point_at (without c h) k = (point_at h k)\<lparr>p_constraints := removeAll c (constraints_of h k)\<rparr>"
  by (simp_all add: without_def points_count_def point_at_def constraints_of_def)

lemma all_constraints_without: "all_constraints (without c h) = removeAll c (all_constraints h)"
  by (simp add: all_constraints_def without_def removeAll_filter_not_eq filter_concat comp_def)

section \<open>The store stays well formed\<close>

lemma wf_heap_detach [wf_intros]: "wf_heap h \<Longrightarrow> wf_heap (upd_point a (detach c) h)"
  by (rule wf_heap_upd_point [where P = "\<lambda>c'. c_id c' \<noteq> c_id c"]) simp_all

lemma wf_heap_shift [wf_intros]: "wf_heap h \<Longrightarrow> wf_heap (upd_point a (shift d) h)"
  by (rule wf_heap_upd_coords) simp_all

lemma wf_heap_unshift [wf_intros]: "wf_heap h \<Longrightarrow> wf_heap (upd_point a (unshift d) h)"
  by (rule wf_heap_upd_coords) simp_all

lemma Constraint_resolve_wf [wf_intros]:
  assumes "wf_heap h" and "Constraint_resolve pr c h = Some h'"
  shows "wf_heap h'"
  by (rule Constraint_resolve_SomeE [OF assms(2)]) (use assms(1) in \<open>simp add: wf_intros\<close>)

lemma Constraint_resolve_count [frame]:
  "Constraint_resolve pr c h = Some h' \<Longrightarrow> points_count h' = points_count h"
  "Constraint_resolve pr c h = Some h' \<Longrightarrow> h_next_id h' = h_next_id h"
  by (erule Constraint_resolve_SomeE, simp)+

lemma Constraint_resolve_defined:
  assumes "wf_constraint h0 a c" and "a < points_count h0" and "points_count h = points_count h0"
  shows "\<exists>h'. Constraint_resolve pr c h = Some h'"
proof -
  from assms(1,2) obtain b where "c_p1 c = Some a" "c_p2 c = Some b" "b < points_count h0"
    using wf_constraint_deref [of h0 a c] by (auto simp: wf_constraint_def)
  with assms(2,3) have "Constraint_resolve pr c h \<noteq> None"
    by (simp add: Constraint_resolve_None_iff)
  then show ?thesis by auto
qed

text \<open>
  The loop of \<^verbatim>\<open>resolveConstraints\<close>: resolving, in order, the constraints a
  point held when the loop began. A constraint resolved earlier can only have
  removed itself, so each of them still has both its ends.
\<close>

lemma resolve_all_safe:
  assumes wf: "wf_heap h" and a: "a < points_count h"
  shows "\<exists>h'. fold_opt (Constraint_resolve pr) (constraints_of h a) h = Some h'
     \<and> wf_heap h' \<and> points_count h' = points_count h \<and> h_next_id h' = h_next_id h"
proof -
  let ?I = "\<lambda>k. wf_heap k \<and> points_count k = points_count h \<and> h_next_id k = h_next_id h"
  have "\<exists>k'. Constraint_resolve pr c k = Some k' \<and> ?I k'"
    if "c \<in> set (constraints_of h a)" "?I k" for c k
  proof -
    from wf a that(1) have "wf_constraint h a c" by (rule wf_heapD)
    with a that(2) obtain k' where k': "Constraint_resolve pr c k = Some k'"
      using Constraint_resolve_defined [of h a c k pr] by auto
    with that(2) show ?thesis
      by (auto simp: Constraint_resolve_count intro: Constraint_resolve_wf)
  qed
  with wf show ?thesis
    by (intro fold_opt_invariant [where P = ?I]) simp_all
qed

lemma Constraint_resolve_evolves:
  assumes "Constraint_resolve pr c h = Some h'"
  shows "evolves h h'"
  using assms
  by (rule Constraint_resolve_SomeE)
    (simp add: evolves_upd same_shape_def point_at_upd)

text \<open>The two ends of a constraint that a point of a well-formed store holds.\<close>

lemma held_ends:
  assumes "wf_heap h" and "a < points_count h" and "c \<in> set (constraints_of h a)"
  shows "c_p1 c = Some a" and "c_p2 c = Some b \<Longrightarrow> b < points_count h"
    and "\<exists>b. c_p2 c = Some b"
  using wf_heapD [OF assms] wf_constraint_deref [of h a c] assms(2)
  by (auto simp: wf_constraint_def)

text \<open>Tearing a held constraint removes it from the store, and nothing else.\<close>

lemma Constraint_resolve_torn:
  assumes wf: "wf_heap h" and a: "a < points_count h" and held: "c \<in> set (constraints_of h a)"
    and b: "c_p2 c = Some b"
    and torn: "separation (point_at h a) (point_at h b) > tearDistance pr"
  shows "Constraint_resolve pr c h = Some (without c h)"
proof -
  note e = held_ends(1) [OF wf a held] held_ends(2) [OF wf a held b]
  from a held have inall: "c \<in> set (all_constraints h)"
    by (auto simp: all_constraints_iff)
  let ?h = "upd_point b (detach c) (upd_point a (detach c) h)"
  have "Constraint_resolve pr c h = Some ?h"
    using Constraint_resolve_eq [of h c a "point_at h a" b "point_at h b" pr] a e b torn
    by simp
  moreover have "?h = without c h"
  proof (rule heap_eqI)
    fix k assume "k < points_count ?h"
    then have k: "k < points_count h" by simp
    have pt: "point_at ?h k = (if k = a \<or> k = b then detach c (point_at h k) else point_at h k)"
      using a e(2) by (auto simp: point_at_upd detach_idem)
    have det: "detach c (point_at h k) = point_at (without c h) k"
      using k filter_other_ids [OF wf inall k] by (simp add: detach_def constraints_of_def)
    have "point_at (without c h) k = point_at h k" if "k \<noteq> a"
      using k that not_held_elsewhere [OF wf a held k] by (simp add: constraints_of_def)
    with pt det show "point_at ?h k = point_at (without c h) k"
      by (cases "k = a") auto
  qed simp_all
  ultimately show ?thesis by simp
qed

lemma example_wf: "wf_heap (example_heap x0 y0 x1 y1 L)"
  by (simp add: wf_heap_def example_defs wf_constraint_def constraint_ids_def all_constraints_def)

lemma example_held: "example_link L \<in> set (constraints_of (example_heap x0 y0 x1 y1 L) 1)"
  by (simp add: example_defs constraints_of_def)

section \<open>Finite end points\<close>

lemma separation_located:
  "located P x1 y1 \<Longrightarrow> located Q x2 y2 \<Longrightarrow> separation P Q = Fin (euclid (x1 - x2) (y1 - y2))"
  by (simp add: separation_def located_def euclid_def not_less)

lemma correction_located:
  assumes "located P x1 y1" and "located Q x2 y2" and "c_length c = Fin L"
    and "x1 \<noteq> x2 \<or> y1 \<noteq> y2"
  shows "correction c P Q =
     (Fin ((x1 - x2) * ((L - euclid (x1 - x2) (y1 - y2)) / euclid (x1 - x2) (y1 - y2)) / 2),
      Fin ((y1 - y2) * ((L - euclid (x1 - x2) (y1 - y2)) / euclid (x1 - x2) (y1 - y2)) / 2))"
proof -
  from assms(4) have "euclid (x1 - x2) (y1 - y2) \<noteq> 0" by simp
  moreover have "separation P Q = Fin (euclid (x1 - x2) (y1 - y2))"
    using assms(1,2) by (rule separation_located)
  ultimately show ?thesis
    using assms(1,2,3) by (simp add: correction_def Let_def located_def)
qed

lemma relaxed_difference:
  fixes d :: real
  assumes "d \<noteq> 0"
  shows "(a + (a - b) * ((L - d) / d) / 2) - (b - (a - b) * ((L - d) / d) / 2) = (L / d) * (a - b)"
  using assms by (simp add: field_simps)

lemma correction_coincident:
  assumes "located P x y" and "located Q x y"
  shows "correction c P Q = (NaN, NaN)"
proof -
  have "separation P Q = Fin 0"
    using assms by (simp add: separation_located)
  moreover have "Fin 0 * ((c_length c - Fin 0) / Fin 0) = NaN"
    by (rule zero_times_not_finite) (rule quotient_by_zero_not_finite)
  ultimately show ?thesis
    using assms by (simp add: correction_def Let_def located_def)
qed

section \<open>A relaxation step\<close>

text \<open>
  Where a relaxation puts the two ends: each moves along the line through them
  by half of the relative error \<open>(L - d) / d\<close> of the separation \<open>d\<close>, in
  opposite directions. Pins play no part.
\<close>

lemma Constraint_resolve_relaxed:
  assumes p1: "deref h (c_p1 c) = Some (a1, P1)" and p2: "deref h (c_p2 c) = Some (a2, P2)"
    and l1: "located P1 x1 y1" and l2: "located P2 x2 y2"
    and apart: "x1 \<noteq> x2 \<or> y1 \<noteq> y2"
    and len: "c_length c = Fin L"
    and slack: "\<not> separation P1 P2 > tearDistance pr"
  obtains h' where "Constraint_resolve pr c h = Some h'"
    and "located (point_at h' a1)
          (x1 + (x1 - x2) * ((L - euclid (x1 - x2) (y1 - y2)) / euclid (x1 - x2) (y1 - y2)) / 2)
          (y1 + (y1 - y2) * ((L - euclid (x1 - x2) (y1 - y2)) / euclid (x1 - x2) (y1 - y2)) / 2)"
    and "located (point_at h' a2)
          (x2 - (x1 - x2) * ((L - euclid (x1 - x2) (y1 - y2)) / euclid (x1 - x2) (y1 - y2)) / 2)
          (y2 - (y1 - y2) * ((L - euclid (x1 - x2) (y1 - y2)) / euclid (x1 - x2) (y1 - y2)) / 2)"
    and "p_pinX (point_at h' a2) = p_pinX P2" and "p_pinY (point_at h' a2) = p_pinY P2"
proof -
  let ?h = "upd_point a2 (unshift (correction c P1 P2))
              (upd_point a1 (shift (correction c P1 P2)) h)"
  from p1 p2 have valid: "a1 < points_count h" "a2 < points_count h"
    and P: "P1 = point_at h a1" "P2 = point_at h a2"
    by (simp_all add: deref_Some_iff)
  from l1 l2 apart have ne: "a1 \<noteq> a2" by (auto simp: P located_def)
  note corr = correction_located [OF l1 l2 len apart]
  have "Constraint_resolve pr c h = Some ?h"
    using slack by (simp add: Constraint_resolve_eq [OF p1 p2])
  moreover have "located (point_at ?h a1)
      (x1 + (x1 - x2) * ((L - euclid (x1 - x2) (y1 - y2)) / euclid (x1 - x2) (y1 - y2)) / 2)
      (y1 + (y1 - y2) * ((L - euclid (x1 - x2) (y1 - y2)) / euclid (x1 - x2) (y1 - y2)) / 2)"
    using valid ne l1 by (simp add: P [symmetric] corr shift_def located_def)
  moreover have "located (point_at ?h a2)
      (x2 - (x1 - x2) * ((L - euclid (x1 - x2) (y1 - y2)) / euclid (x1 - x2) (y1 - y2)) / 2)
      (y2 - (y1 - y2) * ((L - euclid (x1 - x2) (y1 - y2)) / euclid (x1 - x2) (y1 - y2)) / 2)"
    using valid ne l2 by (simp add: P [symmetric] corr unshift_def located_def)
  moreover have "p_pinX (point_at ?h a2) = p_pinX P2" "p_pinY (point_at ?h a2) = p_pinY P2"
    using valid ne by (simp_all add: P point_at_upd unshift_def)
  ultimately show thesis by (rule that)
qed

text \<open>
  C3. When the two end points of a constraint are at distinct finite positions and the constraint is not overstretched, \<^verbatim>\<open>resolve\<close> returns
  normally, leaves the end points exactly the rest length apart, and does not
  move their midpoint (the sums of their coordinates are unchanged).
\<close>

theorem Constraint_resolve_restores_length:
  assumes p1: "deref h (c_p1 c) = Some (a1, P1)" and p2: "deref h (c_p2 c) = Some (a2, P2)"
    and l1: "located P1 x1 y1" and l2: "located P2 x2 y2"
    and apart: "x1 \<noteq> x2 \<or> y1 \<noteq> y2"
    and len: "c_length c = Fin L" "0 \<le> L"
    and slack: "\<not> separation P1 P2 > tearDistance pr"
  shows "\<exists>h'. Constraint_resolve pr c h = Some h'
     \<and> separation (point_at h' a1) (point_at h' a2) = Fin L
     \<and> p_x (point_at h' a1) + p_x (point_at h' a2) = Fin (x1 + x2)
     \<and> p_y (point_at h' a1) + p_y (point_at h' a2) = Fin (y1 + y2)"
proof -
  let ?d = "euclid (x1 - x2) (y1 - y2)"
  let ?k = "(L - ?d) / ?d"
  from apart have d: "0 < ?d" by simp
  then have dn: "?d \<noteq> 0" by simp
  from p1 p2 l1 l2 apart len(1) slack obtain h'
    where res: "Constraint_resolve pr c h = Some h'"
      and q1: "located (point_at h' a1) (x1 + (x1 - x2) * ?k / 2) (y1 + (y1 - y2) * ?k / 2)"
      and q2: "located (point_at h' a2) (x2 - (x1 - x2) * ?k / 2) (y2 - (y1 - y2) * ?k / 2)"
    by (rule Constraint_resolve_relaxed)
  have "separation (point_at h' a1) (point_at h' a2) =
      Fin (euclid ((L / ?d) * (x1 - x2)) ((L / ?d) * (y1 - y2)))"
    by (simp only: separation_located [OF q1 q2] relaxed_difference [OF dn])
  also have "\<dots> = Fin (\<bar>L / ?d\<bar> * ?d)"
    by (simp only: euclid_scale)
  also have "\<dots> = Fin L"
    using d len(2) by (simp add: abs_of_nonneg)
  finally have "separation (point_at h' a1) (point_at h' a2) = Fin L" .
  moreover from q1 q2 have "p_x (point_at h' a1) + p_x (point_at h' a2) = Fin (x1 + x2)"
    "p_y (point_at h' a1) + p_y (point_at h' a2) = Fin (y1 + y2)"
    by (simp_all add: located_def)
  ultimately show ?thesis using res by simp
qed

theorem Constraint_resolve_restores_length_witness:
  "\<exists>h'. Constraint_resolve (example_props 60) (example_link 10) (example_heap 0 0 3 4 10) = Some h'
     \<and> separation (point_at h' 1) (point_at h' 0) = Fin 10
     \<and> p_x (point_at h' 1) + p_x (point_at h' 0) = Fin 3
     \<and> p_y (point_at h' 1) + p_y (point_at h' 0) = Fin 4"
  using Constraint_resolve_restores_length
    [of "example_heap 0 0 3 4 10" "example_link 10" 1 "example_point 3 4 [example_link 10]"
        0 "example_point 0 0 []" 3 4 0 0 10 "example_props 60"]
  by (simp add: example_defs located_def separation_def)

section \<open>A constraint at rest\<close>

text \<open>
  C35. A constraint whose end points are exactly its rest length apart is a
  fixed point of the relaxation: \<^verbatim>\<open>resolve\<close> returns the store it was given.
\<close>

theorem Constraint_resolve_at_rest:
  assumes p1: "deref h (c_p1 c) = Some (a1, P1)" and p2: "deref h (c_p2 c) = Some (a2, P2)"
    and l1: "located P1 x1 y1" and l2: "located P2 x2 y2"
    and apart: "x1 \<noteq> x2 \<or> y1 \<noteq> y2"
    and len: "c_length c = Fin (euclid (x1 - x2) (y1 - y2))"
    and slack: "\<not> separation P1 P2 > tearDistance pr"
  shows "Constraint_resolve pr c h = Some h"
proof -
  from p1 p2 have P: "P1 = point_at h a1" "P2 = point_at h a2"
    by (simp_all add: deref_Some_iff)
  have corr: "correction c P1 P2 = (Fin 0, Fin 0)"
    by (simp add: correction_located [OF l1 l2 len apart])
  from l1 have "shift (Fin 0, Fin 0) (point_at h a1) = point_at h a1"
    by (simp add: P shift_def located_def)
  then have "upd_point a1 (shift (Fin 0, Fin 0)) h = h" by (rule upd_point_id)
  moreover from l2 have "unshift (Fin 0, Fin 0) (point_at h a2) = point_at h a2"
    by (simp add: P unshift_def located_def)
  then have "upd_point a2 (unshift (Fin 0, Fin 0)) h = h" by (rule upd_point_id)
  ultimately show ?thesis
    using slack by (simp add: Constraint_resolve_eq [OF p1 p2] corr)
qed

theorem Constraint_resolve_at_rest_witness:
  "Constraint_resolve (example_props 60) (example_link 5) (example_heap 0 0 3 4 5)
     = Some (example_heap 0 0 3 4 5)"
  using Constraint_resolve_at_rest
    [of "example_heap 0 0 3 4 5" "example_link 5" 1 "example_point 3 4 [example_link 5]"
        0 "example_point 0 0 []" 3 4 0 0 "example_props 60"]
  by (simp add: example_defs located_def separation_def euclid_def)

section \<open>Tearing\<close>

text \<open>
  C6. In a well-formed store, resolving a held constraint whose end points are
  further apart than the tear distance removes that constraint from every
  point of the store and changes nothing else: no point moves, no other
  constraint is lost.
\<close>

theorem Constraint_resolve_tears:
  assumes wf: "wf_heap h" and a: "a < points_count h" and held: "c \<in> set (constraints_of h a)"
    and b: "c_p2 c = Some b"
    and torn: "separation (point_at h a) (point_at h b) > tearDistance pr"
  shows "Constraint_resolve pr c h = Some (without c h)"
  using assms by (rule Constraint_resolve_torn)

theorem Constraint_resolve_tears_witness:
  "Constraint_resolve (example_props 4) (example_link 10) (example_heap 0 0 3 4 10)
     = Some (without (example_link 10) (example_heap 0 0 3 4 10))
   \<and> all_constraints (without (example_link 10) (example_heap 0 0 3 4 10)) = []"
  using Constraint_resolve_tears
    [of "example_heap 0 0 3 4 10" 1 "example_link 10" 0 "example_props 4"]
  by (simp add: example_defs wf_heap_def wf_constraint_def constraint_ids_def
      all_constraints_def separation_def without_def)

section \<open>Coincident end points\<close>

text \<open>
  C21. When both end points are at the same finite position and the tear
  distance is not negative, \<^verbatim>\<open>resolve\<close> divides by zero: it returns normally
  and all four coordinates of the end points are \<open>NaN\<close> afterwards.
\<close>

theorem Constraint_resolve_coincident_NaN:
  assumes p1: "deref h (c_p1 c) = Some (a1, P1)" and p2: "deref h (c_p2 c) = Some (a2, P2)"
    and l1: "located P1 x y" and l2: "located P2 x y"
    and tear: "\<not> Fin 0 > tearDistance pr"
  shows "\<exists>h'. Constraint_resolve pr c h = Some h'
     \<and> p_x (point_at h' a1) = NaN \<and> p_y (point_at h' a1) = NaN
     \<and> p_x (point_at h' a2) = NaN \<and> p_y (point_at h' a2) = NaN"
proof -
  from p1 p2 have valid: "a1 < points_count h" "a2 < points_count h"
    by (simp_all add: deref_Some_iff)
  have "separation P1 P2 = Fin 0"
    using l1 l2 by (simp add: separation_located)
  with tear have "Constraint_resolve pr c h =
      Some (upd_point a2 (unshift (NaN, NaN)) (upd_point a1 (shift (NaN, NaN)) h))"
    by (simp add: Constraint_resolve_eq [OF p1 p2] correction_coincident [OF l1 l2])
  with valid show ?thesis
    by (simp add: point_at_upd)
qed

theorem Constraint_resolve_coincident_NaN_witness:
  "\<exists>h'. Constraint_resolve (example_props 60) (example_link 10) (example_heap 7 7 7 7 10) = Some h'
     \<and> p_x (point_at h' 1) = NaN \<and> p_y (point_at h' 1) = NaN
     \<and> p_x (point_at h' 0) = NaN \<and> p_y (point_at h' 0) = NaN"
  using Constraint_resolve_coincident_NaN
    [of "example_heap 7 7 7 7 10" "example_link 10" 1 "example_point 7 7 [example_link 10]"
        0 "example_point 7 7 []" 7 7 "example_props 60"]
  by (simp add: example_defs located_def)

end
