(* ===== verification/Point.thy ===== *)
theory Point
  imports Constraint
begin

text \<open>
  The class \<^verbatim>\<open>Point\<close> (lines 58 to 138 of \<^verbatim>\<open>src/src/ClothSimulation.tsx\<close>). A
  method takes the address \<open>this\<close> of its object. \<^verbatim>\<open>update\<close> is the composition
  of its two halves: \<open>apply_mouse\<close>, the block guarded by \<^verbatim>\<open>mouseDown\<close>, and
  \<open>verlet\<close>, the integration that follows it. \<^verbatim>\<open>update\<close> and
  \<^verbatim>\<open>resolveConstraints\<close> read other objects through the constraints of the
  point, so they can raise; \<^verbatim>\<open>attach\<close>, \<^verbatim>\<open>addForce\<close> and \<^verbatim>\<open>pin\<close> only write
  fields of \<open>this\<close>.
\<close>

section \<open>The class\<close>

definition Point_new :: "number \<Rightarrow> number \<Rightarrow> heap \<Rightarrow> addr \<times> heap" where
  "Point_new x y h =
     (length (h_points h),
      h\<lparr>h_points := h_points h @
         [\<lparr>p_x = x, p_y = y, p_px = x, p_py = y, p_vx = 0, p_vy = 0,
           p_pinX = None, p_pinY = None, p_constraints = []\<rparr>]\<rparr>)"

definition Point_addForce :: "addr \<Rightarrow> number \<Rightarrow> number \<Rightarrow> heap \<Rightarrow> heap" where
  "Point_addForce this x y h =
     (let h = upd_point this (\<lambda>p. p\<lparr>p_vx := p_vx p + x\<rparr>) h;
          h = upd_point this (\<lambda>p. p\<lparr>p_vy := p_vy p + y\<rparr>) h
      in h)"

definition Point_pin :: "addr \<Rightarrow> number \<Rightarrow> number \<Rightarrow> heap \<Rightarrow> heap" where
  "Point_pin this pinx piny h =
     (let h = upd_point this (\<lambda>p. p\<lparr>p_pinX := Some pinx\<rparr>) h;
          h = upd_point this (\<lambda>p. p\<lparr>p_pinY := Some piny\<rparr>) h
      in h)"

definition Point_attach :: "props \<Rightarrow> addr \<Rightarrow> pref \<Rightarrow> heap \<Rightarrow> heap" where
  "Point_attach pr this point h =
     (let (c, h) = Constraint_new pr (Some this) point h
      in upd_point this (\<lambda>p. p\<lparr>p_constraints := p_constraints p @ [c]\<rparr>) h)"

text \<open>
  The predicate of the filter in \<^verbatim>\<open>update\<close>: the current length of a
  constraint against the tear distance. It reads both end points.
\<close>

definition longer_than_tear :: "props \<Rightarrow> heap \<Rightarrow> constraint \<Rightarrow> bool option" where
  "longer_than_tear pr h constraint = do {
     (_, P1) \<leftarrow> deref h (c_p1 constraint);
     (_, P2) \<leftarrow> deref h (c_p2 constraint);
     Some (Math_sqrt (pow2 (p_x P1 - p_x P2) + pow2 (p_y P1 - p_y P2)) > tearDistance pr)
   }"

definition apply_mouse :: "props \<Rightarrow> mouse \<Rightarrow> addr \<Rightarrow> heap \<Rightarrow> heap option" where
  "apply_mouse pr ms this h =
     (if mouseDown ms then do {
        (_, P) \<leftarrow> deref h (Some this);
        let dx = p_x P - mouseX ms;
        let dy = p_y P - mouseY ms;
        let dist = Math_sqrt (dx * dx + dy * dy);
        if mouseButton ms = 0 \<and> dist < mouseInfluence pr then do {
          let h = upd_point this (\<lambda>p. p\<lparr>p_px := p_x p - (mouseX ms - p_x p) * 0.5\<rparr>) h;
          let h = upd_point this (\<lambda>p. p\<lparr>p_py := p_y p - (mouseY ms - p_y p) * 0.5\<rparr>) h;
          Some h
        } else if mouseButton ms = 2 \<and> dist < mouseCut pr then do {
          cs \<leftarrow> filter_opt (longer_than_tear pr h) (p_constraints P);
          Some (upd_point this (\<lambda>p. p\<lparr>p_constraints := cs\<rparr>) h)
        } else Some h
      } else Some h)"

definition verlet :: "props \<Rightarrow> addr \<Rightarrow> number \<Rightarrow> heap \<Rightarrow> heap option" where
  "verlet pr this delta h = do {
     let h = Point_addForce this 0 (gravity pr) h;
     let delta = delta * delta;
     (_, P) \<leftarrow> deref h (Some this);
     let nx = p_x P + (p_x P - p_px P) * 0.99 + (p_vx P / 2) * delta;
     let ny = p_y P + (p_y P - p_py P) * 0.99 + (p_vy P / 2) * delta;
     let h = upd_point this (\<lambda>p. p\<lparr>p_px := p_x p\<rparr>) h;
     let h = upd_point this (\<lambda>p. p\<lparr>p_py := p_y p\<rparr>) h;
     let h = upd_point this (\<lambda>p. p\<lparr>p_x := nx\<rparr>) h;
     let h = upd_point this (\<lambda>p. p\<lparr>p_y := ny\<rparr>) h;
     let h = upd_point this (\<lambda>p. p\<lparr>p_vx := 0\<rparr>) h;
     let h = upd_point this (\<lambda>p. p\<lparr>p_vy := 0\<rparr>) h;
     Some h
   }"

definition Point_update :: "props \<Rightarrow> mouse \<Rightarrow> addr \<Rightarrow> number \<Rightarrow> heap \<Rightarrow> heap option" where
  "Point_update pr ms this delta h = do {
     h \<leftarrow> apply_mouse pr ms this h;
     verlet pr this delta h
   }"

definition Point_resolveConstraints :: "props \<Rightarrow> canvas option \<Rightarrow> addr \<Rightarrow> heap \<Rightarrow> heap option" where
  "Point_resolveConstraints pr cv this h = do {
     (_, P) \<leftarrow> deref h (Some this);
     case (p_pinX P, p_pinY P) of
       (Some pinx, Some piny) \<Rightarrow> do {
         let h = upd_point this (\<lambda>p. p\<lparr>p_x := pinx\<rparr>) h;
         let h = upd_point this (\<lambda>p. p\<lparr>p_y := piny\<rparr>) h;
         Some h
       }
     | _ \<Rightarrow> do {
         h \<leftarrow> fold_opt (Constraint_resolve pr) (p_constraints P) h;
         let h = upd_point this
           (\<lambda>p. p\<lparr>p_x := Math_max 1 (Math_min (canvasWidth cv - 1) (p_x p))\<rparr>) h;
         let h = upd_point this
           (\<lambda>p. p\<lparr>p_y := Math_max 1 (Math_min (canvasHeight cv - 1) (p_y p))\<rparr>) h;
         Some h
       }
   }"

section \<open>The vocabulary of the statements\<close>

text \<open>
  One Verlet step of a point, the distance of a point from the mouse and the two
  guards of the mouse block, the changes the branches make, and the objects
  the constructors create.
\<close>

definition verlet_point :: "number \<Rightarrow> number \<Rightarrow> point \<Rightarrow> point" where
  "verlet_point g delta = (\<lambda>p. p\<lparr>
     p_px := p_x p, p_py := p_y p,
     p_x := p_x p + (p_x p - p_px p) * 0.99 + ((p_vx p + 0) / 2) * (delta * delta),
     p_y := p_y p + (p_y p - p_py p) * 0.99 + ((p_vy p + g) / 2) * (delta * delta),
     p_vx := 0, p_vy := 0\<rparr>)"

definition reach :: "mouse \<Rightarrow> point \<Rightarrow> number" where
  "reach ms P =
     Math_sqrt ((p_x P - mouseX ms) * (p_x P - mouseX ms) + (p_y P - mouseY ms) * (p_y P - mouseY ms))"

definition dragged :: "props \<Rightarrow> mouse \<Rightarrow> point \<Rightarrow> bool" where
  "dragged pr ms P \<longleftrightarrow> mouseDown ms \<and> mouseButton ms = 0 \<and> reach ms P < mouseInfluence pr"

definition cutting :: "props \<Rightarrow> mouse \<Rightarrow> point \<Rightarrow> bool" where
  "cutting pr ms P \<longleftrightarrow>
     mouseDown ms \<and> \<not> dragged pr ms P \<and> mouseButton ms = 2 \<and> reach ms P < mouseCut pr"

definition pull :: "mouse \<Rightarrow> point \<Rightarrow> point" where
  "pull ms = (\<lambda>p. p\<lparr>p_px := p_x p - (mouseX ms - p_x p) * 0.5,
                     p_py := p_y p - (mouseY ms - p_y p) * 0.5\<rparr>)"

definition stretched :: "props \<Rightarrow> heap \<Rightarrow> constraint \<Rightarrow> bool" where
  "stretched pr h c \<longleftrightarrow> longer_than_tear pr h c = Some True"

definition clamp_into :: "canvas option \<Rightarrow> point \<Rightarrow> point" where
  "clamp_into cv = (\<lambda>p. p\<lparr>p_x := Math_max 1 (Math_min (canvasWidth cv - 1) (p_x p)),
                        p_y := Math_max 1 (Math_min (canvasHeight cv - 1) (p_y p))\<rparr>)"

definition pinned :: "point \<Rightarrow> bool" where
  "pinned p \<longleftrightarrow> p_pinX p \<noteq> None \<and> p_pinY p \<noteq> None"

definition snap :: "point \<Rightarrow> point" where
  "snap = (\<lambda>p. p\<lparr>p_x := the (p_pinX p), p_y := the (p_pinY p)\<rparr>)"

definition fresh_constraint :: "props \<Rightarrow> heap \<Rightarrow> addr \<Rightarrow> pref \<Rightarrow> constraint" where
  "fresh_constraint pr h a q = \<lparr>c_id = h_next_id h, c_p1 = Some a, c_p2 = q, c_length = spacing pr\<rparr>"

definition fresh_point :: "number \<Rightarrow> number \<Rightarrow> point" where
  "fresh_point x y = \<lparr>p_x = x, p_y = y, p_px = x, p_py = y, p_vx = 0, p_vy = 0,
     p_pinX = None, p_pinY = None, p_constraints = []\<rparr>"

definition example_mouse :: "bool \<Rightarrow> int \<Rightarrow> real \<Rightarrow> real \<Rightarrow> mouse" where
  "example_mouse down button x y =
     \<lparr>mouseX = Fin x, mouseY = Fin y, mouseDown = down, mouseButton = button\<rparr>"

section \<open>The methods that only write fields of \<open>this\<close>\<close>

lemma Point_addForce_eq:
  "Point_addForce a x y h = upd_point a (\<lambda>p. p\<lparr>p_vx := p_vx p + x, p_vy := p_vy p + y\<rparr>) h"
  by (cases "a < points_count h")
    (simp_all add: Point_addForce_def upd_point_twice upd_point_beyond comp_def)

lemma Point_pin_eq:
  "Point_pin a x y h = upd_point a (\<lambda>p. p\<lparr>p_pinX := Some x, p_pinY := Some y\<rparr>) h"
  by (cases "a < points_count h")
    (simp_all add: Point_pin_def upd_point_twice upd_point_beyond comp_def)

lemma Point_pin_frame [simp, frame]:
  "points_count (Point_pin a x y h) = points_count h"
  "h_next_id (Point_pin a x y h) = h_next_id h"
  by (simp_all add: Point_pin_eq)

lemma Point_attach_eq:
  "Point_attach pr a q h =
     upd_point a (\<lambda>p. p\<lparr>p_constraints := p_constraints p @ [fresh_constraint pr h a q]\<rparr>)
       (h\<lparr>h_next_id := Suc (h_next_id h)\<rparr>)"
  by (simp add: Point_attach_def Constraint_new_def fresh_constraint_def)

lemma Point_attach_frame [simp, frame]:
  "points_count (Point_attach pr a q h) = points_count h"
  "h_next_id (Point_attach pr a q h) = Suc (h_next_id h)"
  by (simp_all add: Point_attach_eq points_count_def upd_point_def)

lemma Point_attach_point:
  "point_at (Point_attach pr a q h) b =
     (if a = b \<and> a < points_count h
      then (point_at h a)\<lparr>p_constraints := constraints_of h a @ [fresh_constraint pr h a q]\<rparr>
      else point_at h b)"
  by (simp add: Point_attach_eq point_at_def upd_point_def points_count_def constraints_of_def
      nth_list_update_if)

lemma Point_new_eq:
  "Point_new x y h = (points_count h, h\<lparr>h_points := h_points h @ [fresh_point x y]\<rparr>)"
  by (simp add: Point_new_def fresh_point_def points_count_def)

lemma Point_new_frame [simp, frame]:
  "fst (Point_new x y h) = points_count h"
  "points_count (snd (Point_new x y h)) = Suc (points_count h)"
  "h_next_id (snd (Point_new x y h)) = h_next_id h"
  "all_constraints (snd (Point_new x y h)) = all_constraints h"
  by (simp_all add: Point_new_eq points_count_def all_constraints_def fresh_point_def)

lemma Point_new_point:
  "b \<le> points_count h \<Longrightarrow>
     point_at (snd (Point_new x y h)) b =
       (if b = points_count h then fresh_point x y else point_at h b)"
  by (auto simp: Point_new_eq point_at_def points_count_def nth_append)

section \<open>The branches of \<^verbatim>\<open>update\<close>\<close>

lemma verlet_eq:
  "a < points_count h \<Longrightarrow> verlet pr a delta h = Some (upd_point a (verlet_point (gravity pr) delta) h)"
  by (simp add: verlet_def Point_addForce_eq Let_def upd_point_twice comp_def verlet_point_def
      cong: upd_point_cong)

lemma verlet_None_iff: "verlet pr a delta h = None \<longleftrightarrow> points_count h \<le> a"
proof (cases "a < points_count h")
  case True
  then show ?thesis by (simp add: verlet_eq)
next
  case False
  then show ?thesis
    by (simp add: verlet_def Let_def Point_addForce_eq upd_point_beyond deref_None_iff)
qed

lemma longer_than_tear_eq:
  assumes "deref h (c_p1 c) = Some (a1, P1)" and "deref h (c_p2 c) = Some (a2, P2)"
  shows "longer_than_tear pr h c = Some (separation P1 P2 > tearDistance pr)"
  using assms by (simp add: longer_than_tear_def separation_def pow2_def)

lemma longer_than_tear_None_iff:
  "longer_than_tear pr h c = None \<longleftrightarrow> deref h (c_p1 c) = None \<or> deref h (c_p2 c) = None"
  by (auto simp: longer_than_tear_def split: Option.bind_splits)

lemma apply_mouse_idle:
  "\<not> mouseDown ms \<Longrightarrow> apply_mouse pr ms a h = Some h"
  by (simp add: apply_mouse_def)

lemma apply_mouse_eq:
  assumes "a < points_count h"
  shows "apply_mouse pr ms a h =
     (if dragged pr ms (point_at h a) then Some (upd_point a (pull ms) h)
      else if cutting pr ms (point_at h a)
      then map_option (\<lambda>cs. upd_point a (\<lambda>p. p\<lparr>p_constraints := cs\<rparr>) h)
             (filter_opt (longer_than_tear pr h) (constraints_of h a))
      else Some h)"
  using assms
  by (auto simp: apply_mouse_def dragged_def cutting_def reach_def Let_def pull_def
      constraints_of_def upd_point_twice comp_def split: Option.bind_splits)

lemma Point_update_eq:
  "Point_update pr ms a delta h =
     (case apply_mouse pr ms a h of None \<Rightarrow> None | Some k \<Rightarrow> verlet pr a delta k)"
  by (simp add: Point_update_def split: Option.bind_splits)

lemma Point_update_idle:
  assumes "a < points_count h" and "\<not> dragged pr ms (point_at h a)" and "\<not> cutting pr ms (point_at h a)"
  shows "Point_update pr ms a delta h = Some (upd_point a (verlet_point (gravity pr) delta) h)"
  using assms by (simp add: Point_update_eq apply_mouse_eq verlet_eq)

lemma verlet_point_finite:
  assumes "located p x y" and "p_px p = Fin x0" and "p_py p = Fin y0"
    and "p_vx p = Fin 0" and "p_vy p = Fin 0"
  shows "verlet_point (Fin g) (Fin d) p =
     p\<lparr>p_px := Fin x, p_py := Fin y,
       p_x := Fin (x + (x - x0) * 0.99), p_y := Fin (y + (y - y0) * 0.99 + g * d\<^sup>2 / 2)\<rparr>"
  using assms by (simp add: verlet_point_def located_def power2_eq_square)

lemma reach_located:
  "located P x y \<Longrightarrow> mouseX ms = Fin mx \<Longrightarrow> mouseY ms = Fin my
    \<Longrightarrow> reach ms P = Fin (euclid (x - mx) (y - my))"
  by (simp add: reach_def located_def euclid_def not_less)

lemma longer_than_tear_held:
  assumes "wf_heap h" and "a < points_count h" and "c \<in> set (constraints_of h a)"
  shows "longer_than_tear pr h c = Some (stretched pr h c)"
proof -
  from assms have "wf_constraint h a c" by (rule wf_heapD)
  with assms(2) have "longer_than_tear pr h c \<noteq> None"
    using wf_constraint_deref [of h a c]
    by (auto simp: longer_than_tear_None_iff wf_constraint_def)
  then show ?thesis by (auto simp: stretched_def)
qed

lemma cut_filter:
  assumes "wf_heap h" and "a < points_count h"
  shows "filter_opt (longer_than_tear pr h) (constraints_of h a) =
     Some (filter (stretched pr h) (constraints_of h a))"
  using assms by (intro filter_opt_total) (rule longer_than_tear_held)

section \<open>The branches of \<^verbatim>\<open>resolveConstraints\<close>\<close>

lemma Point_resolveConstraints_eq:
  assumes "a < points_count h"
  shows "Point_resolveConstraints pr cv a h =
     (if pinned (point_at h a) then Some (upd_point a snap h)
      else map_option (upd_point a (clamp_into cv))
             (fold_opt (Constraint_resolve pr) (constraints_of h a) h))"
proof -
  have count: "points_count k = points_count h"
    if "fold_opt (Constraint_resolve pr) (constraints_of h a) h = Some k" for k
    using that
    by (rule fold_opt_preserves [where P = "\<lambda>k. points_count k = points_count h"])
      (simp_all add: Constraint_resolve_count)
  show ?thesis
    using assms
    by (cases "p_pinX (point_at h a)"; cases "p_pinY (point_at h a)")
      (auto simp: Point_resolveConstraints_def pinned_def snap_def constraints_of_def
        clamp_into_def Let_def upd_point_twice comp_def count
        split: Option.bind_splits intro!: upd_point_cong)
qed

lemma Point_resolveConstraints_free:
  assumes "wf_heap h" and "a < points_count h" and "\<not> pinned (point_at h a)"
  obtains k where "fold_opt (Constraint_resolve pr) (constraints_of h a) h = Some k"
    and "wf_heap k" and "points_count k = points_count h" and "h_next_id k = h_next_id h"
    and "Point_resolveConstraints pr cv a h = Some (upd_point a (clamp_into cv) k)"
proof -
  from resolve_all_safe [OF assms(1,2), of pr] obtain k
    where k: "fold_opt (Constraint_resolve pr) (constraints_of h a) h = Some k"
      "wf_heap k" "points_count k = points_count h" "h_next_id k = h_next_id h"
    by blast
  with assms(2,3) have "Point_resolveConstraints pr cv a h = Some (upd_point a (clamp_into cv) k)"
    by (simp add: Point_resolveConstraints_eq)
  with k show thesis by (rule that)
qed

section \<open>The store stays well formed\<close>

lemma verlet_point_constraints [simp]: "p_constraints (verlet_point g d p) = p_constraints p"
  by (simp add: verlet_point_def)

lemma pull_constraints [simp]: "p_constraints (pull ms p) = p_constraints p"
  by (simp add: pull_def)

lemma clamp_into_constraints [simp]: "p_constraints (clamp_into cv p) = p_constraints p"
  by (simp add: clamp_into_def)

lemma snap_constraints [simp]: "p_constraints (snap p) = p_constraints p"
  by (simp add: snap_def)

lemma Point_resolveConstraints_wf:
  assumes "wf_heap h" and "a < points_count h"
  shows "\<exists>h'. Point_resolveConstraints pr cv a h = Some h' \<and> wf_heap h'
     \<and> points_count h' = points_count h \<and> h_next_id h' = h_next_id h"
proof (cases "pinned (point_at h a)")
  case True
  with assms show ?thesis
    by (simp add: Point_resolveConstraints_eq wf_heap_upd_coords)
next
  case False
  with assms obtain k where "wf_heap k" "points_count k = points_count h"
    "h_next_id k = h_next_id h"
    "Point_resolveConstraints pr cv a h = Some (upd_point a (clamp_into cv) k)"
    by (rule Point_resolveConstraints_free)
  then show ?thesis by (simp add: wf_heap_upd_coords)
qed

lemma apply_mouse_wf:
  assumes "wf_heap h" and "a < points_count h"
  shows "\<exists>h'. apply_mouse pr ms a h = Some h' \<and> wf_heap h'
     \<and> points_count h' = points_count h \<and> h_next_id h' = h_next_id h"
proof -
  have "wf_heap (upd_point a (\<lambda>p. p\<lparr>p_constraints := filter (stretched pr h) (constraints_of h a)\<rparr>) h)"
    using assms(1) by (rule wf_heap_upd_point [where P = "stretched pr h"]) (simp add: constraints_of_def)
  with assms show ?thesis
    by (simp add: apply_mouse_eq cut_filter wf_heap_upd_coords)
qed

lemma Point_update_wf:
  assumes "wf_heap h" and "a < points_count h"
  shows "\<exists>h'. Point_update pr ms a delta h = Some h' \<and> wf_heap h'
     \<and> points_count h' = points_count h \<and> h_next_id h' = h_next_id h"
proof -
  from apply_mouse_wf [OF assms, of pr ms] obtain k
    where "apply_mouse pr ms a h = Some k" "wf_heap k" "points_count k = points_count h"
      "h_next_id k = h_next_id h"
    by blast
  with assms(2) show ?thesis
    by (simp add: Point_update_eq verlet_eq wf_heap_upd_coords)
qed

lemma Point_addForce_wf [wf_intros]: "wf_heap h \<Longrightarrow> wf_heap (Point_addForce a x y h)"
  by (simp add: Point_addForce_eq wf_heap_upd_coords)

lemma Point_pin_wf [wf_intros]: "wf_heap h \<Longrightarrow> wf_heap (Point_pin a x y h)"
  by (simp add: Point_pin_eq wf_heap_upd_coords)

lemma Point_attach_wf [wf_intros]:
  assumes wf: "wf_heap h" and a: "a < points_count h" and q: "deref h q \<noteq> None"
  shows "wf_heap (Point_attach pr a q h)"
proof -
  let ?c = "fresh_constraint pr h a q"
  let ?h = "Point_attach pr a q h"
  have new: "wf_constraint ?h a ?c"
    using q by (simp add: wf_constraint_def fresh_constraint_def deref_None_iff)
  have "wf_constraint ?h b c" if "b < points_count h" "c \<in> set (constraints_of ?h b)" for b c
  proof (cases "c = ?c \<and> b = a")
    case True
    with new show ?thesis by simp
  next
    case False
    with that a have "c \<in> set (constraints_of h b)"
      by (auto simp: constraints_of_def Point_attach_point split: if_splits)
    with wf that(1) have "wf_constraint h b c" by (rule wf_heapD)
    then show ?thesis by (rule wf_constraint_grow) simp_all
  qed
  moreover have "distinct (constraint_ids ?h)"
  proof -
    have "c_id ?c \<notin> c_id ` set (all_constraints h)"
      using ids_below_next [OF wf] by (fastforce simp: fresh_constraint_def)
    with wf show ?thesis
      unfolding Point_attach_eq constraint_ids_def all_constraints_def upd_point_def
      by (simp, intro distinct_map_concat_update_snoc [where x = ?c])
        (simp_all add: wf_heap_iff constraint_ids_def all_constraints_def)
  qed
  ultimately show ?thesis by (simp add: wf_heap_iff)
qed

lemma Point_new_wf [wf_intros]:
  assumes "wf_heap h"
  shows "wf_heap (snd (Point_new x y h))"
proof -
  let ?h = "snd (Point_new x y h)"
  have "wf_constraint ?h b c" if "b < Suc (points_count h)" "c \<in> set (constraints_of ?h b)" for b c
  proof -
    from that have b: "b < points_count h" and c: "c \<in> set (constraints_of h b)"
      by (auto simp: constraints_of_def Point_new_point fresh_point_def split: if_splits)
    with assms have "wf_constraint h b c" by (auto dest: wf_heapD)
    then show ?thesis by (rule wf_constraint_grow) simp_all
  qed
  with assms show ?thesis by (simp add: wf_heap_iff constraint_ids_def)
qed

section \<open>What the methods of a frame leave alone\<close>

text \<open>
  \<^verbatim>\<open>resolveConstraints\<close> and \<^verbatim>\<open>update\<close> create no object, change no pin and add no
  constraint to any point, whatever store they run in.
\<close>

lemma Point_resolveConstraints_evolves:
  assumes "Point_resolveConstraints pr cv a h = Some h'"
  shows "evolves h h'"
proof -
  from assms have a: "a < points_count h"
    by (auto simp: Point_resolveConstraints_def deref_Some_iff split: Option.bind_splits)
  show ?thesis
  proof (cases "pinned (point_at h a)")
    case True
    with assms a show ?thesis
      by (auto simp: Point_resolveConstraints_eq snap_def same_shape_def intro!: evolves_upd)
  next
    case False
    with assms a obtain k where k: "fold_opt (Constraint_resolve pr) (constraints_of h a) h = Some k"
      and h': "h' = upd_point a (clamp_into cv) k"
      by (auto simp: Point_resolveConstraints_eq)
    from k have "evolves h k" by (rule fold_opt_evolves) (rule Constraint_resolve_evolves)
    then show ?thesis
      unfolding h' by (rule evolves_upd) (simp add: same_shape_def clamp_into_def)
  qed
qed

lemma apply_mouse_evolves:
  assumes "apply_mouse pr ms a h = Some h'"
  shows "evolves h h'"
proof (cases "a < points_count h")
  case True
  with assms show ?thesis
    by (auto simp: apply_mouse_eq same_shape_def pull_def constraints_of_def
        split: if_splits dest: filter_opt_Some_subseq intro!: evolves_upd)
next
  case False
  with assms show ?thesis
    by (auto simp: apply_mouse_def deref_Some_iff split: if_splits Option.bind_splits)
qed

lemma Point_update_evolves:
  assumes "Point_update pr ms a delta h = Some h'"
  shows "evolves h h'"
proof -
  from assms obtain k where k: "apply_mouse pr ms a h = Some k" and v: "verlet pr a delta k = Some h'"
    by (auto simp: Point_update_eq split: option.splits)
  from v have "a < points_count k"
    using verlet_None_iff [of pr a delta k] by (simp add: not_le [symmetric])
  with v have "h' = upd_point a (verlet_point (gravity pr) delta) k" by (simp add: verlet_eq)
  with apply_mouse_evolves [OF k] show ?thesis
    by (auto simp: same_shape_def verlet_point_def intro!: evolves_upd)
qed

section \<open>Integration\<close>

text \<open>
  C7. With the mouse button up, \<^verbatim>\<open>update\<close> is one Verlet step: a point with finite
  coordinates and no accumulated force moves to \<open>x + (x - px) * 0.99\<close> and
  \<open>y + (y - py) * 0.99 + gravity * delta\<^sup>2 / 2\<close>, its previous position becomes the
  position it had, the force stays zero, and nothing else in the store changes.
\<close>

theorem Point_update_verlet:
  assumes "a < points_count h" and "\<not> mouseDown ms"
    and "located (point_at h a) x y"
    and "p_px (point_at h a) = Fin x0" and "p_py (point_at h a) = Fin y0"
    and "p_vx (point_at h a) = Fin 0" and "p_vy (point_at h a) = Fin 0"
    and "gravity pr = Fin g"
  shows "Point_update pr ms a (Fin d) h =
     Some (upd_point a (\<lambda>p. p\<lparr>p_px := Fin x, p_py := Fin y,
        p_x := Fin (x + (x - x0) * 0.99), p_y := Fin (y + (y - y0) * 0.99 + g * d\<^sup>2 / 2)\<rparr>) h)"
proof -
  from assms(2) have "\<not> dragged pr ms (point_at h a)" "\<not> cutting pr ms (point_at h a)"
    by (simp_all add: dragged_def cutting_def)
  with assms(1) have "Point_update pr ms a (Fin d) h =
      Some (upd_point a (verlet_point (gravity pr) (Fin d)) h)"
    by (rule Point_update_idle)
  also have "upd_point a (verlet_point (gravity pr) (Fin d)) h =
      upd_point a (\<lambda>p. p\<lparr>p_px := Fin x, p_py := Fin y,
        p_x := Fin (x + (x - x0) * 0.99), p_y := Fin (y + (y - y0) * 0.99 + g * d\<^sup>2 / 2)\<rparr>) h"
    using assms(3-8) by (intro upd_point_cong) (simp add: verlet_point_finite)
  finally show ?thesis .
qed

theorem Point_update_verlet_witness:
  "Point_update (example_props 60) (example_mouse False 0 0 0) 1 (Fin (1/10)) (example_heap 0 0 3 4 5) =
     Some (upd_point 1 (\<lambda>p. p\<lparr>p_px := Fin 3, p_py := Fin 4, p_x := Fin 3, p_y := Fin 10\<rparr>)
       (example_heap 0 0 3 4 5))"
  using Point_update_verlet
    [of 1 "example_heap 0 0 3 4 5" "example_mouse False 0 0 0" 3 4 3 4 "example_props 60" 1200 "1/10"]
  by (simp add: example_defs example_mouse_def located_def power2_eq_square)

text \<open>
  C30. \<^verbatim>\<open>update\<close> does not read the pin: a pinned point at rest on its pin is moved
  off it by gravity, by \<open>gravity * delta\<^sup>2 / 2\<close>, and is drawn there until the next
  \<^verbatim>\<open>resolveConstraints\<close> snaps it back.
\<close>

theorem Point_update_moves_pinned:
  assumes "a < points_count h" and "\<not> mouseDown ms"
    and "located (point_at h a) x y"
    and "p_pinX (point_at h a) = Some (Fin x)" and "p_pinY (point_at h a) = Some (Fin y)"
    and "p_px (point_at h a) = Fin x" and "p_py (point_at h a) = Fin y"
    and "p_vx (point_at h a) = Fin 0" and "p_vy (point_at h a) = Fin 0"
    and "gravity pr = Fin g" and "g \<noteq> 0" and "d \<noteq> 0"
  shows "\<exists>h'. Point_update pr ms a (Fin d) h = Some h'
     \<and> p_y (point_at h' a) = Fin (y + g * d\<^sup>2 / 2) \<and> p_y (point_at h' a) \<noteq> Fin y
     \<and> p_pinY (point_at h' a) = Some (Fin y)"
proof -
  from assms(1,2,3,6-10) have "Point_update pr ms a (Fin d) h =
      Some (upd_point a (verlet_point (gravity pr) (Fin d)) h)"
    by (intro Point_update_idle) (simp_all add: dragged_def cutting_def)
  with assms show ?thesis
    by (simp add: verlet_point_finite [of _ x y x y])
qed

theorem Point_update_moves_pinned_witness:
  "\<exists>h'. Point_update (example_props 60) (example_mouse False 0 0 0) 1 (Fin (1/10))
        (Point_pin 1 (Fin 3) (Fin 4) (example_heap 0 0 3 4 5)) = Some h'
     \<and> p_y (point_at h' 1) = Fin (4 + 1200 * (1/10)\<^sup>2 / 2) \<and> p_y (point_at h' 1) \<noteq> Fin 4
     \<and> p_pinY (point_at h' 1) = Some (Fin 4)"
  using Point_update_moves_pinned
    [of 1 "Point_pin 1 (Fin 3) (Fin 4) (example_heap 0 0 3 4 5)" "example_mouse False 0 0 0"
        3 4 "example_props 60" 1200 "1/10"]
  by (simp add: Point_pin_eq upd_point_def example_defs example_mouse_def located_def)

section \<open>The mouse\<close>

text \<open>
  C19. While the primary button is held, a point closer to the mouse than
  \<^verbatim>\<open>mouseInfluence\<close> forgets its velocity and moves towards the mouse by 0.495 of
  its offset from it (plus the step of gravity): the pull grows with the
  distance, up to the radius.
\<close>

theorem Point_update_drag:
  assumes "a < points_count h" and "mouseDown ms" and "mouseButton ms = 0"
    and "located (point_at h a) x y"
    and "mouseX ms = Fin mx" and "mouseY ms = Fin my" and "mouseInfluence pr = Fin r"
    and "euclid (x - mx) (y - my) < r"
    and "p_vx (point_at h a) = Fin 0" and "p_vy (point_at h a) = Fin 0"
    and "gravity pr = Fin g"
  shows "Point_update pr ms a (Fin d) h =
     Some (upd_point a (\<lambda>p. p\<lparr>p_px := Fin x, p_py := Fin y,
        p_x := Fin (x + (mx - x) * 0.495),
        p_y := Fin (y + (my - y) * 0.495 + g * d\<^sup>2 / 2)\<rparr>) h)"
proof -
  let ?P = "point_at h a"
  from assms(2-8) have "dragged pr ms ?P"
    by (simp add: dragged_def reach_located [OF assms(4-6)])
  with assms(1) have "Point_update pr ms a (Fin d) h =
      Some (upd_point a (verlet_point (gravity pr) (Fin d) \<circ> pull ms) h)"
    by (simp add: Point_update_eq apply_mouse_eq verlet_eq upd_point_twice)
  also have "upd_point a (verlet_point (gravity pr) (Fin d) \<circ> pull ms) h =
      upd_point a (\<lambda>p. p\<lparr>p_px := Fin x, p_py := Fin y,
        p_x := Fin (x + (mx - x) * 0.495),
        p_y := Fin (y + (my - y) * 0.495 + g * d\<^sup>2 / 2)\<rparr>) h"
    using assms(4-6,9-11)
    by (intro upd_point_cong)
      (simp add: pull_def verlet_point_def located_def power2_eq_square algebra_simps)
  finally show ?thesis .
qed

theorem Point_update_drag_witness:
  "Point_update (example_props 60) (example_mouse True 0 13 4) 1 (Fin (1/10)) (example_heap 0 0 3 4 5) =
     Some (upd_point 1 (\<lambda>p. p\<lparr>p_px := Fin 3, p_py := Fin 4,
        p_x := Fin (3 + (13 - 3) * 0.495), p_y := Fin (4 + (4 - 4) * 0.495 + 1200 * (1/10)\<^sup>2 / 2)\<rparr>)
       (example_heap 0 0 3 4 5))"
  using Point_update_drag
    [of 1 "example_heap 0 0 3 4 5" "example_mouse True 0 13 4" 3 4 13 4 "example_props 60" 30 1200 "1/10"]
  by (simp add: example_defs example_mouse_def located_def)

text \<open>
  C36. A point that is not closer to the mouse than \<^verbatim>\<open>mouseInfluence\<close> nor than
  \<^verbatim>\<open>mouseCut\<close> is updated as if no button were held, whichever button is.
\<close>

theorem Point_update_out_of_reach:
  assumes "a < points_count h"
    and "\<not> reach ms (point_at h a) < mouseInfluence pr"
    and "\<not> reach ms (point_at h a) < mouseCut pr"
  shows "Point_update pr ms a delta h = Point_update pr (ms\<lparr>mouseDown := False\<rparr>) a delta h"
  using assms by (simp add: Point_update_idle dragged_def cutting_def)

theorem Point_update_out_of_reach_witness:
  "Point_update (example_props 60) (example_mouse True 0 33 4) 1 (Fin (1/10)) (example_heap 0 0 3 4 5) =
   Point_update (example_props 60) ((example_mouse True 0 33 4)\<lparr>mouseDown := False\<rparr>) 1 (Fin (1/10))
     (example_heap 0 0 3 4 5)"
  using Point_update_out_of_reach
    [of 1 "example_heap 0 0 3 4 5" "example_mouse True 0 33 4" "example_props 60" "Fin (1/10)"]
  by (simp add: example_defs example_mouse_def reach_def)

text \<open>
  C18. While the secondary button is held, a point closer to the mouse than
  \<^verbatim>\<open>mouseCut\<close> keeps exactly those of its constraints that are currently longer
  than \<^verbatim>\<open>tearDistance\<close> and drops all others; no other point changes.
\<close>

theorem Point_update_cut:
  assumes "wf_heap h" and "a < points_count h" and "cutting pr ms (point_at h a)"
  shows "\<exists>h'. Point_update pr ms a delta h = Some h'
     \<and> constraints_of h' a = filter (stretched pr h) (constraints_of h a)
     \<and> (\<forall>b. b \<noteq> a \<longrightarrow> point_at h' b = point_at h b)"
proof -
  let ?cs = "filter (stretched pr h) (constraints_of h a)"
  from assms(3) have "\<not> dragged pr ms (point_at h a)" by (simp add: cutting_def)
  with assms have "Point_update pr ms a delta h =
      Some (upd_point a (verlet_point (gravity pr) delta \<circ> (\<lambda>p. p\<lparr>p_constraints := ?cs\<rparr>)) h)"
    by (simp add: Point_update_eq apply_mouse_eq cut_filter verlet_eq upd_point_twice)
  with assms(2) show ?thesis
    by (simp add: constraints_of_def verlet_point_def)
qed

theorem Point_update_cut_witness:
  "\<exists>h'. Point_update (example_props 60) (example_mouse True 2 3 4) 1 (Fin (1/10))
        (example_heap 0 0 3 4 5) = Some h'
     \<and> constraints_of h' 1 = []
     \<and> point_at h' 0 = point_at (example_heap 0 0 3 4 5) 0"
proof -
  have "\<not> stretched (example_props 60) (example_heap 0 0 3 4 5) (example_link 5)"
    by (simp add: stretched_def longer_than_tear_def example_defs)
  moreover have "cutting (example_props 60) (example_mouse True 2 3 4)
      (point_at (example_heap 0 0 3 4 5) 1)"
    by (simp add: cutting_def dragged_def reach_def example_defs example_mouse_def)
  ultimately show ?thesis
    using Point_update_cut [OF example_wf, of 1 0 0 3 4 5 "example_props 60"
        "example_mouse True 2 3 4" "Fin (1/10)"]
    by (auto simp: example_defs)
qed

section \<open>Pins and the canvas\<close>

text \<open>
  C13. \<^verbatim>\<open>resolveConstraints\<close> of a pinned point puts it on its pin and does nothing
  else: none of its constraints is resolved and no other point moves.
\<close>

theorem Point_resolveConstraints_pinned:
  assumes "a < points_count h"
    and "p_pinX (point_at h a) = Some pinx" and "p_pinY (point_at h a) = Some piny"
  shows "Point_resolveConstraints pr cv a h = Some (upd_point a (\<lambda>p. p\<lparr>p_x := pinx, p_y := piny\<rparr>) h)"
  using assms
  by (simp add: Point_resolveConstraints_eq pinned_def snap_def cong: upd_point_cong)

theorem Point_resolveConstraints_pinned_witness:
  "Point_resolveConstraints (example_props 60) None 1
     (Point_pin 1 (Fin 8) (Fin 9) (example_heap 0 0 3 4 5)) =
   Some (upd_point 1 (\<lambda>p. p\<lparr>p_x := Fin 8, p_y := Fin 9\<rparr>)
     (Point_pin 1 (Fin 8) (Fin 9) (example_heap 0 0 3 4 5)))"
  using Point_resolveConstraints_pinned
    [of 1 "Point_pin 1 (Fin 8) (Fin 9) (example_heap 0 0 3 4 5)" "Fin 8" "Fin 9"
        "example_props 60" None]
  by (simp add: Point_pin_eq upd_point_def example_defs)

text \<open>
  C12. After \<^verbatim>\<open>resolveConstraints\<close> of a point that is not pinned, each coordinate
  of the point is either \<open>NaN\<close> or lies between 1 and the canvas size minus 1
  (between 1 and 1 for a canvas smaller than 2); it is never infinite.
\<close>

theorem Point_resolveConstraints_clamps:
  assumes "wf_heap h" and "a < points_count h" and "\<not> pinned (point_at h a)"
    and "canvasWidth cv = Fin w" and "canvasHeight cv = Fin ht"
  shows "\<exists>h'. Point_resolveConstraints pr cv a h = Some h'
     \<and> (case p_x (point_at h' a) of Fin x \<Rightarrow> 1 \<le> x \<and> x \<le> max 1 (w - 1) | NaN \<Rightarrow> True | _ \<Rightarrow> False)
     \<and> (case p_y (point_at h' a) of Fin y \<Rightarrow> 1 \<le> y \<and> y \<le> max 1 (ht - 1) | NaN \<Rightarrow> True | _ \<Rightarrow> False)"
proof -
  from assms(1-3) obtain k where k: "points_count k = points_count h"
    and r: "Point_resolveConstraints pr cv a h = Some (upd_point a (clamp_into cv) k)"
    by (rule Point_resolveConstraints_free)
  have "case Math_max (Fin 1) (Math_min (Fin b) v) of Fin x \<Rightarrow> 1 \<le> x \<and> x \<le> max 1 b
      | NaN \<Rightarrow> True | _ \<Rightarrow> False" for b v
    by (cases v) (auto simp: clamp_cases)
  with assms(2,4,5) k r show ?thesis
    by (simp add: clamp_into_def)
qed

theorem Point_resolveConstraints_clamps_witness:
  "\<exists>h'. Point_resolveConstraints (example_props 60) None 1 (example_heap 0 0 300 400 5) = Some h'
     \<and> (case p_x (point_at h' 1) of Fin x \<Rightarrow> 1 \<le> x \<and> x \<le> max 1 (200 - 1) | NaN \<Rightarrow> True | _ \<Rightarrow> False)
     \<and> (case p_y (point_at h' 1) of Fin y \<Rightarrow> 1 \<le> y \<and> y \<le> max 1 (200 - 1) | NaN \<Rightarrow> True | _ \<Rightarrow> False)"
  using Point_resolveConstraints_clamps
    [OF example_wf, of 1 0 0 300 400 5 None 200 200 "example_props 60"]
  by (simp add: example_defs pinned_def canvasWidth_def canvasHeight_def)

section \<open>Attaching\<close>

text \<open>
  C34. \<^verbatim>\<open>attach\<close> appends one new constraint, with the next identity and the
  lattice spacing as its length, to the list of the point it is called on; the
  point it is attached to gets nothing.
\<close>

theorem Point_attach_one_sided:
  assumes "a < points_count h" and "b < points_count h" and "a \<noteq> b"
  shows "constraints_of (Point_attach pr a (Some b) h) a =
       constraints_of h a @
         [\<lparr>c_id = h_next_id h, c_p1 = Some a, c_p2 = Some b, c_length = spacing pr\<rparr>]
     \<and> constraints_of (Point_attach pr a (Some b) h) b = constraints_of h b"
  using assms by (simp add: constraints_of_def Point_attach_point fresh_constraint_def)

theorem Point_attach_one_sided_witness:
  "constraints_of (Point_attach (example_props 60) 0 (Some 1) (example_heap 0 0 3 4 5)) 0 =
       [\<lparr>c_id = 1, c_p1 = Some 0, c_p2 = Some 1, c_length = Fin 10\<rparr>]
     \<and> constraints_of (Point_attach (example_props 60) 0 (Some 1) (example_heap 0 0 3 4 5)) 1 =
       [example_link 5]"
  using Point_attach_one_sided [of 0 "example_heap 0 0 3 4 5" 1 "example_props 60"]
  by (simp add: example_defs)

section \<open>The invariant\<close>

text \<open>
  C4. On a well-formed store no method of \<^verbatim>\<open>Point\<close> raises, and each leaves the
  store well formed; \<^verbatim>\<open>resolveConstraints\<close> and \<^verbatim>\<open>update\<close> leave the number of
  points as it was.
\<close>

theorem Point_methods_keep_wf:
  assumes "wf_heap h" and "a < points_count h"
  shows "(\<exists>h'. Point_resolveConstraints pr cv a h = Some h' \<and> wf_heap h'
            \<and> points_count h' = points_count h)
     \<and> (\<exists>h'. Point_update pr ms a delta h = Some h' \<and> wf_heap h'
            \<and> points_count h' = points_count h)
     \<and> wf_heap (Point_addForce a fx fy h) \<and> wf_heap (Point_pin a pinx piny h)
     \<and> wf_heap (snd (Point_new x y h))
     \<and> (\<forall>b < points_count h. wf_heap (Point_attach pr a (Some b) h))"
  using Point_resolveConstraints_wf [OF assms, of pr cv] Point_update_wf [OF assms, of pr ms delta]
    assms
  by (auto intro: wf_intros)

theorem Point_methods_keep_wf_witness:
  "(\<exists>h'. Point_resolveConstraints (example_props 60) None 1 (example_heap 0 0 3 4 5) = Some h'
       \<and> wf_heap h' \<and> points_count h' = points_count (example_heap 0 0 3 4 5))
   \<and> (\<exists>h'. Point_update (example_props 60) (example_mouse True 2 3 4) 1 (Fin (1/10))
           (example_heap 0 0 3 4 5) = Some h' \<and> wf_heap h'
           \<and> points_count h' = points_count (example_heap 0 0 3 4 5))
   \<and> wf_heap (Point_attach (example_props 60) 1 (Some 0) (example_heap 0 0 3 4 5))"
proof -
  have count: "points_count (example_heap 0 0 3 4 5) = 2"
    by (simp add: example_defs)
  then have "(1::nat) < points_count (example_heap 0 0 3 4 5)" by simp
  from Point_methods_keep_wf [OF example_wf this, of "example_props 60" None
      "example_mouse True 2 3 4" "Fin (1/10)" 0 0 0 0 0 0]
  show ?thesis by (simp add: count)
qed

end
