(* ===== verification/Cloth.thy ===== *)
theory Cloth
  imports Point
begin

text \<open>
  The class \<^verbatim>\<open>Cloth\<close> (lines 169 to 210 of \<^verbatim>\<open>src/src/ClothSimulation.tsx\<close>): the
  constructor that builds the grid row by row, \<^verbatim>\<open>update\<close> with its relaxation
  passes and its integration pass, and \<^verbatim>\<open>draw\<close> as the sequence of calls it
  makes on the 2D context. The grid the constructor builds is specified in
  closed form (\<open>grid_heap\<close>), and the constructor is proved to build exactly it.
\<close>

section \<open>The class\<close>

record cloth =
  cloth_points :: "addr list"

definition empty_heap :: heap where
  "empty_heap = \<lparr>h_points = [], h_next_id = 0\<rparr>"

definition Cloth_startX :: "props \<Rightarrow> canvas option \<Rightarrow> number" where
  "Cloth_startX pr cv = canvasWidth cv / 2 - (of_int_number (clothWidth pr) * spacing pr) / 2"

text \<open>The body of the inner loop of the constructor, at column \<open>x\<close> of row \<open>y\<close>.\<close>

definition Cloth_cell :: "props \<Rightarrow> number \<Rightarrow> int \<Rightarrow> int \<Rightarrow> cloth \<times> heap \<Rightarrow> cloth \<times> heap" where
  "Cloth_cell pr startX y x = (\<lambda>(this, h).
     let (p, h) = Point_new (startX + of_int_number x * spacing pr)
                            (startY + of_int_number y * spacing pr) h;
         h = (if x \<noteq> 0
              then Point_attach pr p
                     (array_get (cloth_points this) (int (length (cloth_points this)) - 1)) h
              else h);
         h = (if y = 0 then Point_pin p (p_x (point_at h p)) (p_y (point_at h p)) h else h);
         h = (if y \<noteq> 0
              then Point_attach pr p
                     (array_get (cloth_points this) (x + (y - 1) * (clothWidth pr + 1))) h
              else h);
         this = this\<lparr>cloth_points := cloth_points this @ [p]\<rparr>
     in (this, h))"

function Cloth_row :: "props \<Rightarrow> number \<Rightarrow> int \<Rightarrow> int \<Rightarrow> cloth \<times> heap \<Rightarrow> cloth \<times> heap" where
  "Cloth_row pr startX y x s =
     (if x \<le> clothWidth pr then Cloth_row pr startX y (x + 1) (Cloth_cell pr startX y x s)
      else s)"
  by pat_completeness auto
termination
  by (relation "measure (\<lambda>(pr, startX, y, x, s). nat (clothWidth pr + 1 - x))") auto

function Cloth_rows :: "props \<Rightarrow> number \<Rightarrow> int \<Rightarrow> cloth \<times> heap \<Rightarrow> cloth \<times> heap" where
  "Cloth_rows pr startX y s =
     (if y \<le> clothHeight pr then Cloth_rows pr startX (y + 1) (Cloth_row pr startX y 0 s)
      else s)"
  by pat_completeness auto
termination
  by (relation "measure (\<lambda>(pr, startX, y, s). nat (clothHeight pr + 1 - y))") auto

definition Cloth_new :: "props \<Rightarrow> canvas option \<Rightarrow> heap \<Rightarrow> cloth \<times> heap" where
  "Cloth_new pr cv h = Cloth_rows pr (Cloth_startX pr cv) 0 (\<lparr>cloth_points = []\<rparr>, h)"

definition Cloth_update :: "props \<Rightarrow> canvas option \<Rightarrow> mouse \<Rightarrow> cloth \<Rightarrow> heap \<Rightarrow> heap option" where
  "Cloth_update pr cv ms this h = do {
     h \<leftarrow> fold_opt (\<lambda>i. fold_opt (Point_resolveConstraints pr cv) (cloth_points this))
            [0 ..< physicsAccuracy] h;
     fold_opt (\<lambda>p. Point_update pr ms p 0.016) (cloth_points this) h
   }"

text \<open>
  The calls \<^verbatim>\<open>draw\<close> makes on the 2D context; an assignment to \<^verbatim>\<open>strokeStyle\<close> counts
  as a call. The context is the list of the calls made on it so far.
\<close>

datatype draw_op =
    ClearRect number number number number
  | BeginPath
  | StrokeStyle string
  | MoveTo number number
  | LineTo number number
  | Stroke

type_synonym ctx = "draw_op list"

definition draw_constraint :: "heap \<Rightarrow> constraint \<Rightarrow> ctx \<Rightarrow> ctx option" where
  "draw_constraint h c ctx = do {
     (_, P1) \<leftarrow> deref h (c_p1 c);
     let ctx = ctx @ [MoveTo (p_x P1) (p_y P1)];
     (_, P2) \<leftarrow> deref h (c_p2 c);
     let ctx = ctx @ [LineTo (p_x P2) (p_y P2)];
     Some ctx
   }"

definition draw_point :: "heap \<Rightarrow> addr \<Rightarrow> ctx \<Rightarrow> ctx option" where
  "draw_point h p ctx = do {
     (_, P) \<leftarrow> deref h (Some p);
     fold_opt (draw_constraint h) (p_constraints P) ctx
   }"

definition Cloth_draw :: "props \<Rightarrow> cloth \<Rightarrow> heap \<Rightarrow> ctx \<Rightarrow> ctx option" where
  "Cloth_draw pr this h ctx = do {
     let ctx = ctx @ [BeginPath];
     let ctx = ctx @ [StrokeStyle (lineColor pr)];
     ctx \<leftarrow> fold_opt (draw_point h) (cloth_points this) ctx;
     let ctx = ctx @ [Stroke];
     Some ctx
   }"

section \<open>The grid\<close>

text \<open>
  The specification of the constructor. The grid has \<open>columns\<close> points in each
  of its \<open>rows\<close> rows; the point of column \<open>x\<close> and row \<open>y\<close> is the object
  \<open>x + y * columns\<close>. It holds a constraint to its left neighbour unless it is
  in the first column, then a constraint to its upper neighbour unless it is
  in the first row; the points of the first row are pinned where they are.
  The identity of a constraint is the number of constraints made before it.
\<close>

definition columns :: "props \<Rightarrow> nat" where
  "columns pr = nat (clothWidth pr + 1)"

definition rows :: "props \<Rightarrow> nat" where
  "rows pr = nat (clothHeight pr + 1)"

definition grid_size :: "props \<Rightarrow> nat" where
  "grid_size pr = rows pr * columns pr"

definition col :: "props \<Rightarrow> nat \<Rightarrow> nat" where
  "col pr i = i mod columns pr"

definition row :: "props \<Rightarrow> nat \<Rightarrow> nat" where
  "row pr i = i div columns pr"

definition degree :: "props \<Rightarrow> nat \<Rightarrow> nat" where
  "degree pr i = (if col pr i \<noteq> 0 then 1 else 0) + (if row pr i \<noteq> 0 then 1 else 0)"

definition ids_before :: "props \<Rightarrow> nat \<Rightarrow> nat" where
  "ids_before pr n = sum_list (map (degree pr) [0 ..< n])"

definition link :: "props \<Rightarrow> nat \<Rightarrow> addr \<Rightarrow> addr \<Rightarrow> constraint" where
  "link pr k a b = \<lparr>c_id = k, c_p1 = Some a, c_p2 = Some b, c_length = spacing pr\<rparr>"

definition grid_x :: "props \<Rightarrow> canvas option \<Rightarrow> nat \<Rightarrow> number" where
  "grid_x pr cv i = Cloth_startX pr cv + of_nat_number (col pr i) * spacing pr"

definition grid_y :: "props \<Rightarrow> nat \<Rightarrow> number" where
  "grid_y pr i = startY + of_nat_number (row pr i) * spacing pr"

definition grid_constraints :: "props \<Rightarrow> nat \<Rightarrow> constraint list" where
  "grid_constraints pr i =
     (if col pr i \<noteq> 0 then [link pr (ids_before pr i) i (i - 1)] else []) @
     (if row pr i \<noteq> 0
      then [link pr (ids_before pr i + (if col pr i \<noteq> 0 then 1 else 0)) i (i - columns pr)]
      else [])"

definition grid_point :: "props \<Rightarrow> canvas option \<Rightarrow> nat \<Rightarrow> point" where
  "grid_point pr cv i =
     \<lparr>p_x = grid_x pr cv i, p_y = grid_y pr i, p_px = grid_x pr cv i, p_py = grid_y pr i,
      p_vx = 0, p_vy = 0,
      p_pinX = (if row pr i = 0 then Some (grid_x pr cv i) else None),
      p_pinY = (if row pr i = 0 then Some (grid_y pr i) else None),
      p_constraints = grid_constraints pr i\<rparr>"

definition grid_heap :: "props \<Rightarrow> canvas option \<Rightarrow> nat \<Rightarrow> heap" where
  "grid_heap pr cv n = \<lparr>h_points = map (grid_point pr cv) [0 ..< n], h_next_id = ids_before pr n\<rparr>"

definition grid_cloth :: "nat \<Rightarrow> cloth" where
  "grid_cloth n = \<lparr>cloth_points = [0 ..< n]\<rparr>"

text \<open>
  A cloth whose points are objects of the store, and the calls \<^verbatim>\<open>draw\<close> makes for one
  constraint and for the whole cloth.
\<close>

definition valid_cloth :: "cloth \<Rightarrow> heap \<Rightarrow> bool" where
  "valid_cloth this h \<longleftrightarrow> list_all (\<lambda>p. p < points_count h) (cloth_points this)"

definition segment :: "heap \<Rightarrow> constraint \<Rightarrow> draw_op list" where
  "segment h c =
     [MoveTo (p_x (point_at h (the (c_p1 c)))) (p_y (point_at h (the (c_p1 c)))),
      LineTo (p_x (point_at h (the (c_p2 c)))) (p_y (point_at h (the (c_p2 c))))]"

definition segments :: "heap \<Rightarrow> cloth \<Rightarrow> draw_op list" where
  "segments h this =
     concat (map (\<lambda>p. concat (map (segment h) (constraints_of h p))) (cloth_points this))"

text \<open>What one call of \<^verbatim>\<open>draw\<close> adds to the context when the cloth is the whole store.\<close>

definition drawn :: "props \<Rightarrow> heap \<Rightarrow> draw_op list" where
  "drawn pr h =
     [BeginPath, StrokeStyle (lineColor pr)] @ concat (map (segment h) (all_constraints h)) @ [Stroke]"

text \<open>The grid of three rows of three points, for the instances.\<close>

definition example_grid :: props where
  "example_grid = (example_props 60)\<lparr>clothWidth := 2, clothHeight := 2\<rparr>"

section \<open>The loops of the constructor\<close>

declare Cloth_row.simps [simp del] Cloth_rows.simps [simp del]

lemma Cloth_row_fold:
  "Cloth_row pr sx y x s = fold (Cloth_cell pr sx y) [x..clothWidth pr] s"
proof (induction pr sx y x s rule: Cloth_row.induct)
  case (1 pr sx y x s)
  show ?case
  proof (cases "x \<le> clothWidth pr")
    case True
    then have "[x..clothWidth pr] = x # [x + 1..clothWidth pr]" by (rule upto_rec1)
    with True 1 show ?thesis by (subst Cloth_row.simps) simp
  next
    case False
    then show ?thesis by (subst Cloth_row.simps) simp
  qed
qed

lemma Cloth_rows_fold:
  "Cloth_rows pr sx y s = fold (\<lambda>y. Cloth_row pr sx y 0) [y..clothHeight pr] s"
proof (induction pr sx y s rule: Cloth_rows.induct)
  case (1 pr sx y s)
  show ?case
  proof (cases "y \<le> clothHeight pr")
    case True
    then have "[y..clothHeight pr] = y # [y + 1..clothHeight pr]" by (rule upto_rec1)
    with True 1 show ?thesis by (subst Cloth_rows.simps) simp
  next
    case False
    then show ?thesis by (subst Cloth_rows.simps) simp
  qed
qed

lemma Cloth_new_fold:
  "Cloth_new pr cv h =
     fold (\<lambda>i. Cloth_cell pr (Cloth_startX pr cv) (int (row pr i)) (int (col pr i)))
       [0 ..< grid_size pr] (\<lparr>cloth_points = []\<rparr>, h)"
proof -
  let ?f = "\<lambda>y x. Cloth_cell pr (Cloth_startX pr cv) (int y) (int x)"
  have "Cloth_row pr (Cloth_startX pr cv) (int y) 0 = fold (?f y) [0 ..< columns pr]" for y
    by (rule ext) (simp add: Cloth_row_fold upto_0_nat fold_map comp_def columns_def)
  then have "Cloth_new pr cv h =
      fold (\<lambda>y. fold (?f y) [0 ..< columns pr]) [0 ..< rows pr] (\<lparr>cloth_points = []\<rparr>, h)"
    by (simp add: Cloth_new_def Cloth_rows_fold upto_0_nat fold_map comp_def rows_def)
  then show ?thesis
    by (simp add: fold_grid grid_size_def row_def col_def)
qed

section \<open>The grid, cell by cell\<close>

lemma ids_before_simps [simp]:
  "ids_before pr 0 = 0" "ids_before pr (Suc n) = ids_before pr n + degree pr n"
  by (simp_all add: ids_before_def)

lemma col_nonzero: "col pr i \<noteq> 0 \<Longrightarrow> 0 < i"
  by (cases i) (simp_all add: col_def)

lemma row_nonzero: "row pr i \<noteq> 0 \<Longrightarrow> 0 < columns pr \<and> columns pr \<le> i"
  by (cases "columns pr = 0"; cases "i < columns pr") (auto simp: row_def)

lemma above_index:
  assumes "row pr i \<noteq> 0"
  shows "int (col pr i) + (int (row pr i) - 1) * (clothWidth pr + 1) = int (i - columns pr)"
proof -
  from assms have c: "0 < columns pr" "columns pr \<le> i" by (simp_all add: row_nonzero)
  then have w: "clothWidth pr + 1 = int (columns pr)" by (simp add: columns_def)
  have "int i = int (col pr i) + int (row pr i) * int (columns pr)"
    unfolding col_def row_def by (simp flip: of_nat_mult of_nat_add)
  then have "int (col pr i) + (int (row pr i) - 1) * int (columns pr) = int i - int (columns pr)"
    by (simp add: algebra_simps)
  with c show ?thesis by (simp add: w of_nat_diff)
qed

lemma left_neighbour:
  "col pr i \<noteq> 0 \<Longrightarrow> array_get [0 ..< i] (int i - 1) = Some (i - 1)"
  using col_nonzero [of pr i] array_get_nat [of "i - 1" "[0 ..< i]"]
  by (simp add: of_nat_diff)

lemma upper_neighbour:
  assumes "row pr i \<noteq> 0"
  shows "array_get [0 ..< i] (int (col pr i) + (int (row pr i) - 1) * (clothWidth pr + 1))
     = Some (i - columns pr)"
  using row_nonzero [OF assms] array_get_nat [of "i - columns pr" "[0 ..< i]"]
  by (simp add: above_index [OF assms])

lemma upper_neighbour_first:
  assumes "row pr i \<noteq> 0" and "col pr i = 0"
  shows "array_get [0 ..< i] ((int (row pr i) - 1) * (clothWidth pr + 1)) = Some (i - columns pr)"
  using upper_neighbour [OF assms(1)] assms(2) by simp

lemmas grid_defs =
  grid_cloth_def grid_heap_def grid_point_def grid_constraints_def grid_x_def grid_y_def
  link_def degree_def

lemma Cloth_cell_grid:
  "Cloth_cell pr (Cloth_startX pr cv) (int (row pr i)) (int (col pr i))
     (grid_cloth i, grid_heap pr cv i) = (grid_cloth (Suc i), grid_heap pr cv (Suc i))"
  by (cases "col pr i = 0"; cases "row pr i = 0")
     (simp_all add: Cloth_cell_def Point_new_def Point_attach_def Constraint_new_def
        Point_pin_def upd_point_def point_at_def grid_defs left_neighbour upper_neighbour upper_neighbour_first
        of_int_number_def of_nat_number_def nth_append)

lemma empty_heap_grid: "(\<lparr>cloth_points = []\<rparr>, empty_heap) = (grid_cloth 0, grid_heap pr cv 0)"
  by (simp add: empty_heap_def grid_cloth_def grid_heap_def)

lemma Cloth_cells_grid:
  "fold (\<lambda>i. Cloth_cell pr (Cloth_startX pr cv) (int (row pr i)) (int (col pr i))) [0 ..< n]
     (grid_cloth 0, grid_heap pr cv 0) = (grid_cloth n, grid_heap pr cv n)"
  by (induction n) (simp_all add: Cloth_cell_grid)

lemma grid_heap_simps [simp]:
  "points_count (grid_heap pr cv n) = n"
  "h_next_id (grid_heap pr cv n) = ids_before pr n"
  "i < n \<Longrightarrow> point_at (grid_heap pr cv n) i = grid_point pr cv i"
  "i < n \<Longrightarrow> constraints_of (grid_heap pr cv n) i = grid_constraints pr i"
  by (simp_all add: grid_heap_def points_count_def point_at_def constraints_of_def grid_point_def)

lemma Cloth_cell_wf:
  assumes wf: "wf_heap h"
    and left: "x \<noteq> 0 \<Longrightarrow>
      deref h (array_get (cloth_points this) (int (length (cloth_points this)) - 1)) \<noteq> None"
    and up: "y \<noteq> 0 \<Longrightarrow>
      deref h (array_get (cloth_points this) (x + (y - 1) * (clothWidth pr + 1))) \<noteq> None"
  shows "wf_heap (snd (Cloth_cell pr sx y x (this, h)))"
proof -
  let ?p = "points_count h"
  let ?l = "array_get (cloth_points this) (int (length (cloth_points this)) - 1)"
  let ?u = "array_get (cloth_points this) (x + (y - 1) * (clothWidth pr + 1))"
  let ?h0 = "h\<lparr>h_points := h_points h @
    [fresh_point (sx + of_int_number x * spacing pr) (startY + of_int_number y * spacing pr)]\<rparr>"
  let ?h1 = "if x \<noteq> 0 then Point_attach pr ?p ?l ?h0 else ?h0"
  let ?h2 = "if y = 0 then Point_pin ?p (p_x (point_at ?h1 ?p)) (p_y (point_at ?h1 ?p)) ?h1 else ?h1"
  let ?h3 = "if y \<noteq> 0 then Point_attach pr ?p ?u ?h2 else ?h2"
  have c0: "points_count ?h0 = Suc ?p" by (simp add: points_count_def)
  have w0: "wf_heap ?h0" using Point_new_wf [OF wf] by (simp add: Point_new_eq)
  have l0: "deref ?h0 ?l \<noteq> None" if "x \<noteq> 0"
    using deref_grow [OF left [OF that], of ?h0] c0 by simp
  have w1: "wf_heap ?h1"
    using w0 c0 l0 by (cases "x = 0") (simp_all add: Point_attach_wf)
  have c2: "points_count ?h2 = Suc ?p"
    using c0 by (cases "x = 0"; cases "y = 0") simp_all
  have w2: "wf_heap ?h2"
    using w1 by (cases "y = 0") (simp_all add: Point_pin_wf)
  have u2: "deref ?h2 ?u \<noteq> None" if "y \<noteq> 0"
    using deref_grow [OF up [OF that], of ?h2] c2 by simp
  have "wf_heap ?h3"
    using w2 c2 u2 by (cases "y = 0") (simp_all add: Point_attach_wf)
  then show ?thesis by (simp add: Cloth_cell_def Point_new_eq Let_def)
qed

lemma grid_heap_wf: "wf_heap (grid_heap pr cv n)"
proof (induction n)
  case 0
  show ?case by (simp add: wf_heap_def grid_heap_def constraint_ids_def all_constraints_def points_count_def)
next
  case (Suc n)
  have "wf_heap (snd (Cloth_cell pr (Cloth_startX pr cv) (int (row pr n)) (int (col pr n))
      (grid_cloth n, grid_heap pr cv n)))"
    using Suc row_nonzero [of pr n] col_nonzero [of pr n]
    by (intro Cloth_cell_wf)
      (simp_all add: grid_cloth_def left_neighbour upper_neighbour deref_None_iff)
  then show ?case by (simp add: Cloth_cell_grid)
qed

lemma Cloth_new_heap [simp]: "snd (Cloth_new pr cv empty_heap) = grid_heap pr cv (grid_size pr)"
  by (simp only: Cloth_new_fold empty_heap_grid [of pr cv] Cloth_cells_grid snd_conv)

lemma Cloth_new_cloth [simp]: "fst (Cloth_new pr cv empty_heap) = grid_cloth (grid_size pr)"
  by (simp only: Cloth_new_fold empty_heap_grid [of pr cv] Cloth_cells_grid fst_conv)

lemma example_grid_simps [simp]:
  "columns example_grid = 3" "rows example_grid = 3" "grid_size example_grid = 9"
  "spacing example_grid = Fin 10" "lineColor example_grid = ''#888''"
  by (simp_all add: example_grid_def example_props_def columns_def rows_def grid_size_def)

section \<open>Counting the grid\<close>

lemma ids_before_add:
  "ids_before pr (a + b) = ids_before pr a + sum_list (map (\<lambda>x. degree pr (a + x)) [0 ..< b])"
  by (induction b) simp_all

lemma degree_block:
  "x < columns pr \<Longrightarrow>
     degree pr (r * columns pr + x) = (if x \<noteq> 0 then 1 else 0) + (if r \<noteq> 0 then 1 else 0)"
  by (simp add: degree_def col_def row_def)

lemma ids_before_row:
  "ids_before pr (r * columns pr + columns pr) =
     ids_before pr (r * columns pr) + ((columns pr - 1) + columns pr * (if r \<noteq> 0 then 1 else 0))"
proof -
  have "sum_list (map (\<lambda>x. degree pr (r * columns pr + x)) [0 ..< columns pr]) =
      sum_list (map (\<lambda>x. (if x \<noteq> 0 then 1 else 0) + (if r \<noteq> 0 then 1 else 0)) [0 ..< columns pr])"
    by (rule arg_cong [where f = sum_list], rule map_cong) (simp_all add: degree_block)
  also have "\<dots> = (columns pr - 1) + columns pr * (if r \<noteq> 0 then 1 else 0)"
    by (rule sum_list_indicator)
  finally show ?thesis by (simp only: ids_before_add)
qed

lemma ids_before_grid:
  "ids_before pr (r * columns pr) = r * (columns pr - 1) + (r - 1) * columns pr"
proof (induction r)
  case (Suc r)
  have "ids_before pr (Suc r * columns pr) =
      ids_before pr (r * columns pr) + ((columns pr - 1) + columns pr * (if r \<noteq> 0 then 1 else 0))"
    using ids_before_row [of pr r] by (simp add: add.commute)
  then show ?case unfolding Suc.IH by (cases r) simp_all
qed simp

lemma length_grid_constraints [simp]: "length (grid_constraints pr i) = degree pr i"
  by (simp add: grid_constraints_def degree_def)

lemma length_all_constraints_grid:
  "length (all_constraints (grid_heap pr cv n)) = ids_before pr n"
  by (simp add: all_constraints_def grid_heap_def length_concat comp_def grid_point_def
      ids_before_def)

lemma col_row_of [simp]:
  "x < columns pr \<Longrightarrow> col pr (x + y * columns pr) = x"
  "x < columns pr \<Longrightarrow> row pr (x + y * columns pr) = y"
  by (simp_all add: col_def row_def)

lemma grid_index_less:
  assumes "x < columns pr" and "y < rows pr"
  shows "x + y * columns pr < grid_size pr"
proof -
  from assms(2) have "Suc y * columns pr \<le> rows pr * columns pr"
    by (intro mult_le_mono1) simp
  moreover from assms(1) have "x + y * columns pr < Suc y * columns pr" by simp
  ultimately show ?thesis by (simp add: grid_size_def)
qed

section \<open>A frame\<close>

lemma valid_cloth_iff: "valid_cloth this h \<longleftrightarrow> (\<forall>p \<in> set (cloth_points this). p < points_count h)"
  by (simp add: valid_cloth_def list_all_iff)

lemma valid_cloth_evolves: "evolves h h' \<Longrightarrow> valid_cloth this h \<Longrightarrow> valid_cloth this h'"
  by (simp add: valid_cloth_iff evolvesD)

lemma valid_grid_cloth [simp]: "valid_cloth (grid_cloth n) h \<longleftrightarrow> n \<le> points_count h"
  by (cases n) (auto simp: valid_cloth_iff grid_cloth_def)

lemma pass_safe:
  assumes step: "\<And>a k. wf_heap k \<Longrightarrow> a < points_count k \<Longrightarrow>
      \<exists>k'. f a k = Some k' \<and> wf_heap k' \<and> points_count k' = points_count k"
    and "wf_heap h" and "valid_cloth this h"
  shows "\<exists>h'. fold_opt f (cloth_points this) h = Some h' \<and> wf_heap h'
     \<and> points_count h' = points_count h"
proof -
  let ?P = "\<lambda>k. wf_heap k \<and> points_count k = points_count h"
  have "\<exists>k'. f a k = Some k' \<and> ?P k'" if "a \<in> set (cloth_points this)" "?P k" for a k
    using step [of k a] that assms(3) by (auto simp: valid_cloth_iff)
  with assms(2) show ?thesis
    by (intro fold_opt_invariant [where P = ?P]) simp_all
qed

lemma resolve_pass_safe:
  assumes "wf_heap h" and "valid_cloth this h"
  shows "\<exists>h'. fold_opt (Point_resolveConstraints pr cv) (cloth_points this) h = Some h'
     \<and> wf_heap h' \<and> points_count h' = points_count h"
  using Point_resolveConstraints_wf [of _ _ pr cv] assms
  by (intro pass_safe) blast+

lemma update_pass_safe:
  assumes "wf_heap h" and "valid_cloth this h"
  shows "\<exists>h'. fold_opt (\<lambda>p. Point_update pr ms p d) (cloth_points this) h = Some h'
     \<and> wf_heap h' \<and> points_count h' = points_count h"
  using Point_update_wf [of _ _ pr ms d] assms
  by (intro pass_safe) blast+

lemma Cloth_update_evolves:
  assumes "Cloth_update pr cv ms this h = Some h'"
  shows "evolves h h'"
proof -
  from assms obtain k
    where k: "fold_opt (\<lambda>i. fold_opt (Point_resolveConstraints pr cv) (cloth_points this))
        [0 ..< physicsAccuracy] h = Some k"
      and h': "fold_opt (\<lambda>p. Point_update pr ms p 0.016) (cloth_points this) k = Some h'"
    by (auto simp: Cloth_update_def split: Option.bind_splits)
  from k have "evolves h k"
    by (rule fold_opt_evolves) (erule fold_opt_evolves, rule Point_resolveConstraints_evolves)
  moreover from h' have "evolves k h'"
    by (rule fold_opt_evolves) (rule Point_update_evolves)
  ultimately show ?thesis by (rule evolves_trans)
qed

lemma Cloth_update_total:
  assumes "wf_heap h" and "valid_cloth this h"
  shows "\<exists>h'. Cloth_update pr cv ms this h = Some h' \<and> wf_heap h'"
proof -
  let ?P = "\<lambda>k. wf_heap k \<and> points_count k = points_count h"
  have "\<exists>k'. fold_opt (Point_resolveConstraints pr cv) (cloth_points this) k = Some k' \<and> ?P k'"
    if "?P k" for k
    using resolve_pass_safe [of k this pr cv] that assms(2) by (auto simp: valid_cloth_iff)
  with assms(1) obtain k
    where k: "fold_opt (\<lambda>i. fold_opt (Point_resolveConstraints pr cv) (cloth_points this))
        [0 ..< physicsAccuracy] h = Some k" "wf_heap k" "points_count k = points_count h"
    using fold_opt_invariant [where P = ?P and xs = "[0 ..< physicsAccuracy]" and s = h
        and f = "\<lambda>i. fold_opt (Point_resolveConstraints pr cv) (cloth_points this)"]
    by auto
  with assms(2) have "valid_cloth this k" by (simp add: valid_cloth_iff)
  with k(2) obtain h'
    where "fold_opt (\<lambda>p. Point_update pr ms p 0.016) (cloth_points this) k = Some h'" "wf_heap h'"
    using update_pass_safe [of k this pr ms "0.016"] by auto
  with k(1) show ?thesis by (simp add: Cloth_update_def)
qed

section \<open>Drawing\<close>

lemma draw_constraint_eq:
  assumes "wf_heap h" and "a < points_count h" and "c \<in> set (constraints_of h a)"
  shows "draw_constraint h c ctx = Some (ctx @ segment h c)"
proof -
  from assms have "wf_constraint h a c" by (rule wf_heapD)
  with assms(2) show ?thesis
    using wf_constraint_deref [of h a c]
    by (auto simp: draw_constraint_def segment_def wf_constraint_def deref_Some_iff)
qed

lemma draw_point_eq:
  assumes "wf_heap h" and "a < points_count h"
  shows "draw_point h a ctx = Some (ctx @ concat (map (segment h) (constraints_of h a)))"
  using assms
  by (simp add: draw_point_def constraints_of_def [symmetric] fold_opt_emit draw_constraint_eq)

lemma concat_map_concat:
  "concat (map (\<lambda>x. concat (map f (g x))) xs) = concat (map f (concat (map g xs)))"
  by (induction xs) simp_all

lemma all_constraints_upt:
  "all_constraints h = concat (map (constraints_of h) [0 ..< points_count h])"
proof -
  have "map (constraints_of h) [0 ..< points_count h] =
      map p_constraints (map (nth (h_points h)) [0 ..< length (h_points h)])"
    by (simp add: constraints_of_def point_at_def points_count_def)
  then show ?thesis by (simp only: map_nth all_constraints_def)
qed

lemma segments_grid_cloth:
  "segments h (grid_cloth (points_count h)) = concat (map (segment h) (all_constraints h))"
  by (simp add: segments_def grid_cloth_def all_constraints_upt concat_map_concat)

lemma Cloth_draw_eq:
  assumes "wf_heap h" and "valid_cloth this h"
  shows "Cloth_draw pr this h ctx =
     Some (ctx @ [BeginPath, StrokeStyle (lineColor pr)] @ segments h this @ [Stroke])"
proof -
  have "fold_opt (draw_point h) (cloth_points this) s =
      Some (s @ concat (map (\<lambda>p. concat (map (segment h) (constraints_of h p))) (cloth_points this)))"
    for s
    using assms by (intro fold_opt_emit) (simp add: draw_point_eq valid_cloth_iff)
  then show ?thesis by (simp add: Cloth_draw_def segments_def)
qed

lemma Cloth_draw_all:
  "wf_heap h \<Longrightarrow> Cloth_draw pr (grid_cloth (points_count h)) h ctx = Some (ctx @ drawn pr h)"
  by (simp add: Cloth_draw_eq segments_grid_cloth drawn_def)

section \<open>The constructor builds the grid\<close>

text \<open>
  C2. The constructor, run in the empty store, builds exactly the grid of the
  specification \<open>grid_heap\<close>: the points are the objects \<open>0, 1, \<dots>\<close> in row-major
  order, \<^verbatim>\<open>this.points\<close> lists them in that order, and the next constraint identity
  is the number of constraints made. This holds for every value of the props;
  a negative \<^verbatim>\<open>clothWidth\<close> or \<^verbatim>\<open>clothHeight\<close> gives the empty grid.
\<close>

theorem Cloth_new_grid:
  "Cloth_new pr cv empty_heap = (grid_cloth (grid_size pr), grid_heap pr cv (grid_size pr))"
  by (simp only: Cloth_new_fold empty_heap_grid [of pr cv] Cloth_cells_grid)

text \<open>
  C31. The store the constructor leaves is well formed, every entry of
  \<^verbatim>\<open>this.points\<close> is an object of it, and the constraints held in it are as many
  as the identities handed out.
\<close>

theorem Cloth_new_wf:
  "wf_heap (snd (Cloth_new pr cv empty_heap))
   \<and> valid_cloth (fst (Cloth_new pr cv empty_heap)) (snd (Cloth_new pr cv empty_heap))
   \<and> h_next_id (snd (Cloth_new pr cv empty_heap))
       = length (all_constraints (snd (Cloth_new pr cv empty_heap)))"
  by (simp add: grid_heap_wf length_all_constraints_grid)

text \<open>
  C14. The point of column \<open>x\<close> and row \<open>y\<close> is the object \<open>x + y * columns\<close>. It
  is at \<open>(startX + x * spacing, startY + y * spacing)\<close>, at rest and with no force;
  it is pinned, where it is, exactly when it is in the first row; each
  constraint it holds has it as first end and the spacing as rest length, and
  their second ends are its left neighbour (unless \<open>x = 0\<close>), then its upper
  neighbour (unless \<open>y = 0\<close>).
\<close>

theorem Cloth_new_lattice:
  assumes "x < columns pr" and "y < rows pr"
  shows "(let i = x + y * columns pr; P = point_at (snd (Cloth_new pr cv empty_heap)) i in
      p_x P = Cloth_startX pr cv + of_nat_number x * spacing pr
    \<and> p_y P = startY + of_nat_number y * spacing pr
    \<and> p_px P = p_x P \<and> p_py P = p_y P \<and> p_vx P = 0 \<and> p_vy P = 0
    \<and> p_pinX P = (if y = 0 then Some (p_x P) else None)
    \<and> p_pinY P = (if y = 0 then Some (p_y P) else None)
    \<and> map c_p1 (p_constraints P) = replicate (length (p_constraints P)) (Some i)
    \<and> map c_p2 (p_constraints P) =
        (if x \<noteq> 0 then [Some (i - 1)] else []) @ (if y \<noteq> 0 then [Some (i - columns pr)] else [])
    \<and> map c_length (p_constraints P) = replicate (length (p_constraints P)) (spacing pr))"
  using assms grid_index_less [OF assms]
  by (simp add: Let_def grid_point_def grid_x_def grid_y_def grid_constraints_def link_def)

theorem Cloth_new_lattice_witness:
  "(let i = 1 + 1 * columns example_grid; P = point_at (snd (Cloth_new example_grid None empty_heap)) i in
      p_x P = Cloth_startX example_grid None + of_nat_number 1 * spacing example_grid
    \<and> p_y P = startY + of_nat_number 1 * spacing example_grid
    \<and> p_px P = p_x P \<and> p_py P = p_y P \<and> p_vx P = 0 \<and> p_vy P = 0
    \<and> p_pinX P = (if (1 :: nat) = 0 then Some (p_x P) else None)
    \<and> p_pinY P = (if (1 :: nat) = 0 then Some (p_y P) else None)
    \<and> map c_p1 (p_constraints P) = replicate (length (p_constraints P)) (Some i)
    \<and> map c_p2 (p_constraints P) =
        (if (1 :: nat) \<noteq> 0 then [Some (i - 1)] else []) @
        (if (1 :: nat) \<noteq> 0 then [Some (i - columns example_grid)] else [])
    \<and> map c_length (p_constraints P) = replicate (length (p_constraints P)) (spacing example_grid))
   \<and> (1 :: nat) < columns example_grid \<and> (1 :: nat) < rows example_grid"
  using Cloth_new_lattice [of 1 example_grid 1 None] by simp

text \<open>
  C32. The grid has \<open>rows * columns\<close> points and
  \<open>rows * (columns - 1) + (rows - 1) * columns\<close> constraints.
\<close>

theorem Cloth_new_counts:
  "points_count (snd (Cloth_new pr cv empty_heap)) = rows pr * columns pr
   \<and> length (all_constraints (snd (Cloth_new pr cv empty_heap)))
       = rows pr * (columns pr - 1) + (rows pr - 1) * columns pr"
  by (simp add: length_all_constraints_grid grid_size_def ids_before_grid)


section \<open>A frame neither raises nor breaks the store\<close>

text \<open>
  C5. In a well-formed store, \<^verbatim>\<open>update\<close> of a cloth whose points are objects of the
  store returns normally, whatever the mouse does. The store it leaves is well
  formed, has the same objects, the same pins, and no constraint that was not
  there before.
\<close>

theorem Cloth_update_safe:
  assumes "wf_heap h" and "valid_cloth this h"
  shows "\<exists>h'. Cloth_update pr cv ms this h = Some h' \<and> wf_heap h' \<and> valid_cloth this h'
     \<and> evolves h h'"
  using Cloth_update_total [OF assms, of pr cv ms] assms(2)
  by (auto dest: Cloth_update_evolves intro: valid_cloth_evolves)

theorem Cloth_update_safe_witness:
  "\<exists>h'. Cloth_update example_grid None (example_mouse True 2 30 40)
       (fst (Cloth_new example_grid None empty_heap)) (snd (Cloth_new example_grid None empty_heap))
       = Some h'
     \<and> wf_heap h'
     \<and> valid_cloth (fst (Cloth_new example_grid None empty_heap)) h'
     \<and> evolves (snd (Cloth_new example_grid None empty_heap)) h'"
  using Cloth_update_safe [of "snd (Cloth_new example_grid None empty_heap)"
      "fst (Cloth_new example_grid None empty_heap)" example_grid None "example_mouse True 2 30 40"]
  by (simp add: grid_heap_wf)

section \<open>What is drawn\<close>

text \<open>
  C17. In a well-formed store \<^verbatim>\<open>draw\<close> returns normally, and the calls it makes are
  \<^verbatim>\<open>beginPath\<close>, the assignment of the line colour, then for each point of the
  cloth in order and each constraint the point holds in order one \<^verbatim>\<open>moveTo\<close> to
  its first end and one \<^verbatim>\<open>lineTo\<close> to its second, then \<^verbatim>\<open>stroke\<close>. When the cloth
  lists every point of the store once, every constraint held in the store is
  drawn exactly once: two calls for each.
\<close>

theorem Cloth_draw_segments:
  assumes "wf_heap h" and "valid_cloth this h"
  shows "Cloth_draw pr this h ctx =
       Some (ctx @ [BeginPath, StrokeStyle (lineColor pr)] @ segments h this @ [Stroke])
     \<and> (cloth_points this = [0 ..< points_count h] \<longrightarrow>
          segments h this = concat (map (segment h) (all_constraints h))
        \<and> length (segments h this) = 2 * length (all_constraints h))"
proof (intro conjI impI)
  assume "cloth_points this = [0 ..< points_count h]"
  then show all: "segments h this = concat (map (segment h) (all_constraints h))"
    by (simp add: segments_def all_constraints_upt concat_map_concat)
  show "length (segments h this) = 2 * length (all_constraints h)"
    unfolding all by (simp add: length_concat comp_def segment_def sum_list_triv)
qed (simp add: Cloth_draw_eq assms)

theorem Cloth_draw_segments_witness:
  "Cloth_draw (example_props 60) \<lparr>cloth_points = [0, 1]\<rparr> (example_heap 0 0 3 4 10) [] =
     Some [BeginPath, StrokeStyle ''#888'', MoveTo (Fin 3) (Fin 4), LineTo (Fin 0) (Fin 0), Stroke]
   \<and> length (segments (example_heap 0 0 3 4 10) \<lparr>cloth_points = [0, 1]\<rparr>)
       = 2 * length (all_constraints (example_heap 0 0 3 4 10))"
  using Cloth_draw_segments [OF example_wf, of "\<lparr>cloth_points = [0, 1]\<rparr>" 0 0 3 4 10
      "example_props 60" "[]"]
  by (simp add: valid_cloth_def segments_def segment_def all_constraints_def example_defs)

section \<open>Drawing twice\<close>



end
