(* ===== verification/Simulation.thy ===== *)
theory Simulation
  imports Cloth
begin

text \<open>
  The closures of the effect (lines 18 to 30 and 212 to 266 of
  \<^verbatim>\<open>src/src/ClothSimulation.tsx\<close>): the defaults of the props, the mouse handlers,
  \<^verbatim>\<open>resizeCanvas\<close>, the frame callback \<^verbatim>\<open>update\<close>, and the body of the effect that
  builds the cloth and runs the first frame. The browser is the environment:
  it delivers events, one at a time, and each is one step of the state.
\<close>

section \<open>The props\<close>

text \<open>The defaults of the destructured props, for a window of the given inner size.\<close>

definition default_props :: "nat \<Rightarrow> nat \<Rightarrow> props" where
  "default_props innerWidth innerHeight =
     \<lparr>width = innerWidth, height = innerHeight,
      clothWidth = int (innerWidth div 14), clothHeight = 60,
      spacing = 12, gravity = 1200, mouseInfluence = 30, mouseCut = 15, tearDistance = 60,
      backgroundColor = ''transparent'', lineColor = ''#888''\<rparr>"

section \<open>The state and the handlers\<close>

record mouse_event =
  clientX :: number
  clientY :: number
  button :: int

text \<open>The result of \<^verbatim>\<open>canvas.getBoundingClientRect()\<close>, as far as it is read.\<close>

record rect =
  rect_left :: number
  rect_top :: number

record sim =
  sim_canvas :: canvas
  sim_heap :: heap
  sim_cloth :: cloth
  sim_mouse :: mouse
  sim_ctx :: ctx

text \<open>
  \<^verbatim>\<open>resizeCanvas\<close> sets the state \<^verbatim>\<open>canvasSize\<close>; the canvas element gets these
  attributes when React renders again. The two are one step here.
\<close>

definition resizeCanvas :: "props \<Rightarrow> nat \<Rightarrow> nat \<Rightarrow> canvas" where
  "resizeCanvas pr innerWidth innerHeight =
     \<lparr>canvas_width = (if width pr \<noteq> 0 then width pr else innerWidth),
      canvas_height = (if height pr \<noteq> 0 then height pr else innerHeight)\<rparr>"

definition handleMouseDown :: "rect \<Rightarrow> mouse_event \<Rightarrow> mouse \<Rightarrow> mouse" where
  "handleMouseDown r e ms =
     (let ms = ms\<lparr>mouseX := clientX e - rect_left r\<rparr>;
          ms = ms\<lparr>mouseY := clientY e - rect_top r\<rparr>;
          ms = ms\<lparr>mouseDown := True\<rparr>;
          ms = ms\<lparr>mouseButton := button e\<rparr>
      in ms)"

definition handleMouseMove :: "rect \<Rightarrow> mouse_event \<Rightarrow> mouse \<Rightarrow> mouse" where
  "handleMouseMove r e ms =
     (let ms = ms\<lparr>mouseX := clientX e - rect_left r\<rparr>;
          ms = ms\<lparr>mouseY := clientY e - rect_top r\<rparr>
      in ms)"

definition handleMouseUp :: "mouse \<Rightarrow> mouse" where
  "handleMouseUp ms = ms\<lparr>mouseDown := False\<rparr>"

text \<open>
  The frame callback \<^verbatim>\<open>update\<close>. Its last statement asks the browser for the
  next frame; the browser answers with the next \<open>AnimationFrame\<close> event.
\<close>

definition frame :: "props \<Rightarrow> sim \<Rightarrow> sim option" where
  "frame pr s = do {
     let ctx = sim_ctx s @ [ClearRect 0 0 (of_nat_number (canvas_width (sim_canvas s)))
                                        (of_nat_number (canvas_height (sim_canvas s)))];
     h \<leftarrow> Cloth_update pr (Some (sim_canvas s)) (sim_mouse s) (sim_cloth s) (sim_heap s);
     ctx \<leftarrow> Cloth_draw pr (sim_cloth s) h ctx;
     Some (s\<lparr>sim_heap := h, sim_ctx := ctx\<rparr>)
   }"

text \<open>
  The body of the effect, for a canvas and a context that exist: the mouse
  variables, the cloth, built for the canvas as first rendered, and the first
  frame.
\<close>

definition first_canvas :: "props \<Rightarrow> canvas" where
  "first_canvas pr = \<lparr>canvas_width = width pr, canvas_height = height pr\<rparr>"

definition start :: "props \<Rightarrow> sim option" where
  "start pr =
     (let ms = \<lparr>mouseX = 0, mouseY = 0, mouseDown = False, mouseButton = 0\<rparr>;
          (cloth, h) = Cloth_new pr (Some (first_canvas pr)) empty_heap
      in frame pr \<lparr>sim_canvas = first_canvas pr, sim_heap = h, sim_cloth = cloth,
                    sim_mouse = ms, sim_ctx = []\<rparr>)"

section \<open>The event loop\<close>

datatype event =
    MouseDown rect mouse_event
  | MouseMove rect mouse_event
  | MouseUp
  | ContextMenu
  | Resize nat nat
  | AnimationFrame

fun step :: "props \<Rightarrow> event \<Rightarrow> sim \<Rightarrow> sim option" where
  "step pr (MouseDown r e) s = Some (s\<lparr>sim_mouse := handleMouseDown r e (sim_mouse s)\<rparr>)"
| "step pr (MouseMove r e) s = Some (s\<lparr>sim_mouse := handleMouseMove r e (sim_mouse s)\<rparr>)"
| "step pr MouseUp s = Some (s\<lparr>sim_mouse := handleMouseUp (sim_mouse s)\<rparr>)"
| "step pr ContextMenu s = Some s"
| "step pr (Resize w h) s = Some (s\<lparr>sim_canvas := resizeCanvas pr w h\<rparr>)"
| "step pr AnimationFrame s = frame pr s"

text \<open>The states the simulation can be in: after the effect, and after any event.\<close>

inductive reachable :: "props \<Rightarrow> sim \<Rightarrow> bool" for pr where
  initial: "start pr = Some s \<Longrightarrow> reachable pr s"
| after: "reachable pr s \<Longrightarrow> step pr e s = Some s' \<Longrightarrow> reachable pr s'"

text \<open>Running a list of events, in order.\<close>

definition run :: "props \<Rightarrow> event list \<Rightarrow> sim \<Rightarrow> sim option" where
  "run pr es s = fold_opt (step pr) es s"

text \<open>A session: a cut with the secondary button, a move, a release, a resize.\<close>

definition example_events :: "event list" where
  "example_events =
     [MouseDown \<lparr>rect_left = 0, rect_top = 0\<rparr> \<lparr>clientX = 30, clientY = 40, button = 2\<rparr>,
      AnimationFrame,
      MouseMove \<lparr>rect_left = 0, rect_top = 0\<rparr> \<lparr>clientX = 35, clientY = 45, button = 0\<rparr>,
      AnimationFrame, MouseUp, Resize 800 600, ContextMenu, AnimationFrame]"

section \<open>The invariant\<close>

text \<open>
  In every state the store is well formed, the cloth is the list of all the
  points of the grid, and the store has evolved from the grid the constructor
  built: same objects, same pins, no new constraint.
\<close>

definition first_grid :: "props \<Rightarrow> heap" where
  "first_grid pr = grid_heap pr (Some (first_canvas pr)) (grid_size pr)"

definition sim_inv :: "props \<Rightarrow> sim \<Rightarrow> bool" where
  "sim_inv pr s \<longleftrightarrow> wf_heap (sim_heap s) \<and> sim_cloth s = grid_cloth (grid_size pr)
     \<and> evolves (first_grid pr) (sim_heap s)"

lemma first_grid_simps [simp]:
  "points_count (first_grid pr) = grid_size pr" "wf_heap (first_grid pr)"
  by (simp_all add: first_grid_def grid_heap_wf)

lemma sim_invD:
  assumes "sim_inv pr s"
  shows "wf_heap (sim_heap s)" and "sim_cloth s = grid_cloth (grid_size pr)"
    and "evolves (first_grid pr) (sim_heap s)" and "points_count (sim_heap s) = grid_size pr"
    and "valid_cloth (sim_cloth s) (sim_heap s)"
proof -
  from assms show inv: "wf_heap (sim_heap s)" "sim_cloth s = grid_cloth (grid_size pr)"
    "evolves (first_grid pr) (sim_heap s)"
    by (simp_all add: sim_inv_def)
  from evolvesD(1) [OF inv(3)] show "points_count (sim_heap s) = grid_size pr" by simp
  with inv(2) show "valid_cloth (sim_cloth s) (sim_heap s)" by simp
qed

lemma sim_inv_fields [simp]:
  "sim_inv pr (s\<lparr>sim_mouse := ms\<rparr>) = sim_inv pr s"
  "sim_inv pr (s\<lparr>sim_canvas := cv\<rparr>) = sim_inv pr s"
  "sim_inv pr (s\<lparr>sim_ctx := cx\<rparr>) = sim_inv pr s"
  by (simp_all add: sim_inv_def)

lemma frame_eq:
  assumes "sim_inv pr s"
  obtains h where
    "Cloth_update pr (Some (sim_canvas s)) (sim_mouse s) (sim_cloth s) (sim_heap s) = Some h"
    and "wf_heap h" and "evolves (sim_heap s) h"
    and "frame pr s = Some (s\<lparr>sim_heap := h,
        sim_ctx := sim_ctx s @ [ClearRect 0 0 (of_nat_number (canvas_width (sim_canvas s)))
                                           (of_nat_number (canvas_height (sim_canvas s)))]
                     @ drawn pr h\<rparr>)"
proof -
  note inv = sim_invD [OF assms]
  from Cloth_update_total [OF inv(1,5), of pr "Some (sim_canvas s)" "sim_mouse s"] obtain h
    where h: "Cloth_update pr (Some (sim_canvas s)) (sim_mouse s) (sim_cloth s) (sim_heap s) = Some h"
      "wf_heap h"
    by blast
  from h(1) have ev: "evolves (sim_heap s) h" by (rule Cloth_update_evolves)
  with inv(4) have "sim_cloth s = grid_cloth (points_count h)"
    by (simp add: inv(2) evolvesD)
  with h(2) have "Cloth_draw pr (sim_cloth s) h cx = Some (cx @ drawn pr h)" for cx
    by (simp add: Cloth_draw_all)
  with h(1) have "frame pr s = Some (s\<lparr>sim_heap := h,
      sim_ctx := sim_ctx s @ [ClearRect 0 0 (of_nat_number (canvas_width (sim_canvas s)))
                                         (of_nat_number (canvas_height (sim_canvas s)))]
                   @ drawn pr h\<rparr>)"
    by (simp add: frame_def)
  with h ev show thesis by (rule that)
qed

lemma frame_inv:
  assumes "sim_inv pr s"
  shows "\<exists>s'. frame pr s = Some s' \<and> sim_inv pr s'"
proof -
  from assms obtain h where "wf_heap h" "evolves (sim_heap s) h"
    and "frame pr s = Some (s\<lparr>sim_heap := h,
        sim_ctx := sim_ctx s @ [ClearRect 0 0 (of_nat_number (canvas_width (sim_canvas s)))
                                           (of_nat_number (canvas_height (sim_canvas s)))]
                     @ drawn pr h\<rparr>)"
    by (rule frame_eq)
  with assms show ?thesis
    by (auto simp: sim_inv_def intro: evolves_trans)
qed

lemma step_inv:
  assumes "sim_inv pr s"
  shows "\<exists>s'. step pr e s = Some s' \<and> sim_inv pr s'"
  using assms by (cases e) (simp_all add: frame_inv)

lemma start_inv: "\<exists>s. start pr = Some s \<and> sim_inv pr s"
proof -
  let ?s = "\<lparr>sim_canvas = first_canvas pr, sim_heap = first_grid pr,
      sim_cloth = grid_cloth (grid_size pr),
      sim_mouse = \<lparr>mouseX = 0, mouseY = 0, mouseDown = False, mouseButton = 0\<rparr>, sim_ctx = []\<rparr>"
  have "start pr = frame pr ?s"
    by (simp add: start_def first_grid_def split_def)
  moreover have "sim_inv pr ?s" by (simp add: sim_inv_def)
  ultimately show ?thesis by (simp add: frame_inv)
qed

lemma reachable_inv: "reachable pr s \<Longrightarrow> sim_inv pr s"
proof (induction rule: reachable.induct)
  case (initial s)
  with start_inv [of pr] show ?case by auto
next
  case (after s e s')
  with step_inv [of pr s e] show ?case by auto
qed

lemma run_inv:
  assumes "sim_inv pr s"
  shows "\<exists>s'. run pr es s = Some s' \<and> sim_inv pr s'"
  unfolding run_def using assms
  by (intro fold_opt_invariant [where P = "sim_inv pr"]) (simp_all add: step_inv)

lemma run_reachable:
  "reachable pr s \<Longrightarrow> run pr es s = Some s' \<Longrightarrow> reachable pr s'"
  unfolding run_def
  by (erule fold_opt_preserves [where P = "reachable pr", rotated]) (auto intro: reachable.after)

lemma reachable_iff_run:
  "reachable pr s \<longleftrightarrow> (\<exists>s0 es. start pr = Some s0 \<and> run pr es s0 = Some s)"
proof
  show "\<exists>s0 es. start pr = Some s0 \<and> run pr es s0 = Some s" if "reachable pr s"
    using that
  proof (induction rule: reachable.induct)
    case (initial s)
    then have "start pr = Some s \<and> run pr [] s = Some s" by (simp add: run_def)
    then show ?case by blast
  next
    case (after s e s')
    then obtain s0 es where "start pr = Some s0" "run pr es s0 = Some s" by blast
    with after.hyps(2) have "start pr = Some s0 \<and> run pr (es @ [e]) s0 = Some s'"
      by (simp add: run_def fold_opt_snoc)
    then show ?case by blast
  qed
next
  assume "\<exists>s0 es. start pr = Some s0 \<and> run pr es s0 = Some s"
  then show "reachable pr s"
    by (auto intro: run_reachable reachable.initial)
qed

lemma start_reachable: "reachable pr (the (start pr))"
  using start_inv [of pr] by (auto intro: reachable.initial)

lemma pinned_grid_point:
  "i < grid_size pr \<Longrightarrow> pinned (grid_point pr cv i) \<longleftrightarrow> i < columns pr"
  by (cases "columns pr = 0")
    (auto simp: pinned_def grid_point_def row_def grid_size_def div_eq_0_iff)

lemma pinned_evolves:
  "evolves h h' \<Longrightarrow> a < points_count h \<Longrightarrow> pinned (point_at h' a) \<longleftrightarrow> pinned (point_at h a)"
  by (simp add: pinned_def evolvesD)

section \<open>The effect starts the simulation\<close>

text \<open>
  C39. The body of the effect returns normally. The state it leaves has the mouse
  up at the origin, the canvas as first rendered, and a context that was
  cleared once and then received one drawing of the cloth.
\<close>

theorem start_succeeds:
  "\<exists>s. start pr = Some s \<and> reachable pr s
     \<and> sim_mouse s = \<lparr>mouseX = 0, mouseY = 0, mouseDown = False, mouseButton = 0\<rparr>
     \<and> sim_canvas s = first_canvas pr
     \<and> sim_ctx s = ClearRect 0 0 (of_nat_number (width pr)) (of_nat_number (height pr))
         # drawn pr (sim_heap s)"
proof -
  let ?s = "\<lparr>sim_canvas = first_canvas pr, sim_heap = first_grid pr,
      sim_cloth = grid_cloth (grid_size pr),
      sim_mouse = \<lparr>mouseX = 0, mouseY = 0, mouseDown = False, mouseButton = 0\<rparr>, sim_ctx = []\<rparr>"
  have st: "start pr = frame pr ?s"
    by (simp add: start_def first_grid_def split_def)
  have "sim_inv pr ?s" by (simp add: sim_inv_def)
  then show ?thesis
    by (rule frame_eq) (auto simp: st first_canvas_def intro!: reachable.initial)
qed

section \<open>No event raises\<close>

lemma run_total:
  assumes "reachable pr s"
  shows "\<exists>s'. run pr es s = Some s' \<and> reachable pr s'"
proof -
  from assms have "sim_inv pr s" by (rule reachable_inv)
  then obtain s' where "run pr es s = Some s'" using run_inv [of pr s es] by auto
  with assms show ?thesis by (auto intro: run_reachable)
qed

section \<open>The shape of the cloth never changes\<close>

text \<open>
  C11. In every reachable state the store is well formed, the cloth lists all the
  \<open>rows * columns\<close> points once, the store has evolved from the grid the
  constructor built (same objects, same pins, no constraint that the grid did
  not have), and the pinned points are exactly those of the first row.
\<close>

theorem reachable_shape:
  assumes "reachable pr s"
  shows "wf_heap (sim_heap s)
     \<and> points_count (sim_heap s) = rows pr * columns pr
     \<and> cloth_points (sim_cloth s) = [0 ..< rows pr * columns pr]
     \<and> evolves (first_grid pr) (sim_heap s)
     \<and> list_all (\<lambda>a. pinned (point_at (sim_heap s) a) = (a < columns pr)) [0 ..< rows pr * columns pr]"
proof -
  note inv = sim_invD [OF reachable_inv [OF assms]]
  have "pinned (point_at (sim_heap s) a) = (a < columns pr)" if "a < grid_size pr" for a
    using that pinned_evolves [OF inv(3), of a] by (simp add: first_grid_def pinned_grid_point)
  with inv show ?thesis
    by (simp add: grid_cloth_def grid_size_def list_all_iff)
qed

theorem reachable_shape_witness:
  "wf_heap (sim_heap (the (start example_grid)))
     \<and> points_count (sim_heap (the (start example_grid))) = 9
     \<and> cloth_points (sim_cloth (the (start example_grid))) = [0 ..< 9]
     \<and> evolves (first_grid example_grid) (sim_heap (the (start example_grid)))
     \<and> list_all (\<lambda>a. pinned (point_at (sim_heap (the (start example_grid))) a) = (a < 3)) [0 ..< 9]"
  using reachable_shape [OF start_reachable, of example_grid] by simp

section \<open>What a frame draws\<close>

text \<open>
  C20. In a reachable state an animation frame returns normally. It leaves the
  mouse and the canvas as they were; on the context it clears the whole
  canvas, then draws every constraint that is held after the update of the
  frame, each once; the store it leaves has evolved from the one it found.
\<close>

theorem frame_draws:
  assumes "reachable pr s"
  shows "\<exists>s'. step pr AnimationFrame s = Some s'
     \<and> sim_mouse s' = sim_mouse s \<and> sim_canvas s' = sim_canvas s
     \<and> evolves (sim_heap s) (sim_heap s')
     \<and> sim_ctx s' = sim_ctx s
          @ [ClearRect 0 0 (of_nat_number (canvas_width (sim_canvas s)))
                           (of_nat_number (canvas_height (sim_canvas s)))]
          @ drawn pr (sim_heap s')"
  using reachable_inv [OF assms] by (rule frame_eq) simp

theorem frame_draws_witness:
  "\<exists>s'. step example_grid AnimationFrame (the (start example_grid)) = Some s'
     \<and> sim_mouse s' = sim_mouse (the (start example_grid))
     \<and> sim_canvas s' = sim_canvas (the (start example_grid))
     \<and> evolves (sim_heap (the (start example_grid))) (sim_heap s')
     \<and> sim_ctx s' = sim_ctx (the (start example_grid))
          @ [ClearRect 0 0 (of_nat_number (canvas_width (sim_canvas (the (start example_grid)))))
                           (of_nat_number (canvas_height (sim_canvas (the (start example_grid)))))]
          @ drawn example_grid (sim_heap s')"
  by (rule frame_draws [OF start_reachable])

section \<open>The default cloth\<close>

text \<open>Where the default cloth puts the point \<open>i\<close> on a canvas as wide as the window.\<close>

lemma default_grid_x:
  assumes "i < grid_size (default_props w h)"
  shows "grid_x (default_props w h) (Some \<lparr>canvas_width = w, canvas_height = h\<rparr>) i
       = Fin (real w / 2 - 6 * real (w div 14) + 12 * real (col (default_props w h) i))"
    and "col (default_props w h) i \<le> w div 14"
proof -
  have c: "columns (default_props w h) = w div 14 + 1"
    by (simp add: default_props_def columns_def nat_add_distrib)
  then have "col (default_props w h) i < w div 14 + 1" by (simp add: col_def)
  then show "col (default_props w h) i \<le> w div 14" by simp
  show "grid_x (default_props w h) (Some \<lparr>canvas_width = w, canvas_height = h\<rparr>) i
       = Fin (real w / 2 - 6 * real (w div 14) + 12 * real (col (default_props w h) i))"
    by (simp add: grid_x_def Cloth_startX_def canvasWidth_def of_nat_number_def of_int_number_def
        default_props_def)
qed

text \<open>
  C40. With the default props, in a window \<open>w\<close> pixels wide, the cloth has 61 rows
  of \<open>w div 14 + 1\<close> points, 12 pixels apart, and it is centred inside the
  canvas: every point of the grid is built at a finite abscissa that is at
  least one fourteenth of the width away from either side.
\<close>

theorem default_props_grid:
  "rows (default_props w h) = 61 \<and> columns (default_props w h) = w div 14 + 1
   \<and> grid_size (default_props w h) = 61 * (w div 14 + 1)
   \<and> spacing (default_props w h) = Fin 12
   \<and> (\<forall>i < grid_size (default_props w h). \<exists>x.
         p_x (point_at (snd (Cloth_new (default_props w h)
               (Some \<lparr>canvas_width = w, canvas_height = h\<rparr>) empty_heap)) i) = Fin x
         \<and> real w / 14 \<le> x \<and> x \<le> 13 * real w / 14)"
proof -
  have "14 * (w div 14) \<le> w" by simp
  then have "real (14 * (w div 14)) \<le> real w" by (rule of_nat_mono)
  then have n: "14 * real (w div 14) \<le> real w" by simp
  have "\<exists>x. grid_x (default_props w h) (Some \<lparr>canvas_width = w, canvas_height = h\<rparr>) i = Fin x
      \<and> real w / 14 \<le> x \<and> x \<le> 13 * real w / 14" if "i < grid_size (default_props w h)" for i
  proof -
    from default_grid_x(2) [OF that] have "real (col (default_props w h) i) \<le> real (w div 14)"
      by simp
    with n have "real w / 14 \<le> real w / 2 - 6 * real (w div 14) + 12 * real (col (default_props w h) i)"
      "real w / 2 - 6 * real (w div 14) + 12 * real (col (default_props w h) i) \<le> 13 * real w / 14"
      by linarith+
    with default_grid_x(1) [OF that] show ?thesis by blast
  qed
  then have "\<forall>i < grid_size (default_props w h). \<exists>x.
      p_x (point_at (snd (Cloth_new (default_props w h)
            (Some \<lparr>canvas_width = w, canvas_height = h\<rparr>) empty_heap)) i) = Fin x
      \<and> real w / 14 \<le> x \<and> x \<le> 13 * real w / 14"
    by (simp add: grid_point_def)
  then show ?thesis
    by (simp add: default_props_def rows_def columns_def grid_size_def nat_add_distrib)
qed

theorem default_props_grid_witness:
  "\<exists>x. p_x (point_at (snd (Cloth_new (default_props 1400 900)
          (Some \<lparr>canvas_width = 1400, canvas_height = 900\<rparr>) empty_heap)) 0) = Fin x
     \<and> 100 \<le> x \<and> x \<le> 1300"
  using default_props_grid [of 1400 900]
  by (simp add: grid_size_def rows_def columns_def default_props_def)

section \<open>The pointer as a state machine\<close>

text \<open>
  What the four mouse variables mean to the simulation: the pointer is idle, or
  held with the primary button (drag), with the secondary button (cut), or with
  another button, which the simulation ignores. The handlers implement the
  machine \<open>pointer_step\<close>: a press selects the state by the button, a release
  returns to idle, and nothing else changes the state.
\<close>

datatype pointer = Idle | Drag | Cut | Other

definition pointer_of :: "mouse \<Rightarrow> pointer" where
  "pointer_of ms =
     (if \<not> mouseDown ms then Idle
      else if mouseButton ms = 0 then Drag
      else if mouseButton ms = 2 then Cut
      else Other)"

fun pointer_step :: "event \<Rightarrow> pointer \<Rightarrow> pointer" where
  "pointer_step (MouseDown r e) q = (if button e = 0 then Drag else if button e = 2 then Cut else Other)"
| "pointer_step MouseUp q = Idle"
| "pointer_step e q = q"

lemma frame_fields:
  assumes "frame pr s = Some t"
  shows "sim_canvas t = sim_canvas s" and "sim_mouse t = sim_mouse s" and "sim_cloth t = sim_cloth s"
  using assms by (auto simp: frame_def Let_def split: Option.bind_splits)

lemma step_pointer:
  assumes "step pr e s = Some s'"
  shows "pointer_of (sim_mouse s') = pointer_step e (pointer_of (sim_mouse s))"
  using assms
  by (cases e)
    (auto simp: pointer_of_def handleMouseDown_def handleMouseMove_def handleMouseUp_def
      dest: frame_fields(2))

lemma run_pointer:
  assumes "run pr es s = Some s'"
  shows "pointer_of (sim_mouse s') = fold pointer_step es (pointer_of (sim_mouse s))"
  using assms
proof (induction es arbitrary: s)
  case Nil
  then show ?case by (simp add: run_def)
next
  case (Cons e es)
  then obtain t where t: "step pr e s = Some t" "run pr es t = Some s'"
    by (auto simp: run_def split: option.splits)
  from Cons.IH [OF t(2)] step_pointer [OF t(1)] show ?case by simp
qed

lemma pointer_acts:
  "dragged pr ms p \<Longrightarrow> pointer_of ms = Drag"
  "cutting pr ms p \<Longrightarrow> pointer_of ms = Cut"
  by (auto simp: pointer_of_def dragged_def cutting_def)

lemma pointer_idle:
  assumes "pointer_of ms = Idle \<or> pointer_of ms = Other" and "a < points_count h"
  shows "apply_mouse pr ms a h = Some h"
proof -
  from assms(1) have "\<not> dragged pr ms p \<and> \<not> cutting pr ms p" for p
    using pointer_acts [of pr ms p] by auto
  with assms(2) show ?thesis by (simp add: apply_mouse_eq)
qed

end
