(* ===== verification/Lifecycle.thy ===== *)
theory Lifecycle
  imports Simulation
begin

text \<open>
  The component around the simulation (lines 31 to 56 and 219 to 296 of
  \<^verbatim>\<open>src/src/ClothSimulation.tsx\<close>): the state \<^verbatim>\<open>canvasSize\<close>, the guards at the head
  of the effect, \<^verbatim>\<open>clothSettings\<close>, the registration of the listeners, the cleanup
  the effect returns, the dependency list and the canvas element that is
  rendered. React and the browser are the environment: they render, run the
  effect and its cleanup, deliver the events to the listeners that are
  registered and call the frame callbacks that were requested; the last
  section but two models what they do. The theory ends with the equations
  that characterise the effect and its cleanup; theory \<open>Page\<close> builds the
  invariant of the page on them.
\<close>

section \<open>Listeners\<close>

datatype target = Window | Canvas

record listener =
  l_target :: target
  l_type :: string
  l_owner :: nat

text \<open>
  The two calls of the DOM. A handler is a closure of one run of the effect;
  \<open>l_owner\<close> is that run. Adding a listener that is registered already does
  nothing.
\<close>

definition addEventListener :: "target \<Rightarrow> string \<Rightarrow> nat \<Rightarrow> listener list \<Rightarrow> listener list" where
  "addEventListener t ty i ls =
     (let l = \<lparr>l_target = t, l_type = ty, l_owner = i\<rparr> in if l \<in> set ls then ls else ls @ [l])"

definition removeEventListener :: "target \<Rightarrow> string \<Rightarrow> nat \<Rightarrow> listener list \<Rightarrow> listener list" where
  "removeEventListener t ty i ls = removeAll \<lparr>l_target = t, l_type = ty, l_owner = i\<rparr> ls"

section \<open>The component\<close>

text \<open>What one run of the effect captures: the props it ran with and its variables.\<close>

record closure =
  cl_props :: props
  cl_sim :: sim

text \<open>
  The component instance and what it touches of the page: the props of the
  last render, the state \<^verbatim>\<open>canvasSize\<close>, the attributes of the canvas element as
  last rendered, the 2D context, the listeners registered, the closures whose
  frame callback the browser holds, and the run of the effect whose cleanup
  React holds. \<open>pg_mounted\<close> is false once the instance has been unmounted.
\<close>

record page =
  pg_mounted :: bool
  pg_props :: "props option"
  pg_canvasSize :: canvas
  pg_canvas :: canvas
  pg_ctx :: ctx
  pg_listeners :: "listener list"
  pg_loops :: "closure list"
  pg_cleanup :: "nat option"

definition blank_page :: page where
  "blank_page = \<lparr>pg_mounted = True, pg_props = None, pg_canvasSize = \<lparr>canvas_width = 0, canvas_height = 0\<rparr>,
     pg_canvas = \<lparr>canvas_width = 0, canvas_height = 0\<rparr>, pg_ctx = [], pg_listeners = [],
     pg_loops = [], pg_cleanup = None\<rparr>"

text \<open>All entries of \<^verbatim>\<open>clothSettings\<close>, as the effect builds it.\<close>

record settings =
  cs_physicsAccuracy :: nat
  cs_mouseInfluence :: number
  cs_mouseCut :: number
  cs_gravity :: number
  cs_clothHeight :: int
  cs_clothWidth :: int
  cs_startY :: number
  cs_spacing :: number
  cs_tearDistance :: number

definition clothSettings :: "props \<Rightarrow> settings" where
  "clothSettings pr =
     \<lparr>cs_physicsAccuracy = 3, cs_mouseInfluence = mouseInfluence pr, cs_mouseCut = mouseCut pr,
      cs_gravity = gravity pr, cs_clothHeight = clothHeight pr, cs_clothWidth = clothWidth pr,
      cs_startY = 10, cs_spacing = spacing pr, cs_tearDistance = tearDistance pr\<rparr>"

text \<open>
  The classes read two entries of it, \<^verbatim>\<open>startY\<close> and \<^verbatim>\<open>physicsAccuracy\<close>; they are
  the constants of theory \<open>Store\<close>. Every other value they read is the prop
  itself.
\<close>

lemma clothSettings_read:
  "cs_physicsAccuracy (clothSettings pr) = physicsAccuracy" "cs_startY (clothSettings pr) = startY"
  by (simp_all add: clothSettings_def physicsAccuracy_def startY_def)

text \<open>
  The parts of the effect, for the run \<open>i\<close>: the call of \<^verbatim>\<open>resizeCanvas\<close> with the
  registration of the listener of the window, and the registration of the four
  listeners of the canvas. The two numbers are the inner size of the window.
\<close>

definition listen_window :: "props \<Rightarrow> nat \<Rightarrow> nat \<Rightarrow> nat \<Rightarrow> page \<Rightarrow> page" where
  "listen_window pr i innerWidth innerHeight pg =
     (let pg = pg\<lparr>pg_canvasSize := resizeCanvas pr innerWidth innerHeight\<rparr>
      in pg\<lparr>pg_listeners := addEventListener Window ''resize'' i (pg_listeners pg)\<rparr>)"

definition listen_canvas :: "nat \<Rightarrow> page \<Rightarrow> page" where
  "listen_canvas i pg =
     (let pg = pg\<lparr>pg_listeners := addEventListener Canvas ''mousedown'' i (pg_listeners pg)\<rparr>;
          pg = pg\<lparr>pg_listeners := addEventListener Canvas ''mousemove'' i (pg_listeners pg)\<rparr>;
          pg = pg\<lparr>pg_listeners := addEventListener Canvas ''mouseup'' i (pg_listeners pg)\<rparr>
      in pg\<lparr>pg_listeners := addEventListener Canvas ''contextmenu'' i (pg_listeners pg)\<rparr>)"

text \<open>
  The effect. \<open>has_canvas\<close> and \<open>has_ctx\<close> say whether \<^verbatim>\<open>canvasRef.current\<close> and
  \<^verbatim>\<open>getContext("2d")\<close> are there: when one is missing the effect returns at once
  and hands React no cleanup. Otherwise it runs its body in the order of the
  source and returns the cleanup of this run. The run is numbered by the
  position its closure gets in \<open>pg_loops\<close>; the first frame is the call
  \<^verbatim>\<open>update()\<close>, which requests the next one.
\<close>

definition effect :: "props \<Rightarrow> bool \<Rightarrow> bool \<Rightarrow> nat \<Rightarrow> nat \<Rightarrow> page \<Rightarrow> page option" where
  "effect pr has_canvas has_ctx innerWidth innerHeight pg =
     (if \<not> has_canvas then Some (pg\<lparr>pg_cleanup := None\<rparr>)
      else if \<not> has_ctx then Some (pg\<lparr>pg_cleanup := None\<rparr>)
      else do {
        let i = length (pg_loops pg);
        let ms = \<lparr>mouseX = 0, mouseY = 0, mouseDown = False, mouseButton = 0\<rparr>;
        let pg = listen_window pr i innerWidth innerHeight pg;
        let (cloth, h) = Cloth_new pr (Some (pg_canvas pg)) empty_heap;
        let pg = listen_canvas i pg;
        s \<leftarrow> frame pr \<lparr>sim_canvas = pg_canvas pg, sim_heap = h, sim_cloth = cloth,
                        sim_mouse = ms, sim_ctx = pg_ctx pg\<rparr>;
        Some (pg\<lparr>pg_ctx := sim_ctx s, pg_loops := pg_loops pg @ [\<lparr>cl_props = pr, cl_sim = s\<rparr>],
                 pg_cleanup := Some i\<rparr>)
      })"

text \<open>The function the effect returns, for the run \<open>i\<close>.\<close>

definition cleanup :: "nat \<Rightarrow> page \<Rightarrow> page" where
  "cleanup i pg =
     (let pg = pg\<lparr>pg_listeners := removeEventListener Window ''resize'' i (pg_listeners pg)\<rparr>;
          pg = pg\<lparr>pg_listeners := removeEventListener Canvas ''mousedown'' i (pg_listeners pg)\<rparr>;
          pg = pg\<lparr>pg_listeners := removeEventListener Canvas ''mousemove'' i (pg_listeners pg)\<rparr>;
          pg = pg\<lparr>pg_listeners := removeEventListener Canvas ''mouseup'' i (pg_listeners pg)\<rparr>;
          pg = pg\<lparr>pg_listeners := removeEventListener Canvas ''contextmenu'' i (pg_listeners pg)\<rparr>
      in pg)"

text \<open>The dependency list of the effect: the values React compares between renders.\<close>

definition deps ::
  "props \<Rightarrow> nat \<times> nat \<times> int \<times> int \<times> number \<times> number \<times> number \<times> number \<times> number \<times> string" where
  "deps pr = (width pr, height pr, clothWidth pr, clothHeight pr, spacing pr, gravity pr,
     mouseInfluence pr, mouseCut pr, tearDistance pr, lineColor pr)"

text \<open>The canvas element the component returns.\<close>

record element =
  el_width :: nat
  el_height :: nat
  el_style :: "(string \<times> string) list"

definition render :: "props \<Rightarrow> canvas \<Rightarrow> element" where
  "render pr canvasSize =
     \<lparr>el_width = canvas_width canvasSize, el_height = canvas_height canvasSize,
      el_style = [(''position'', ''fixed''), (''top'', ''0''), (''left'', ''0''),
        (''width'', ''100%''), (''height'', ''100%''), (''backgroundColor'', backgroundColor pr),
        (''zIndex'', ''-20''), (''pointerEvents'', ''auto'')]\<rparr>"

section \<open>React and the browser\<close>

text \<open>
  A render gives the canvas element the attributes of \<^verbatim>\<open>canvasSize\<close> (on the first
  render the state is initialised from the props); when it is the first or a
  dependency has changed, React runs the cleanup it holds and then the effect.
  An instance that has been unmounted is not rendered again.
\<close>

definition commit :: "props \<Rightarrow> page \<Rightarrow> page" where
  "commit pr pg =
     (let pg = (if pg_props pg = None then pg\<lparr>pg_canvasSize := first_canvas pr\<rparr> else pg);
          el = render pr (pg_canvasSize pg)
      in pg\<lparr>pg_canvas := \<lparr>canvas_width = el_width el, canvas_height = el_height el\<rparr>\<rparr>)"

definition run_cleanup :: "page \<Rightarrow> page" where
  "run_cleanup pg = (case pg_cleanup pg of None \<Rightarrow> pg | Some i \<Rightarrow> (cleanup i pg)\<lparr>pg_cleanup := None\<rparr>)"

definition rerender :: "props \<Rightarrow> bool \<Rightarrow> bool \<Rightarrow> nat \<Rightarrow> nat \<Rightarrow> page \<Rightarrow> page option" where
  "rerender pr has_canvas has_ctx innerWidth innerHeight pg =
     (if \<not> pg_mounted pg then Some pg
      else
        let changed = (case pg_props pg of None \<Rightarrow> True | Some old \<Rightarrow> deps old \<noteq> deps pr);
            pg = (commit pr pg)\<lparr>pg_props := Some pr\<rparr>
        in if changed then effect pr has_canvas has_ctx innerWidth innerHeight (run_cleanup pg)
           else Some pg)"

definition unmount :: "page \<Rightarrow> page" where
  "unmount pg = (run_cleanup pg)\<lparr>pg_mounted := False\<rparr>"

text \<open>An event of the DOM goes to the listeners registered for its target and type.\<close>

fun event_key :: "event \<Rightarrow> (target \<times> string) option" where
  "event_key (MouseDown r e) = Some (Canvas, ''mousedown'')"
| "event_key (MouseMove r e) = Some (Canvas, ''mousemove'')"
| "event_key MouseUp = Some (Canvas, ''mouseup'')"
| "event_key ContextMenu = Some (Canvas, ''contextmenu'')"
| "event_key (Resize w h) = Some (Window, ''resize'')"
| "event_key AnimationFrame = None"

definition listening :: "event \<Rightarrow> listener \<Rightarrow> bool" where
  "listening e l \<longleftrightarrow> event_key e = Some (l_target l, l_type l)"

text \<open>
  The handler of the run \<open>i\<close>: \<^verbatim>\<open>resizeCanvas\<close> sets the state of the component, the
  mouse handlers write the variables of their closure.
\<close>

definition handler :: "event \<Rightarrow> nat \<Rightarrow> page \<Rightarrow> page option" where
  "handler e i pg = do {
     cl \<leftarrow> array_get (pg_loops pg) (int i);
     case e of
       Resize w h \<Rightarrow> Some (pg\<lparr>pg_canvasSize := resizeCanvas (cl_props cl) w h\<rparr>)
     | _ \<Rightarrow> do {
         s \<leftarrow> step (cl_props cl) e (cl_sim cl);
         Some (pg\<lparr>pg_loops := (pg_loops pg)[i := cl\<lparr>cl_sim := s\<rparr>]\<rparr>)
       }
   }"

definition dispatch :: "event \<Rightarrow> page \<Rightarrow> page option" where
  "dispatch e pg = fold_opt (\<lambda>l. handler e (l_owner l)) (filter (listening e) (pg_listeners pg)) pg"

text \<open>
  An animation frame: the browser calls every frame callback it holds, in the
  order in which they were requested; each draws on the one context and
  requests the next frame.
\<close>

definition tick_one :: "nat \<Rightarrow> page \<Rightarrow> page option" where
  "tick_one i pg = do {
     cl \<leftarrow> array_get (pg_loops pg) (int i);
     s \<leftarrow> frame (cl_props cl) ((cl_sim cl)\<lparr>sim_canvas := pg_canvas pg, sim_ctx := pg_ctx pg\<rparr>);
     Some (pg\<lparr>pg_ctx := sim_ctx s, pg_loops := (pg_loops pg)[i := cl\<lparr>cl_sim := s\<rparr>]\<rparr>)
   }"

definition tick :: "page \<Rightarrow> page option" where
  "tick pg = fold_opt tick_one [0 ..< length (pg_loops pg)] pg"

datatype action =
    Render props bool bool nat nat
  | Unmount
  | Dom event
  | Tick

fun react :: "action \<Rightarrow> page \<Rightarrow> page option" where
  "react (Render pr has_canvas has_ctx w h) pg = rerender pr has_canvas has_ctx w h pg"
| "react Unmount pg = Some (unmount pg)"
| "react (Dom e) pg = dispatch e pg"
| "react Tick pg = tick pg"

inductive page_reachable :: "page \<Rightarrow> bool" where
  blank: "page_reachable blank_page"
| act: "page_reachable pg \<Longrightarrow> react a pg = Some pg' \<Longrightarrow> page_reachable pg'"

definition session :: "action list \<Rightarrow> page option" where
  "session as = fold_opt react as blank_page"

section \<open>One frame of a grid\<close>

text \<open>
  A frame on a well-formed store whose cloth lists every point returns, clears
  the canvas and draws; this needs less than the invariant of the event loop,
  which also fixes the canvas the grid was built for.
\<close>

lemma frame_grid:
  assumes "wf_heap (sim_heap s)" and "sim_cloth s = grid_cloth (points_count (sim_heap s))"
  obtains h where "wf_heap h" and "evolves (sim_heap s) h"
    and "frame pr s = Some (s\<lparr>sim_heap := h,
        sim_ctx := sim_ctx s @ [ClearRect 0 0 (of_nat_number (canvas_width (sim_canvas s)))
                                           (of_nat_number (canvas_height (sim_canvas s)))]
                     @ drawn pr h\<rparr>)"
proof -
  from assms have "valid_cloth (sim_cloth s) (sim_heap s)" by simp
  from Cloth_update_total [OF assms(1) this, of pr "Some (sim_canvas s)" "sim_mouse s"] obtain h
    where h: "Cloth_update pr (Some (sim_canvas s)) (sim_mouse s) (sim_cloth s) (sim_heap s) = Some h"
      "wf_heap h"
    by blast
  from h(1) have ev: "evolves (sim_heap s) h" by (rule Cloth_update_evolves)
  with assms(2) have "sim_cloth s = grid_cloth (points_count h)"
    by (simp add: evolvesD)
  with h(2) have "Cloth_draw pr (sim_cloth s) h cx = Some (cx @ drawn pr h)" for cx
    by (simp add: Cloth_draw_all)
  with h(1) have "frame pr s = Some (s\<lparr>sim_heap := h,
      sim_ctx := sim_ctx s @ [ClearRect 0 0 (of_nat_number (canvas_width (sim_canvas s)))
                                         (of_nat_number (canvas_height (sim_canvas s)))]
                   @ drawn pr h\<rparr>)"
    by (simp add: frame_def)
  with h(2) ev show thesis by (rule that)
qed

section \<open>Listeners of one run\<close>

text \<open>The five listeners of the run \<open>i\<close>, in the order of their registration.\<close>

definition listeners_of :: "nat \<Rightarrow> listener list" where
  "listeners_of i =
     [\<lparr>l_target = Window, l_type = ''resize'', l_owner = i\<rparr>,
      \<lparr>l_target = Canvas, l_type = ''mousedown'', l_owner = i\<rparr>,
      \<lparr>l_target = Canvas, l_type = ''mousemove'', l_owner = i\<rparr>,
      \<lparr>l_target = Canvas, l_type = ''mouseup'', l_owner = i\<rparr>,
      \<lparr>l_target = Canvas, l_type = ''contextmenu'', l_owner = i\<rparr>]"

definition owned :: "nat \<Rightarrow> listener list \<Rightarrow> bool" where
  "owned i ls \<longleftrightarrow> list_ex (\<lambda>l. l_owner l = i) ls"

lemma owned_iff: "owned i ls \<longleftrightarrow> (\<exists>l \<in> set ls. l_owner l = i)"
  by (simp add: owned_def list_ex_iff)

lemma owned_simps [simp]: "\<not> owned i []" "owned i (listeners_of j) \<longleftrightarrow> i = j"
  by (auto simp: owned_iff listeners_of_def)

lemma add_fresh:
  "\<not> owned i ls \<Longrightarrow> addEventListener t ty i (ls @ ks) =
     (if \<lparr>l_target = t, l_type = ty, l_owner = i\<rparr> \<in> set ks then ls @ ks
      else ls @ ks @ [\<lparr>l_target = t, l_type = ty, l_owner = i\<rparr>])"
  by (auto simp: addEventListener_def owned_iff Let_def)

lemma cleanup_eq:
  "cleanup i pg = pg\<lparr>pg_listeners := filter (\<lambda>l. l \<notin> set (listeners_of i)) (pg_listeners pg)\<rparr>"
proof -
  have "removeEventListener t ty i ls = filter (\<lambda>l. l \<noteq> \<lparr>l_target = t, l_type = ty, l_owner = i\<rparr>) ls"
    for t ty ls
    by (induction ls) (auto simp: removeEventListener_def)
  then show ?thesis
    by (simp add: cleanup_def listeners_of_def conj_commute conj_left_commute)
qed

section \<open>The effect and its cleanup\<close>

text \<open>
  What holds of every closure: its store is well formed and its cloth lists
  the points of the grid of its props. \<open>clear\<close> is the call of \<^verbatim>\<open>clearRect\<close> a frame
  makes.
\<close>

definition closure_inv :: "closure \<Rightarrow> bool" where
  "closure_inv cl \<longleftrightarrow> wf_heap (sim_heap (cl_sim cl))
     \<and> sim_cloth (cl_sim cl) = grid_cloth (grid_size (cl_props cl))
     \<and> points_count (sim_heap (cl_sim cl)) = grid_size (cl_props cl)"

definition clear :: "canvas \<Rightarrow> draw_op" where
  "clear cv = ClearRect 0 0 (of_nat_number (canvas_width cv)) (of_nat_number (canvas_height cv))"

lemma closure_frame:
  assumes "closure_inv cl"
  obtains h where "wf_heap h" and "evolves (sim_heap (cl_sim cl)) h"
    and "frame (cl_props cl) ((cl_sim cl)\<lparr>sim_canvas := cv, sim_ctx := cx\<rparr>)
       = Some ((cl_sim cl)\<lparr>sim_canvas := cv, sim_heap := h,
           sim_ctx := cx @ clear cv # drawn (cl_props cl) h\<rparr>)"
proof -
  from assms have "wf_heap (sim_heap ((cl_sim cl)\<lparr>sim_canvas := cv, sim_ctx := cx\<rparr>))"
    "sim_cloth ((cl_sim cl)\<lparr>sim_canvas := cv, sim_ctx := cx\<rparr>)
       = grid_cloth (points_count (sim_heap ((cl_sim cl)\<lparr>sim_canvas := cv, sim_ctx := cx\<rparr>)))"
    by (simp_all add: closure_inv_def)
  then obtain h where "wf_heap h" "evolves (sim_heap (cl_sim cl)) h"
    "frame (cl_props cl) ((cl_sim cl)\<lparr>sim_canvas := cv, sim_ctx := cx\<rparr>)
       = Some ((cl_sim cl)\<lparr>sim_canvas := cv, sim_heap := h,
           sim_ctx := cx @ clear cv # drawn (cl_props cl) h\<rparr>)"
    by (rule frame_grid [where pr = "cl_props cl"]) (simp add: clear_def)
  then show thesis by (rule that)
qed

lemma closure_inv_heap:
  "closure_inv cl \<Longrightarrow> wf_heap h \<Longrightarrow> evolves (sim_heap (cl_sim cl)) h
    \<Longrightarrow> closure_inv (cl\<lparr>cl_sim := (cl_sim cl)\<lparr>sim_canvas := cv, sim_heap := h, sim_ctx := cx\<rparr>\<rparr>)"
  by (simp add: closure_inv_def evolvesD)

lemma closure_inv_step:
  assumes "closure_inv cl" and "e \<noteq> AnimationFrame"
  shows "\<exists>s. step (cl_props cl) e (cl_sim cl) = Some s \<and> closure_inv (cl\<lparr>cl_sim := s\<rparr>)"
  using assms by (cases e) (simp_all add: closure_inv_def)

text \<open>The closure a run of the effect starts with, before its first frame.\<close>

definition fresh_sim :: "props \<Rightarrow> canvas \<Rightarrow> ctx \<Rightarrow> sim" where
  "fresh_sim pr cv cx = \<lparr>sim_canvas = cv, sim_heap = grid_heap pr (Some cv) (grid_size pr),
     sim_cloth = grid_cloth (grid_size pr),
     sim_mouse = \<lparr>mouseX = 0, mouseY = 0, mouseDown = False, mouseButton = 0\<rparr>, sim_ctx = cx\<rparr>"

lemma fresh_closure_inv: "closure_inv \<lparr>cl_props = pr, cl_sim = fresh_sim pr cv cx\<rparr>"
  by (simp add: closure_inv_def fresh_sim_def grid_heap_wf)

text \<open>
  The effect, when the canvas and its context are there and no listener of the
  new run is registered yet: it sets \<^verbatim>\<open>canvasSize\<close>, appends the five listeners
  and one closure, whose store has evolved from the grid by one frame, and
  draws that frame.
\<close>

lemma effect_eq:
  assumes "\<not> owned (length (pg_loops pg)) (pg_listeners pg)"
  obtains h where "wf_heap h" and "evolves (grid_heap pr (Some (pg_canvas pg)) (grid_size pr)) h"
    and "frame pr (fresh_sim pr (pg_canvas pg) (pg_ctx pg))
       = Some ((fresh_sim pr (pg_canvas pg) (pg_ctx pg))\<lparr>sim_heap := h,
           sim_ctx := pg_ctx pg @ clear (pg_canvas pg) # drawn pr h\<rparr>)"
    and "effect pr True True w ht pg = Some (pg\<lparr>pg_canvasSize := resizeCanvas pr w ht,
        pg_ctx := pg_ctx pg @ clear (pg_canvas pg) # drawn pr h,
        pg_listeners := pg_listeners pg @ listeners_of (length (pg_loops pg)),
        pg_loops := pg_loops pg @ [\<lparr>cl_props = pr, cl_sim = (fresh_sim pr (pg_canvas pg) (pg_ctx pg))
          \<lparr>sim_heap := h, sim_ctx := pg_ctx pg @ clear (pg_canvas pg) # drawn pr h\<rparr>\<rparr>],
        pg_cleanup := Some (length (pg_loops pg))\<rparr>)"
proof -
  let ?cl = "\<lparr>cl_props = pr, cl_sim = fresh_sim pr (pg_canvas pg) (pg_ctx pg)\<rparr>"
  obtain h where h: "wf_heap h" "evolves (grid_heap pr (Some (pg_canvas pg)) (grid_size pr)) h"
    "frame pr (fresh_sim pr (pg_canvas pg) (pg_ctx pg))
       = Some ((fresh_sim pr (pg_canvas pg) (pg_ctx pg))\<lparr>sim_heap := h,
           sim_ctx := pg_ctx pg @ clear (pg_canvas pg) # drawn pr h\<rparr>)"
    by (rule closure_frame [OF fresh_closure_inv [of pr "pg_canvas pg" "pg_ctx pg"],
          where cv = "pg_canvas pg" and cx = "pg_ctx pg"])
      (simp add: fresh_sim_def)
  have ls: "addEventListener Canvas ''contextmenu'' i (addEventListener Canvas ''mouseup'' i
      (addEventListener Canvas ''mousemove'' i (addEventListener Canvas ''mousedown'' i
      (addEventListener Window ''resize'' i ls)))) = ls @ listeners_of i" if "\<not> owned i ls" for i ls
    using add_fresh [OF that, of _ _ "[]"] add_fresh [OF that]
    by (simp add: listeners_of_def)
  have "Cloth_new pr (Some (pg_canvas pg)) empty_heap
      = (grid_cloth (grid_size pr), grid_heap pr (Some (pg_canvas pg)) (grid_size pr))"
    by (simp add: prod_eq_iff)
  with h(3) have "effect pr True True w ht pg = Some (pg\<lparr>pg_canvasSize := resizeCanvas pr w ht,
        pg_ctx := pg_ctx pg @ clear (pg_canvas pg) # drawn pr h,
        pg_listeners := pg_listeners pg @ listeners_of (length (pg_loops pg)),
        pg_loops := pg_loops pg @ [\<lparr>cl_props = pr, cl_sim = (fresh_sim pr (pg_canvas pg) (pg_ctx pg))
          \<lparr>sim_heap := h, sim_ctx := pg_ctx pg @ clear (pg_canvas pg) # drawn pr h\<rparr>\<rparr>],
        pg_cleanup := Some (length (pg_loops pg))\<rparr>)"
    by (simp add: effect_def listen_window_def listen_canvas_def ls [OF assms] fresh_sim_def Let_def)
  with h show thesis by (rule that)
qed

lemma effect_guard:
  "\<not> (has_canvas \<and> has_ctx) \<Longrightarrow> effect pr has_canvas has_ctx w ht pg = Some (pg\<lparr>pg_cleanup := None\<rparr>)"
  by (auto simp: effect_def)

lemma listeners_of_owner: "l \<in> set (listeners_of i) \<Longrightarrow> l_owner l = i"
  by (auto simp: listeners_of_def)

lemma cleanup_appended:
  "\<not> owned i ls \<Longrightarrow> pg_listeners pg = ls @ listeners_of i \<Longrightarrow> cleanup i pg = pg\<lparr>pg_listeners := ls\<rparr>"
proof -
  assume fresh: "\<not> owned i ls" and ls: "pg_listeners pg = ls @ listeners_of i"
  from fresh have "filter (\<lambda>l. l \<notin> set (listeners_of i)) ls = ls"
    unfolding filter_id_conv owned_iff by (blast dest: listeners_of_owner)
  then show ?thesis by (simp add: cleanup_eq ls)
qed

end
