(* ===== verification/Page.thy ===== *)
theory Page
  imports Lifecycle
begin

text \<open>
  The states the component of theory \<open>Lifecycle\<close> goes through, whatever React
  and the browser do: the invariant \<open>page_inv\<close>, that every action is defined in
  a state that satisfies it and leads to one that does, and what follows: no
  sequence of renders, events and frames raises, the listeners registered are
  those of the last run of the effect, the cleanup removes what the effect
  added, and the frame callbacks the effect started are never taken back. The
  last section relates a page that was mounted once to the event loop of
  theory \<open>Simulation\<close>.
\<close>

section \<open>The invariant of the page\<close>

text \<open>
  Every closure satisfies \<open>closure_inv\<close>; when React holds a cleanup, the instance
  is mounted, the cleanup is that of the newest closure and the listeners
  registered are the five of that run; when it holds none, no listener is
  registered.
\<close>

definition page_inv :: "page \<Rightarrow> bool" where
  "page_inv pg \<longleftrightarrow> list_all closure_inv (pg_loops pg)
     \<and> (case pg_cleanup pg of None \<Rightarrow> pg_listeners pg = []
         | Some i \<Rightarrow> pg_listeners pg = listeners_of i \<and> Suc i = length (pg_loops pg)
             \<and> pg_mounted pg)"

lemma page_inv_blank: "page_inv blank_page"
  by (simp add: page_inv_def blank_page_def)

lemma page_inv_closure: "page_inv pg \<Longrightarrow> i < length (pg_loops pg) \<Longrightarrow> closure_inv (pg_loops pg ! i)"
  by (simp add: page_inv_def list_all_length)

lemma page_inv_owner:
  "page_inv pg \<Longrightarrow> l \<in> set (pg_listeners pg) \<Longrightarrow> l_owner l < length (pg_loops pg)"
  by (auto simp: page_inv_def split: option.splits dest: listeners_of_owner)

lemma run_cleanup_eq:
  "page_inv pg \<Longrightarrow> run_cleanup pg = pg\<lparr>pg_listeners := [], pg_cleanup := None\<rparr>"
  using cleanup_appended [of _ "[]" pg]
  by (auto simp: run_cleanup_def page_inv_def split: option.splits)

lemma commit_fields [simp]:
  "pg_loops (commit pr pg) = pg_loops pg" "pg_listeners (commit pr pg) = pg_listeners pg"
  "pg_cleanup (commit pr pg) = pg_cleanup pg" "pg_ctx (commit pr pg) = pg_ctx pg"
  "pg_mounted (commit pr pg) = pg_mounted pg" "pg_props (commit pr pg) = pg_props pg"
  by (simp_all add: commit_def Let_def)

lemma page_inv_fields [simp]:
  "page_inv (pg\<lparr>pg_props := p\<rparr>) = page_inv pg"
  "page_inv (pg\<lparr>pg_canvas := cv\<rparr>) = page_inv pg"
  "page_inv (pg\<lparr>pg_canvasSize := cv\<rparr>) = page_inv pg"
  "page_inv (pg\<lparr>pg_ctx := cx\<rparr>) = page_inv pg"
  "page_inv (commit pr pg) = page_inv pg"
  by (simp_all add: page_inv_def split: option.split)

lemma page_inv_update:
  "page_inv pg \<Longrightarrow> closure_inv cl
    \<Longrightarrow> page_inv (pg\<lparr>pg_ctx := cx, pg_loops := (pg_loops pg)[i := cl]\<rparr>)"
  by (auto simp: page_inv_def list_all_iff split: option.splits
      dest!: subsetD [OF set_update_subset_insert])

lemma effect_inv:
  assumes "page_inv pg" and "pg_mounted pg"
  shows "\<exists>pg'. effect pr has_canvas has_ctx w ht (run_cleanup pg) = Some pg' \<and> page_inv pg'
    \<and> pg_mounted pg' = pg_mounted pg
    \<and> length (pg_loops pg') = length (pg_loops pg) + (if has_canvas \<and> has_ctx then 1 else 0)"
proof (cases "has_canvas \<and> has_ctx")
  case True
  let ?pg = "pg\<lparr>pg_listeners := [], pg_cleanup := None\<rparr>"
  have "\<not> owned (length (pg_loops ?pg)) (pg_listeners ?pg)" by simp
  then obtain h where h: "wf_heap h"
    "evolves (grid_heap pr (Some (pg_canvas ?pg)) (grid_size pr)) h"
    "frame pr (fresh_sim pr (pg_canvas ?pg) (pg_ctx ?pg))
       = Some ((fresh_sim pr (pg_canvas ?pg) (pg_ctx ?pg))\<lparr>sim_heap := h,
           sim_ctx := pg_ctx ?pg @ clear (pg_canvas ?pg) # drawn pr h\<rparr>)"
    and eq: "effect pr True True w ht ?pg = Some (?pg\<lparr>pg_canvasSize := resizeCanvas pr w ht,
        pg_ctx := pg_ctx ?pg @ clear (pg_canvas ?pg) # drawn pr h,
        pg_listeners := pg_listeners ?pg @ listeners_of (length (pg_loops ?pg)),
        pg_loops := pg_loops ?pg @ [\<lparr>cl_props = pr, cl_sim = (fresh_sim pr (pg_canvas ?pg) (pg_ctx ?pg))
          \<lparr>sim_heap := h, sim_ctx := pg_ctx ?pg @ clear (pg_canvas ?pg) # drawn pr h\<rparr>\<rparr>],
        pg_cleanup := Some (length (pg_loops ?pg))\<rparr>)"
    by (rule effect_eq)
  from h have "closure_inv \<lparr>cl_props = pr, cl_sim = (fresh_sim pr (pg_canvas ?pg) (pg_ctx ?pg))
          \<lparr>sim_heap := h, sim_ctx := pg_ctx ?pg @ clear (pg_canvas ?pg) # drawn pr h\<rparr>\<rparr>"
    using evolvesD(1) [OF h(2)] by (simp add: closure_inv_def fresh_sim_def)
  with assms True show ?thesis
    by (simp add: run_cleanup_eq eq page_inv_def)
next
  case False
  with assms show ?thesis
    by (simp add: run_cleanup_eq effect_guard page_inv_def)
qed

lemma rerender_inv:
  assumes "page_inv pg"
  shows "\<exists>pg'. rerender pr has_canvas has_ctx w ht pg = Some pg' \<and> page_inv pg'
    \<and> length (pg_loops pg) \<le> length (pg_loops pg')"
proof -
  from assms have "page_inv ((commit pr pg)\<lparr>pg_props := Some pr\<rparr>)" by simp
  from effect_inv [OF this, of pr has_canvas has_ctx w ht] assms show ?thesis
    by (cases "pg_mounted pg") (auto simp: rerender_def Let_def)
qed

section \<open>Events and frames\<close>

text \<open>What a handler or a frame leaves as it is.\<close>

definition same_wiring :: "page \<Rightarrow> page \<Rightarrow> bool" where
  "same_wiring pg pg' \<longleftrightarrow> pg_listeners pg' = pg_listeners pg \<and> pg_cleanup pg' = pg_cleanup pg
     \<and> length (pg_loops pg') = length (pg_loops pg) \<and> pg_mounted pg' = pg_mounted pg
     \<and> pg_props pg' = pg_props pg \<and> pg_canvas pg' = pg_canvas pg
     \<and> map cl_props (pg_loops pg') = map cl_props (pg_loops pg)"

lemma same_wiring_refl [simp]: "same_wiring pg pg"
  by (simp add: same_wiring_def)

lemma same_wiring_trans: "same_wiring pg pg' \<Longrightarrow> same_wiring pg' pg'' \<Longrightarrow> same_wiring pg pg''"
  by (simp add: same_wiring_def)

lemma same_wiring_update:
  "i < length (pg_loops pg) \<Longrightarrow> cl_props cl = cl_props (pg_loops pg ! i)
    \<Longrightarrow> same_wiring pg (pg\<lparr>pg_ctx := cx, pg_loops := (pg_loops pg)[i := cl]\<rparr>)"
  by (simp add: same_wiring_def map_update list_update_same_conv)

lemma handler_inv:
  assumes "page_inv pg" and "i < length (pg_loops pg)" and "e \<noteq> AnimationFrame"
  shows "\<exists>pg'. handler e i pg = Some pg' \<and> page_inv pg' \<and> same_wiring pg pg'
    \<and> pg_ctx pg' = pg_ctx pg"
proof -
  from assms(1,2) have "closure_inv (pg_loops pg ! i)" by (rule page_inv_closure)
  from closure_inv_step [OF this assms(3)] obtain s
    where s: "step (cl_props (pg_loops pg ! i)) e (cl_sim (pg_loops pg ! i)) = Some s"
      "closure_inv ((pg_loops pg ! i)\<lparr>cl_sim := s\<rparr>)"
    by blast
  from same_wiring_update [OF assms(2), of "(pg_loops pg ! i)\<lparr>cl_sim := s\<rparr>" "pg_ctx pg"]
  have "same_wiring pg (pg\<lparr>pg_loops := (pg_loops pg)[i := (pg_loops pg ! i)\<lparr>cl_sim := s\<rparr>]\<rparr>)"
    by simp
  with assms s page_inv_update [OF assms(1) s(2), where cx = "pg_ctx pg" and i = i] show ?thesis
    by (cases e) (simp_all add: handler_def same_wiring_def)
qed

lemma dispatch_inv:
  assumes "page_inv pg"
  shows "\<exists>pg'. dispatch e pg = Some pg' \<and> page_inv pg' \<and> same_wiring pg pg' \<and> pg_ctx pg' = pg_ctx pg"
proof (cases "e = AnimationFrame")
  case True
  with assms show ?thesis by (simp add: dispatch_def listening_def)
next
  case False
  let ?P = "\<lambda>k. page_inv k \<and> same_wiring pg k \<and> pg_ctx k = pg_ctx pg"
  have "\<exists>k'. handler e (l_owner l) k = Some k' \<and> ?P k'"
    if "l \<in> set (filter (listening e) (pg_listeners pg))" "?P k" for l k
  proof -
    from that assms have "l_owner l < length (pg_loops k)"
      by (auto simp: same_wiring_def dest: page_inv_owner)
    from handler_inv [OF _ this False] that(2) show ?thesis
      by (auto intro: same_wiring_trans)
  qed
  with assms show ?thesis
    unfolding dispatch_def by (intro fold_opt_invariant) simp_all
qed

text \<open>The number of times the canvas was cleared: one per frame that ran.\<close>

fun is_clear :: "draw_op \<Rightarrow> bool" where
  "is_clear (ClearRect x y w h) = True"
| "is_clear _ = False"

definition clears :: "ctx \<Rightarrow> nat" where
  "clears cx = length (filter is_clear cx)"

lemma clears_simps [simp]:
  "clears [] = 0" "clears (cx @ cx') = clears cx + clears cx'"
  "clears (clear cv # cx) = Suc (clears cx)" "clears (drawn pr h) = 0"
  by (simp_all add: clears_def clear_def drawn_def segment_def filter_concat comp_def)

lemma tick_one_inv:
  assumes "page_inv pg" and "i < length (pg_loops pg)"
  shows "\<exists>pg'. tick_one i pg = Some pg' \<and> page_inv pg' \<and> same_wiring pg pg'
    \<and> pg_ctx pg' = pg_ctx pg @ clear (pg_canvas pg)
          # drawn (cl_props (pg_loops pg ! i)) (sim_heap (cl_sim (pg_loops pg' ! i)))"
proof -
  let ?cl = "pg_loops pg ! i"
  from assms have inv: "closure_inv ?cl" by (rule page_inv_closure)
  then obtain h where h: "wf_heap h" "evolves (sim_heap (cl_sim ?cl)) h"
    "frame (cl_props ?cl) ((cl_sim ?cl)\<lparr>sim_canvas := pg_canvas pg, sim_ctx := pg_ctx pg\<rparr>)
       = Some ((cl_sim ?cl)\<lparr>sim_canvas := pg_canvas pg, sim_heap := h,
           sim_ctx := pg_ctx pg @ clear (pg_canvas pg) # drawn (cl_props ?cl) h\<rparr>)"
    by (rule closure_frame)
  let ?cl' = "?cl\<lparr>cl_sim := (cl_sim ?cl)\<lparr>sim_canvas := pg_canvas pg, sim_heap := h,
           sim_ctx := pg_ctx pg @ clear (pg_canvas pg) # drawn (cl_props ?cl) h\<rparr>\<rparr>"
  from inv h(1,2) have "closure_inv ?cl'" by (rule closure_inv_heap)
  from page_inv_update [OF assms(1) this] same_wiring_update [OF assms(2), of ?cl'] assms(2) h(3)
  show ?thesis
    by (simp add: tick_one_def)
qed

text \<open>The first \<open>n\<close> frame callbacks of an animation frame.\<close>

lemma ticks_inv:
  assumes "page_inv pg" and "n \<le> length (pg_loops pg)"
  shows "\<exists>k. fold_opt tick_one [0 ..< n] pg = Some k \<and> page_inv k \<and> same_wiring pg k
    \<and> clears (pg_ctx k) = clears (pg_ctx pg) + n"
  using assms(2)
proof (induction n)
  case 0
  with assms(1) show ?case by simp
next
  case (Suc n)
  then obtain k where k: "fold_opt tick_one [0 ..< n] pg = Some k" "page_inv k" "same_wiring pg k"
    "clears (pg_ctx k) = clears (pg_ctx pg) + n"
    by auto
  with Suc.prems have "n < length (pg_loops k)" by (simp add: same_wiring_def)
  from tick_one_inv [OF k(2) this] k show ?case
    by (auto simp: fold_opt_snoc intro: same_wiring_trans)
qed

lemma tick_inv:
  assumes "page_inv pg"
  shows "\<exists>pg'. tick pg = Some pg' \<and> page_inv pg' \<and> same_wiring pg pg'
    \<and> clears (pg_ctx pg') = clears (pg_ctx pg) + length (pg_loops pg)"
  using ticks_inv [OF assms order_refl] by (simp add: tick_def)

text \<open>
  What is left on the canvas after an animation frame is the drawing of the
  newest closure: every frame callback clears the whole canvas first.
\<close>

lemma tick_newest:
  assumes "page_inv pg" and "pg_loops pg \<noteq> []" and "tick pg = Some pg'"
  shows "\<exists>cx. pg_ctx pg' = cx @ clear (pg_canvas pg)
      # drawn (cl_props (last (pg_loops pg))) (sim_heap (cl_sim (last (pg_loops pg'))))"
proof -
  from assms(2) obtain m where m: "length (pg_loops pg) = Suc m"
    by (cases "pg_loops pg") auto
  from ticks_inv [OF assms(1), of m] m obtain k
    where k: "fold_opt tick_one [0 ..< m] pg = Some k" "page_inv k" "same_wiring pg k"
    by auto
  from k(3) m have w: "m < length (pg_loops k)" "pg_canvas k = pg_canvas pg"
    "cl_props (pg_loops k ! m) = cl_props (pg_loops pg ! m)"
    by (auto simp: same_wiring_def dest: arg_cong [where f = "\<lambda>xs. xs ! m"])
  from tick_one_inv [OF k(2) w(1)] assms(3) k(1) m obtain
    "pg_ctx pg' = pg_ctx k @ clear (pg_canvas k)
      # drawn (cl_props (pg_loops k ! m)) (sim_heap (cl_sim (pg_loops pg' ! m)))"
    and "same_wiring k pg'"
    by (auto simp: tick_def fold_opt_snoc)
  moreover from this(2) k(3) m have "length (pg_loops pg') = Suc m"
    by (simp add: same_wiring_def)
  then have "last (pg_loops pg') = pg_loops pg' ! m"
    by (cases "pg_loops pg'" rule: rev_cases) (simp_all add: nth_append)
  moreover from m have "last (pg_loops pg) = pg_loops pg ! m"
    by (cases "pg_loops pg" rule: rev_cases) (simp_all add: nth_append)
  ultimately show ?thesis using w by simp
qed

section \<open>Every state of the page\<close>

lemma react_inv:
  assumes "page_inv pg"
  shows "\<exists>pg'. react a pg = Some pg' \<and> page_inv pg' \<and> length (pg_loops pg) \<le> length (pg_loops pg')"
proof (cases a)
  case (Render pr has_canvas has_ctx w h)
  with rerender_inv [OF assms] show ?thesis by simp
next
  case Unmount
  with assms show ?thesis by (simp add: unmount_def run_cleanup_eq page_inv_def)
next
  case (Dom e)
  with dispatch_inv [OF assms, of e] show ?thesis by (auto simp: same_wiring_def)
next
  case Tick
  with tick_inv [OF assms] show ?thesis by (auto simp: same_wiring_def)
qed

lemma page_reachable_inv: "page_reachable pg \<Longrightarrow> page_inv pg"
proof (induction rule: page_reachable.induct)
  case blank
  show ?case by (rule page_inv_blank)
next
  case (act pg a pg')
  with react_inv [OF act.IH, of a] show ?case by simp
qed

lemma session_inv: "\<exists>pg. session as = Some pg \<and> page_inv pg"
  unfolding session_def using page_inv_blank react_inv by (intro fold_opt_invariant) blast+

lemma session_reachable: "session as = Some pg \<Longrightarrow> page_reachable pg"
  unfolding session_def
proof (induction as arbitrary: pg rule: rev_induct)
  case Nil
  then show ?case by (simp add: page_reachable.blank)
next
  case (snoc a as)
  then show ?case
    by (auto simp: fold_opt_snoc split: option.splits intro: page_reachable.act)
qed

section \<open>One mounted instance is the event loop\<close>

text \<open>
  The vocabulary and the simulation lemmas for the refinement theorem of the
  root theory: a page that was mounted once, with canvas and context, and not
  rendered with other props since, shows a state of the event loop, and every
  step of the loop is one or two actions of the page.
\<close>

text \<open>
  The actions of the page that an event of the loop stands for: a frame is a
  tick, a resize is the event of the window followed by the render that the
  change of \<^verbatim>\<open>canvasSize\<close> causes, any other event is the event of the canvas.
\<close>

fun acts :: "props \<Rightarrow> event \<Rightarrow> action list" where
  "acts pr AnimationFrame = [Tick]"
| "acts pr (Resize w h) = [Dom (Resize w h), Render pr True True w h]"
| "acts pr e = [Dom e]"

text \<open>The state of the loop that a page with one closure shows.\<close>

definition abs_sim :: "page \<Rightarrow> sim" where
  "abs_sim pg = (cl_sim (hd (pg_loops pg)))\<lparr>sim_canvas := pg_canvas pg, sim_ctx := pg_ctx pg\<rparr>"

definition single :: "props \<Rightarrow> page \<Rightarrow> bool" where
  "single pr pg \<longleftrightarrow> pg_mounted pg \<and> pg_props pg = Some pr \<and> pg_cleanup pg = Some 0
     \<and> pg_listeners pg = listeners_of 0 \<and> map cl_props (pg_loops pg) = [pr]"

lemma singleE:
  assumes "single pr pg"
  obtains s where "pg_loops pg = [\<lparr>cl_props = pr, cl_sim = s\<rparr>]"
    and "abs_sim pg = s\<lparr>sim_canvas := pg_canvas pg, sim_ctx := pg_ctx pg\<rparr>"
proof -
  from assms obtain cl where "pg_loops pg = [cl]" "cl_props cl = pr"
    by (auto simp: single_def)
  then have "pg_loops pg = [\<lparr>cl_props = pr, cl_sim = cl_sim cl\<rparr>]" by simp
  then show thesis by (rule that) (simp add: abs_sim_def \<open>pg_loops pg = [cl]\<close>)
qed

lemma listening_simps [simp]:
  "filter (listening (MouseDown r m)) (listeners_of i) = [\<lparr>l_target = Canvas, l_type = ''mousedown'', l_owner = i\<rparr>]"
  "filter (listening (MouseMove r m)) (listeners_of i) = [\<lparr>l_target = Canvas, l_type = ''mousemove'', l_owner = i\<rparr>]"
  "filter (listening MouseUp) (listeners_of i) = [\<lparr>l_target = Canvas, l_type = ''mouseup'', l_owner = i\<rparr>]"
  "filter (listening ContextMenu) (listeners_of i) = [\<lparr>l_target = Canvas, l_type = ''contextmenu'', l_owner = i\<rparr>]"
  "filter (listening (Resize w h)) (listeners_of i) = [\<lparr>l_target = Window, l_type = ''resize'', l_owner = i\<rparr>]"
  "filter (listening AnimationFrame) ls = []"
  by (simp_all add: listening_def listeners_of_def)

lemma single_step:
  assumes "single pr pg" and "step pr e (abs_sim pg) = Some t"
  shows "\<exists>pg'. fold_opt react (acts pr e) pg = Some pg' \<and> single pr pg' \<and> abs_sim pg' = t"
proof -
  from assms(1) obtain s where s: "pg_loops pg = [\<lparr>cl_props = pr, cl_sim = s\<rparr>]"
    "abs_sim pg = s\<lparr>sim_canvas := pg_canvas pg, sim_ctx := pg_ctx pg\<rparr>"
    by (rule singleE)
  from assms(1) have w: "pg_mounted pg" "pg_props pg = Some pr" "pg_cleanup pg = Some 0"
    "pg_listeners pg = listeners_of 0"
    by (simp_all add: single_def)
  show ?thesis
  proof (cases e)
    case AnimationFrame
    with assms(2) s have t: "frame pr (s\<lparr>sim_canvas := pg_canvas pg, sim_ctx := pg_ctx pg\<rparr>) = Some t"
      by simp
    from frame_fields(1) [OF this] have "t\<lparr>sim_canvas := pg_canvas pg\<rparr> = t" by simp
    with AnimationFrame s w t show ?thesis
      by (simp add: tick_def tick_one_def single_def abs_sim_def array_get_def)
  next
    case (Resize w' h')
    with assms(2) s w show ?thesis
      by (auto simp: dispatch_def handler_def rerender_def commit_def render_def single_def
          abs_sim_def array_get_def)
  qed (use assms(2) s w in \<open>auto simp: dispatch_def handler_def single_def abs_sim_def array_get_def\<close>)
qed

lemma single_run:
  assumes "single pr pg" and "run pr es (abs_sim pg) = Some t"
  shows "\<exists>pg'. fold_opt react (concat (map (acts pr) es)) pg = Some pg' \<and> single pr pg' \<and> abs_sim pg' = t"
  using assms
proof (induction es arbitrary: pg)
  case Nil
  then show ?case by (simp add: run_def)
next
  case (Cons e es)
  from Cons.prems(2) obtain u where u: "step pr e (abs_sim pg) = Some u" "run pr es u = Some t"
    by (auto simp: run_def split: option.splits)
  from single_step [OF Cons.prems(1) u(1)] obtain pg1
    where pg1: "fold_opt react (acts pr e) pg = Some pg1" "single pr pg1" "abs_sim pg1 = u"
    by blast
  from Cons.IH [of pg1] pg1 u(2) show ?case
    by (simp add: fold_opt_append)
qed

lemma mount_single:
  assumes "start pr = Some s0"
  shows "\<exists>pg. react (Render pr True True w h) blank_page = Some pg \<and> single pr pg \<and> abs_sim pg = s0"
proof -
  let ?pg = "(commit pr blank_page)\<lparr>pg_props := Some pr\<rparr>"
  have c: "pg_canvas ?pg = first_canvas pr" "pg_ctx ?pg = []" "pg_loops ?pg = []"
    "pg_listeners ?pg = []" "pg_cleanup ?pg = None" "pg_mounted ?pg"
    by (simp_all add: commit_def render_def blank_page_def first_canvas_def)
  then have "\<not> owned (length (pg_loops ?pg)) (pg_listeners ?pg)" by simp
  then obtain k where f: "frame pr (fresh_sim pr (pg_canvas ?pg) (pg_ctx ?pg))
       = Some ((fresh_sim pr (pg_canvas ?pg) (pg_ctx ?pg))\<lparr>sim_heap := k,
           sim_ctx := pg_ctx ?pg @ clear (pg_canvas ?pg) # drawn pr k\<rparr>)"
    and k: "effect pr True True w h ?pg = Some (?pg\<lparr>pg_canvasSize := resizeCanvas pr w h,
        pg_ctx := pg_ctx ?pg @ clear (pg_canvas ?pg) # drawn pr k,
        pg_listeners := pg_listeners ?pg @ listeners_of (length (pg_loops ?pg)),
        pg_loops := pg_loops ?pg @ [\<lparr>cl_props = pr, cl_sim = (fresh_sim pr (pg_canvas ?pg) (pg_ctx ?pg))
          \<lparr>sim_heap := k, sim_ctx := pg_ctx ?pg @ clear (pg_canvas ?pg) # drawn pr k\<rparr>\<rparr>],
        pg_cleanup := Some (length (pg_loops ?pg))\<rparr>)" (is "_ = Some ?pg'")
    by (rule effect_eq)
  have "start pr = frame pr (fresh_sim pr (first_canvas pr) [])"
    by (simp add: start_def fresh_sim_def split_def)
  moreover from f c have "frame pr (fresh_sim pr (first_canvas pr) []) = Some (abs_sim ?pg')"
    by (simp add: fresh_sim_def abs_sim_def)
  ultimately have "abs_sim ?pg' = s0" using assms by simp
  moreover have "single pr ?pg'" by (simp add: single_def blank_page_def)
  moreover have "react (Render pr True True w h) blank_page = Some ?pg'"
    using k c by (simp add: rerender_def Let_def run_cleanup_def blank_page_def)
  ultimately show ?thesis by blast
qed

section \<open>What the effect adds, the cleanup removes\<close>

lemma cleanup_fresh:
  assumes "\<not> owned i (pg_listeners pg)"
  shows "cleanup i pg = pg"
proof -
  from assms have "filter (\<lambda>l. l \<notin> set (listeners_of i)) (pg_listeners pg) = pg_listeners pg"
    unfolding filter_id_conv owned_iff by (blast dest: listeners_of_owner)
  then show ?thesis by (simp add: cleanup_eq)
qed

lemma unmount_eq:
  "page_inv pg \<Longrightarrow> unmount pg = pg\<lparr>pg_mounted := False, pg_listeners := [], pg_cleanup := None\<rparr>"
  by (simp add: unmount_def run_cleanup_eq)

lemma unmount_inv: "page_inv pg \<Longrightarrow> page_inv (unmount pg)"
  by (simp add: unmount_eq page_inv_def)

lemma session_the: "session as = Some (the (session as))"
  using session_inv [of as] by auto

lemma mounted_once:
  "single pr (the (session [Render pr True True w h]))"
  using mount_single [of pr _ w h] start_inv [of pr] by (auto simp: session_def)

lemma single_loops: "single pr pg \<Longrightarrow> length (pg_loops pg) = 1"
  by (auto simp: single_def)

text \<open>
  C28. Whenever the effect returns, the cleanup of that run, called on the page
  the effect left, gives back the list of listeners the page had before the
  effect ran, provided no listener of a run with the same number was
  registered then: each of the five \<^verbatim>\<open>removeEventListener\<close> calls names the target,
  the type and the function one \<^verbatim>\<open>addEventListener\<close> call named. This holds as
  well when the effect returned early for want of a canvas or a context.
\<close>

theorem effect_cleanup_roundtrip:
  assumes "effect pr has_canvas has_ctx w h pg = Some pg'"
    and "\<not> owned (length (pg_loops pg)) (pg_listeners pg)"
  shows "pg_listeners (cleanup (length (pg_loops pg)) pg') = pg_listeners pg"
proof (cases "has_canvas \<and> has_ctx")
  case True
  from assms(2) obtain k where "effect pr True True w h pg = Some (pg\<lparr>pg_canvasSize := resizeCanvas pr w h,
        pg_ctx := pg_ctx pg @ clear (pg_canvas pg) # drawn pr k,
        pg_listeners := pg_listeners pg @ listeners_of (length (pg_loops pg)),
        pg_loops := pg_loops pg @ [\<lparr>cl_props = pr, cl_sim = (fresh_sim pr (pg_canvas pg) (pg_ctx pg))
          \<lparr>sim_heap := k, sim_ctx := pg_ctx pg @ clear (pg_canvas pg) # drawn pr k\<rparr>\<rparr>],
        pg_cleanup := Some (length (pg_loops pg))\<rparr>)"
    by (rule effect_eq)
  with True assms(1) have "pg_listeners pg' = pg_listeners pg @ listeners_of (length (pg_loops pg))"
    by auto
  with assms(2) show ?thesis by (simp add: cleanup_appended)
next
  case False
  with assms show ?thesis by (auto simp: effect_guard cleanup_fresh)
qed

theorem effect_cleanup_roundtrip_witness:
  "pg_listeners (cleanup 0 (the (effect example_grid True True 800 600 blank_page))) = []"
proof -
  have "\<not> owned (length (pg_loops blank_page)) (pg_listeners blank_page)"
    by (simp add: blank_page_def)
  then obtain pg' where "effect example_grid True True 800 600 blank_page = Some pg'"
    by (rule effect_eq)
  with effect_cleanup_roundtrip [of example_grid True True 800 600 blank_page pg'] show ?thesis
    by (simp add: blank_page_def)
qed

section \<open>The frame loops are never cancelled\<close>

text \<open>
  C10. In every reachable state, after the instance is unmounted no listener is
  registered, and still the next animation frame runs one frame of every
  closure the effect ever made: it returns normally and the canvas is cleared
  once for each. The cleanup does not call \<^verbatim>\<open>cancelAnimationFrame\<close>, and \<^verbatim>\<open>update\<close>
  requests the next frame unconditionally.
\<close>

theorem unmounted_page_keeps_animating:
  assumes "page_reachable pg"
  shows "\<exists>pg'. tick (unmount pg) = Some pg' \<and> pg_listeners (unmount pg) = []
    \<and> clears (pg_ctx pg') = clears (pg_ctx pg) + length (pg_loops pg)"
proof -
  from assms have inv: "page_inv pg" by (rule page_reachable_inv)
  from tick_inv [OF unmount_inv [OF inv]] inv show ?thesis
    by (auto simp: unmount_eq)
qed

theorem unmounted_page_keeps_animating_witness:
  "\<exists>pg'. tick (unmount (the (session [Render example_grid True True 800 600]))) = Some pg'
    \<and> pg_listeners (unmount (the (session [Render example_grid True True 800 600]))) = []
    \<and> clears (pg_ctx pg') = clears (pg_ctx (the (session [Render example_grid True True 800 600]))) + 1"
proof -
  let ?pg = "the (session [Render example_grid True True 800 600])"
  have "page_reachable ?pg" by (rule session_reachable) (rule session_the)
  moreover have "length (pg_loops ?pg) = 1" by (rule single_loops) (rule mounted_once)
  ultimately show ?thesis
    using unmounted_page_keeps_animating [of ?pg] by simp
qed

text \<open>
  C27. When a mounted instance is rendered with props that differ in a
  dependency, and the canvas and its context are there, the listeners move to
  the new run, a closure for the new props is appended, and every closure made
  before is still there: the next animation frame runs one frame more than it
  would have before the render.
\<close>

theorem props_change_adds_loop:
  assumes "page_reachable pg" and "pg_mounted pg" and "pg_props pg = Some old"
    and "deps old \<noteq> deps pr"
  shows "\<exists>pg' pg''. react (Render pr True True w h) pg = Some pg'
    \<and> map cl_props (pg_loops pg') = map cl_props (pg_loops pg) @ [pr]
    \<and> pg_listeners pg' = listeners_of (length (pg_loops pg))
    \<and> tick pg' = Some pg''
    \<and> clears (pg_ctx pg'') = clears (pg_ctx pg') + length (pg_loops pg) + 1"
proof -
  from assms(1) have inv: "page_inv pg" by (rule page_reachable_inv)
  let ?pg = "(commit pr pg)\<lparr>pg_props := Some pr, pg_listeners := [], pg_cleanup := None\<rparr>"
  from inv have rc: "run_cleanup ((commit pr pg)\<lparr>pg_props := Some pr\<rparr>) = ?pg"
    by (simp add: run_cleanup_eq)
  have "\<not> owned (length (pg_loops ?pg)) (pg_listeners ?pg)" by simp
  then obtain k where "effect pr True True w h ?pg = Some (?pg\<lparr>pg_canvasSize := resizeCanvas pr w h,
        pg_ctx := pg_ctx ?pg @ clear (pg_canvas ?pg) # drawn pr k,
        pg_listeners := pg_listeners ?pg @ listeners_of (length (pg_loops ?pg)),
        pg_loops := pg_loops ?pg @ [\<lparr>cl_props = pr, cl_sim = (fresh_sim pr (pg_canvas ?pg) (pg_ctx ?pg))
          \<lparr>sim_heap := k, sim_ctx := pg_ctx ?pg @ clear (pg_canvas ?pg) # drawn pr k\<rparr>\<rparr>],
        pg_cleanup := Some (length (pg_loops ?pg))\<rparr>)" (is "_ = Some ?pg'")
    by (rule effect_eq)
  with assms(2-4) rc have r: "react (Render pr True True w h) pg = Some ?pg'"
    by (simp add: rerender_def Let_def)
  with react_inv [OF inv, of "Render pr True True w h"] have "page_inv ?pg'" by simp
  from tick_inv [OF this] r show ?thesis by auto
qed

theorem props_change_adds_loop_witness:
  "\<exists>pg' pg''. react (Render (example_grid\<lparr>gravity := 0\<rparr>) True True 800 600)
        (the (session [Render example_grid True True 800 600])) = Some pg'
    \<and> map cl_props (pg_loops pg') = [example_grid, example_grid\<lparr>gravity := 0\<rparr>]
    \<and> pg_listeners pg' = listeners_of 1
    \<and> tick pg' = Some pg''
    \<and> clears (pg_ctx pg'') = clears (pg_ctx pg') + 2"
proof -
  let ?pg = "the (session [Render example_grid True True 800 600])"
  have "page_reachable ?pg" by (rule session_reachable) (rule session_the)
  moreover have s: "single example_grid ?pg" by (rule mounted_once)
  moreover note single_loops [OF s]
  moreover have "deps example_grid \<noteq> deps (example_grid\<lparr>gravity := 0\<rparr>)"
    by (simp add: deps_def example_grid_def example_props_def)
  ultimately show ?thesis
    using props_change_adds_loop [of ?pg example_grid "example_grid\<lparr>gravity := 0\<rparr>" 800 600]
    by (simp add: single_def)
qed

section \<open>No sequence of actions raises\<close>

text \<open>
  C9. Every finite sequence of renders (with any props, with or without canvas
  and context), unmounts, events of the DOM and animation frames, from the
  blank page, is handled without an exception. In the state reached every
  closure has a well-formed store and a cloth that lists the points of its
  grid, and either no listener is registered, or the instance is mounted and
  the listeners are exactly the five of the newest closure.
\<close>

theorem page_never_raises:
  "\<exists>pg. session as = Some pg \<and> list_all closure_inv (pg_loops pg)
     \<and> (pg_listeners pg = [] \<or> pg_mounted pg \<and> pg_listeners pg = listeners_of (length (pg_loops pg) - 1))"
proof -
  from session_inv obtain pg where pg: "session as = Some pg" "page_inv pg" by blast
  show ?thesis
  proof (cases "pg_cleanup pg")
    case None
    with pg show ?thesis by (simp add: page_inv_def)
  next
    case (Some i)
    with pg(2) have "pg_listeners pg = listeners_of i" "length (pg_loops pg) - 1 = i" "pg_mounted pg"
      by (auto simp: page_inv_def)
    with pg show ?thesis by (simp add: page_inv_def)
  qed
qed

end
