(* ===== verification/Moves.thy ===== *)
theory Moves
  imports Cloth
begin

text \<open>
  The methods of \<^verbatim>\<open>Constraint\<close>, \<^verbatim>\<open>Point\<close> and \<^verbatim>\<open>Cloth\<close> change the store only by
  writing fields of one point at a time, and only in eight ways. This theory
  names them as a step relation and proves that whatever a method does is a
  sequence of such steps, so that a property of the store is an invariant of
  every method, of a frame and of any number of frames once each of the eight
  writes keeps it.
\<close>

section \<open>The writes\<close>

text \<open>
  \<open>move pr cv ms h h'\<close>: the store \<open>h'\<close> is \<open>h\<close> after one write. The writes are the
  removal of a torn constraint from a list, the two halves of a relaxation,
  the clamp, the snap of a pinned point to its pin, the pull of the mouse, the
  assignment of the filtered list in the cut, and the integration.
\<close>

inductive move :: "props \<Rightarrow> canvas option \<Rightarrow> mouse \<Rightarrow> heap \<Rightarrow> heap \<Rightarrow> bool" for pr cv ms where
  tear: "move pr cv ms h (upd_point a (detach c) h)"
| push: "move pr cv ms h (upd_point a (shift d) h)"
| pull_back: "move pr cv ms h (upd_point a (unshift d) h)"
| clamp: "move pr cv ms h (upd_point a (clamp_into cv) h)"
| snap: "pinned (point_at h a) \<Longrightarrow> move pr cv ms h (upd_point a snap h)"
| drag: "move pr cv ms h (upd_point a (pull ms) h)"
| cut: "move pr cv ms h (upd_point a (\<lambda>p. p\<lparr>p_constraints := cs\<rparr>) h)"
| integrate: "move pr cv ms h (upd_point a (verlet_point (gravity pr) delta) h)"

text \<open>A sequence of writes.\<close>

inductive moves :: "props \<Rightarrow> canvas option \<Rightarrow> mouse \<Rightarrow> heap \<Rightarrow> heap \<Rightarrow> bool" for pr cv ms where
  none: "moves pr cv ms h h"
| more: "moves pr cv ms h k \<Longrightarrow> move pr cv ms k k' \<Longrightarrow> moves pr cv ms h k'"

lemma moves_one: "move pr cv ms h k \<Longrightarrow> moves pr cv ms h k"
  by (blast intro: moves.intros)

lemma moves_after: "moves pr cv ms k k' \<Longrightarrow> moves pr cv ms h k \<Longrightarrow> moves pr cv ms h k'"
  by (induction rule: moves.induct) (auto intro: moves.intros)

lemma moves_trans: "moves pr cv ms h k \<Longrightarrow> moves pr cv ms k k' \<Longrightarrow> moves pr cv ms h k'"
  by (rule moves_after)

text \<open>What every write keeps, every sequence of writes keeps.\<close>

lemma moves_invariant:
  assumes "moves pr cv ms h h'" and "P h" and "\<And>k k'. move pr cv ms k k' \<Longrightarrow> P k \<Longrightarrow> P k'"
  shows "P h'"
  using assms by (induction rule: moves.induct) auto

lemma fold_opt_moves:
  assumes "fold_opt f xs h = Some h'" and "\<And>x k k'. f x k = Some k' \<Longrightarrow> moves pr cv ms k k'"
  shows "moves pr cv ms h h'"
  using assms(1)
  by (rule fold_opt_preserves [where P = "moves pr cv ms h"])
    (auto intro: moves.none moves_trans assms(2))

lemmas move_twice = moves.more [OF moves_one]

section \<open>Every method is a sequence of writes\<close>

lemma Constraint_resolve_moves:
  assumes "Constraint_resolve pr c h = Some h'"
  shows "moves pr cv ms h h'"
  using assms
proof (rule Constraint_resolve_SomeE)
  fix a1 a2
  assume h': "h' = (if separation (point_at h a1) (point_at h a2) > tearDistance pr
          then upd_point a2 (detach c) (upd_point a1 (detach c) h)
          else upd_point a2 (unshift (correction c (point_at h a1) (point_at h a2)))
                 (upd_point a1 (shift (correction c (point_at h a1) (point_at h a2))) h))"
  have "moves pr cv ms h (upd_point a2 (detach c) (upd_point a1 (detach c) h))"
    by (rule move_twice) (rule move.tear)+
  moreover have "moves pr cv ms h (upd_point a2 (unshift d) (upd_point a1 (shift d) h))" for d
    by (rule move_twice) (rule move.push, rule move.pull_back)
  ultimately show ?thesis unfolding h' by simp
qed

lemma Point_resolveConstraints_moves:
  assumes "Point_resolveConstraints pr cv b h = Some h'"
  shows "moves pr cv ms h h'"
proof -
  from assms have b: "b < points_count h"
    by (auto simp: Point_resolveConstraints_def deref_Some_iff split: Option.bind_splits)
  show ?thesis
  proof (cases "pinned (point_at h b)")
    case True
    with assms b show ?thesis
      by (auto simp: Point_resolveConstraints_eq intro!: moves_one move.snap)
  next
    case False
    with assms b obtain k where k: "fold_opt (Constraint_resolve pr) (constraints_of h b) h = Some k"
      and h': "h' = upd_point b (clamp_into cv) k"
      by (auto simp: Point_resolveConstraints_eq)
    from k have "moves pr cv ms h k"
      by (rule fold_opt_moves) (rule Constraint_resolve_moves)
    then show ?thesis
      unfolding h' by (rule moves.more) (rule move.clamp)
  qed
qed

lemma Point_update_moves:
  assumes "Point_update pr ms b delta h = Some h'"
  shows "moves pr cv ms h h'"
proof -
  from assms obtain k where k: "apply_mouse pr ms b h = Some k" and v: "verlet pr b delta k = Some h'"
    by (auto simp: Point_update_eq split: option.splits)
  from v have b: "b < points_count k"
    using verlet_None_iff [of pr b delta k] by (simp add: not_le [symmetric])
  with k have "b < points_count h"
    using evolvesD(1) [OF apply_mouse_evolves [OF k]] by simp
  with k have "moves pr cv ms h k"
    by (auto simp: apply_mouse_eq split: if_splits intro: moves.none moves_one move.drag move.cut)
  moreover from v b have "move pr cv ms k h'"
    by (auto simp: verlet_eq intro: move.integrate)
  ultimately show ?thesis by (rule moves.more)
qed

lemma Cloth_update_moves:
  assumes "Cloth_update pr cv ms this h = Some h'"
  shows "moves pr cv ms h h'"
proof -
  from assms obtain k
    where k: "fold_opt (\<lambda>i. fold_opt (Point_resolveConstraints pr cv) (cloth_points this))
        [0 ..< physicsAccuracy] h = Some k"
      and h': "fold_opt (\<lambda>p. Point_update pr ms p 0.016) (cloth_points this) k = Some h'"
    by (auto simp: Cloth_update_def split: Option.bind_splits)
  from k have "moves pr cv ms h k"
    by (rule fold_opt_moves) (erule fold_opt_moves, rule Point_resolveConstraints_moves)
  moreover from h' have "moves pr cv ms k h'"
    by (rule fold_opt_moves) (rule Point_update_moves)
  ultimately show ?thesis by (rule moves_trans)
qed

end
