(* ===== verification/Finite.thy ===== *)
theory Finite
  imports Point
begin

text \<open>
  The typing discipline the simulation relies on and never checks: every
  coordinate is a finite number. This theory states it as a predicate on the
  store, proves that \<^verbatim>\<open>Point.update\<close> and \<^verbatim>\<open>Constraint.resolve\<close> keep it, the
  latter unless the two end points coincide, and that a coordinate that is
  \<^verbatim>\<open>NaN\<close> makes \<^verbatim>\<open>resolve\<close> write \<^verbatim>\<open>NaN\<close> into both end points.
\<close>

section \<open>Finite points and stores\<close>

definition finite_point :: "point \<Rightarrow> bool" where
  "finite_point p \<longleftrightarrow> is_finite (p_x p) \<and> is_finite (p_y p) \<and> is_finite (p_px p)
     \<and> is_finite (p_py p) \<and> is_finite (p_vx p) \<and> is_finite (p_vy p)
     \<and> (case p_pinX p of None \<Rightarrow> True | Some v \<Rightarrow> is_finite v)
     \<and> (case p_pinY p of None \<Rightarrow> True | Some v \<Rightarrow> is_finite v)"

definition finite_heap :: "heap \<Rightarrow> bool" where
  "finite_heap h \<longleftrightarrow> list_all finite_point (h_points h)"

definition finite_mouse :: "mouse \<Rightarrow> bool" where
  "finite_mouse ms \<longleftrightarrow> is_finite (mouseX ms) \<and> is_finite (mouseY ms)"

lemma finite_heap_iff: "finite_heap h \<longleftrightarrow> (\<forall>a < points_count h. finite_point (point_at h a))"
  by (simp add: finite_heap_def list_all_length points_count_def point_at_def)

lemma finite_heap_upd:
  assumes "finite_heap h" and "a < points_count h \<Longrightarrow> finite_point (f (point_at h a))"
  shows "finite_heap (upd_point a f h)"
  using assms by (auto simp: finite_heap_iff point_at_upd)

lemma finite_heap_upd_all:
  "finite_heap h \<Longrightarrow> (\<And>p. finite_point p \<Longrightarrow> finite_point (f p)) \<Longrightarrow> finite_heap (upd_point a f h)"
  by (rule finite_heap_upd) (simp_all add: finite_heap_iff)

lemma finite_pointE:
  assumes "finite_point p"
  obtains x y x0 y0 vx vy where "p_x p = Fin x" "p_y p = Fin y" "p_px p = Fin x0"
    "p_py p = Fin y0" "p_vx p = Fin vx" "p_vy p = Fin vy"
  using assms unfolding finite_point_def is_finite_iff by blast

lemma finite_point_located: "finite_point p \<Longrightarrow> \<exists>x y. located p x y"
  by (auto simp: finite_point_def located_def is_finite_iff)

lemma example_finite: "finite_heap (example_heap x0 y0 x1 y1 L)"
  by (simp add: finite_heap_def finite_point_def example_defs)

section \<open>What the methods do to a finite point\<close>

lemma finite_point_constraints [simp]:
  "finite_point (p\<lparr>p_constraints := cs\<rparr>) = finite_point p"
  by (simp add: finite_point_def)

lemma finite_detach [simp]: "finite_point (detach c p) = finite_point p"
  by (simp add: finite_point_def)

lemma finite_verlet_point:
  assumes "finite_point p"
  shows "finite_point (verlet_point (Fin g) (Fin d) p)"
  using assms by (rule finite_pointE) (use assms in \<open>simp add: finite_point_def verlet_point_def\<close>)

lemma finite_pull:
  assumes "finite_point p" and "finite_mouse ms"
  shows "finite_point (pull ms p)"
proof -
  from assms(2) obtain mx my where "mouseX ms = Fin mx" "mouseY ms = Fin my"
    unfolding finite_mouse_def is_finite_iff by blast
  with assms(1) show ?thesis
    by (elim finite_pointE) (use assms(1) in \<open>simp add: finite_point_def pull_def\<close>)
qed

lemma finite_clamp_into: "finite_point p \<Longrightarrow> finite_point (clamp_into cv p)"
  using canvasWidth_finite [of cv] canvasHeight_finite [of cv]
  by (auto simp: finite_point_def clamp_into_def is_finite_clamp)

lemma finite_snap: "finite_point p \<Longrightarrow> pinned p \<Longrightarrow> finite_point (snap p)"
  by (auto simp: finite_point_def snap_def pinned_def)

lemma finite_shift:
  "finite_point p \<Longrightarrow> finite_point (shift (Fin dx, Fin dy) p)"
  "finite_point p \<Longrightarrow> finite_point (unshift (Fin dx, Fin dy) p)"
  by (auto simp: finite_point_def is_finite_iff)

lemma apply_mouse_finite:
  assumes "apply_mouse pr ms a h = Some h'" and "finite_heap h" and "finite_mouse ms"
  shows "finite_heap h'"
proof (cases "a < points_count h")
  case True
  from assms(2,3) have "finite_heap (upd_point a (pull ms) h)"
    by (intro finite_heap_upd_all finite_pull)
  moreover have "finite_heap (upd_point a (\<lambda>p. p\<lparr>p_constraints := cs\<rparr>) h)" for cs
    using assms(2) by (intro finite_heap_upd_all) simp_all
  ultimately show ?thesis
    using assms(1,2) True by (auto simp: apply_mouse_eq split: if_splits)
next
  case False
  with assms show ?thesis
    by (auto simp: apply_mouse_def deref_Some_iff split: if_splits Option.bind_splits)
qed

section \<open>\<^verbatim>\<open>update\<close> keeps the store finite\<close>

text \<open>
  C23. When \<^verbatim>\<open>update\<close> of a point returns, with a finite time step, a finite
  gravity and a finite mouse position, a store in which every coordinate, every
  previous coordinate, every force and every pin is a finite number is again
  such a store: neither the pull of the mouse nor the integration produces an
  infinity or \<^verbatim>\<open>NaN\<close>.
\<close>

theorem Point_update_finite:
  assumes "Point_update pr ms a (Fin d) h = Some h'"
    and "finite_heap h" and "finite_mouse ms" and "gravity pr = Fin g"
  shows "finite_heap h'"
proof -
  from assms(1) obtain k where k: "apply_mouse pr ms a h = Some k"
    and v: "verlet pr a (Fin d) k = Some h'"
    by (auto simp: Point_update_eq split: option.splits)
  from k assms(2,3) have fk: "finite_heap k" by (rule apply_mouse_finite)
  from v have "a < points_count k"
    using verlet_None_iff [of pr a "Fin d" k] by (simp add: not_le [symmetric])
  with v have "h' = upd_point a (verlet_point (Fin g) (Fin d)) k"
    by (simp add: verlet_eq assms(4))
  moreover from fk have "finite_heap (upd_point a (verlet_point (Fin g) (Fin d)) k)"
    by (intro finite_heap_upd_all finite_verlet_point)
  ultimately show ?thesis by simp
qed

theorem Point_update_finite_witness:
  "\<exists>h'. Point_update (example_props 60) (example_mouse False 0 0 0) 0 (Fin (1/10))
        (example_heap 0 0 3 4 10) = Some h' \<and> finite_heap h'"
proof -
  have "\<exists>h'. Point_update (example_props 60) (example_mouse False 0 0 0) 0 (Fin (1/10))
        (example_heap 0 0 3 4 10) = Some h'"
    by (simp add: Point_update_eq apply_mouse_idle verlet_eq example_mouse_def example_heap_def
        points_count_def)
  then show ?thesis
    using Point_update_finite [of "example_props 60" "example_mouse False 0 0 0" 0 "1/10"
        "example_heap 0 0 3 4 10" _ 1200] example_finite
    by (auto simp: finite_mouse_def example_mouse_def example_props_def)
qed

section \<open>\<^verbatim>\<open>resolve\<close> keeps the store finite unless the ends coincide\<close>

text \<open>
  C24. In a store of finite numbers, resolving a constraint of finite rest
  length whose two end points are not at the same position returns normally
  and leaves a store of finite numbers, whether the constraint tears or is
  relaxed. The separation of the end points is the only divisor of the
  method; the case excluded here is the one in which it is zero.
\<close>

theorem Constraint_resolve_finite:
  assumes p1: "deref h (c_p1 c) = Some (a1, P1)" and p2: "deref h (c_p2 c) = Some (a2, P2)"
    and fin: "finite_heap h" and len: "is_finite (c_length c)"
    and apart: "separation P1 P2 \<noteq> Fin 0"
  shows "\<exists>h'. Constraint_resolve pr c h = Some h' \<and> finite_heap h'"
proof -
  from p1 p2 have v: "a1 < points_count h" "a2 < points_count h"
    and P: "P1 = point_at h a1" "P2 = point_at h a2"
    by (simp_all add: deref_Some_iff)
  with fin obtain x1 y1 x2 y2 where l: "located P1 x1 y1" "located P2 x2 y2"
    using finite_point_located [of P1] finite_point_located [of P2]
    by (auto simp: finite_heap_iff)
  from len obtain L where L: "c_length c = Fin L" by (auto simp: is_finite_iff)
  from apart have ne: "x1 \<noteq> x2 \<or> y1 \<noteq> y2"
    by (auto simp: separation_located [OF l])
  note corr = correction_located [OF l L ne]
  have "finite_heap (upd_point a2 (detach c) (upd_point a1 (detach c) h))"
    using fin by (intro finite_heap_upd_all) simp_all
  moreover have "finite_heap (upd_point a2 (unshift (correction c P1 P2))
      (upd_point a1 (shift (correction c P1 P2)) h))"
    unfolding corr using fin
    by (intro finite_heap_upd_all finite_shift)
  ultimately show ?thesis
    by (simp add: Constraint_resolve_eq [OF p1 p2])
qed

theorem Constraint_resolve_finite_witness:
  "\<exists>h'. Constraint_resolve (example_props 60) (example_link 10) (example_heap 0 0 3 4 10) = Some h'
     \<and> finite_heap h'"
  using Constraint_resolve_finite
    [of "example_heap 0 0 3 4 10" "example_link 10" 1 "example_point 3 4 [example_link 10]"
        0 "example_point 0 0 []" "example_props 60"] example_finite
  by (simp add: example_defs separation_def)

section \<open>\<^verbatim>\<open>NaN\<close> spreads along a constraint\<close>

lemma NaN_correction:
  assumes "p_x P = NaN \<or> p_y P = NaN \<or> p_x Q = NaN \<or> p_y Q = NaN"
  shows "separation P Q = NaN" and "correction c P Q = (NaN, NaN)"
proof -
  have sum: "a * a + b * b = NaN" if "a = NaN \<or> b = NaN" for a b :: number
    using that by auto
  from assms have "p_x P - p_x Q = NaN \<or> p_y P - p_y Q = NaN" by auto
  then show s: "separation P Q = NaN" by (simp add: separation_def sum)
  show "correction c P Q = (NaN, NaN)" by (simp add: correction_def s)
qed

text \<open>
  C29. When one coordinate of one end point of a constraint is \<^verbatim>\<open>NaN\<close>, \<^verbatim>\<open>resolve\<close>
  returns normally, does not tear the constraint whatever the tear distance
  is, and leaves both coordinates of both end points \<^verbatim>\<open>NaN\<close>: the comparison
  with the tear distance is false on \<^verbatim>\<open>NaN\<close> and the correction is \<^verbatim>\<open>NaN\<close>.
\<close>

theorem Constraint_resolve_spreads_NaN:
  assumes p1: "deref h (c_p1 c) = Some (a1, P1)" and p2: "deref h (c_p2 c) = Some (a2, P2)"
    and nan: "p_x P1 = NaN \<or> p_y P1 = NaN \<or> p_x P2 = NaN \<or> p_y P2 = NaN"
  shows "\<exists>h'. Constraint_resolve pr c h = Some h'
     \<and> p_x (point_at h' a1) = NaN \<and> p_y (point_at h' a1) = NaN
     \<and> p_x (point_at h' a2) = NaN \<and> p_y (point_at h' a2) = NaN
     \<and> all_constraints h' = all_constraints h"
proof -
  from p1 p2 have v: "a1 < points_count h" "a2 < points_count h"
    by (simp_all add: deref_Some_iff)
  have "Constraint_resolve pr c h =
      Some (upd_point a2 (unshift (NaN, NaN)) (upd_point a1 (shift (NaN, NaN)) h))"
    by (simp add: Constraint_resolve_eq [OF p1 p2] NaN_correction [OF nan])
  then show ?thesis using v by (simp add: point_at_upd all_constraints_upd_same)
qed

theorem Constraint_resolve_spreads_NaN_witness:
  "\<exists>h'. Constraint_resolve (example_props 60) (example_link 10)
        (upd_point 0 (\<lambda>p. p\<lparr>p_x := NaN\<rparr>) (example_heap 0 0 3 4 10)) = Some h'
     \<and> p_x (point_at h' 1) = NaN \<and> p_y (point_at h' 1) = NaN
     \<and> p_x (point_at h' 0) = NaN \<and> p_y (point_at h' 0) = NaN"
  using Constraint_resolve_spreads_NaN
    [of "upd_point 0 (\<lambda>p. p\<lparr>p_x := NaN\<rparr>) (example_heap 0 0 3 4 10)" "example_link 10"
        1 "example_point 3 4 [example_link 10]" 0 "(example_point 0 0 [])\<lparr>p_x := NaN\<rparr>"
        "example_props 60"]
  by (auto simp: example_defs upd_point_def)

end
