(* ===== verification/Motion.thy ===== *)
theory Motion
  imports Moves Finite Simulation
begin

text \<open>
  What repeated steps do. \<open>updates\<close> is \<^verbatim>\<open>Point.update\<close> called \<open>n\<close> times on one
  point, \<open>frames\<close> is \<^verbatim>\<open>Cloth.update\<close> called \<open>n\<close> times, as the frame callback does
  between two events. The theory gives the closed form of a fall with no
  constraint and no mouse, proves that a loose point inside the canvas reaches
  the lower bound of the canvas and stays there, that a coordinate that has
  become \<^verbatim>\<open>NaN\<close> never becomes a number again, and that the accumulated force
  is zero between frames. The last two are invariants of the writes of theory
  \<open>Moves\<close>.
\<close>

section \<open>Repeated steps\<close>

definition updates :: "props \<Rightarrow> mouse \<Rightarrow> addr \<Rightarrow> number \<Rightarrow> nat \<Rightarrow> heap \<Rightarrow> heap option" where
  "updates pr ms a delta n h = fold_opt (\<lambda>i. Point_update pr ms a delta) [0 ..< n] h"

definition frames :: "props \<Rightarrow> canvas option \<Rightarrow> mouse \<Rightarrow> cloth \<Rightarrow> nat \<Rightarrow> heap \<Rightarrow> heap option" where
  "frames pr cv ms this n h = fold_opt (\<lambda>i. Cloth_update pr cv ms this) [0 ..< n] h"

lemma frames_total:
  assumes "wf_heap h" and "valid_cloth this h"
  shows "\<exists>h'. frames pr cv ms this n h = Some h' \<and> wf_heap h' \<and> evolves h h'"
proof -
  let ?P = "\<lambda>k. wf_heap k \<and> evolves h k"
  have "\<exists>k'. Cloth_update pr cv ms this k = Some k' \<and> ?P k'" if "?P k" for k
  proof -
    from that assms(2) have "valid_cloth this k" by (auto intro: valid_cloth_evolves)
    with that obtain k' where k': "Cloth_update pr cv ms this k = Some k'" "wf_heap k'"
      using Cloth_update_total [of k this pr cv ms] by blast
    from k'(1) have "evolves k k'" by (rule Cloth_update_evolves)
    with that k' show ?thesis by (auto intro: evolves_trans)
  qed
  with assms(1) show ?thesis
    unfolding frames_def by (intro fold_opt_invariant [where P = ?P]) simp_all
qed

section \<open>Free fall\<close>

text \<open>
  The velocity and the depth of a point that falls from rest for \<open>n\<close> steps of
  length \<open>d\<close> under the gravity \<open>g\<close>. Each step keeps \<open>0.99\<close> of the velocity and
  adds \<open>g * d\<^sup>2 / 2\<close>: the velocity per step approaches \<open>50 * g * d\<^sup>2\<close>.
\<close>

definition fall_speed :: "real \<Rightarrow> real \<Rightarrow> nat \<Rightarrow> real" where
  "fall_speed g d n = 50 * g * d\<^sup>2 * (1 - 0.99 ^ n)"

definition fall_depth :: "real \<Rightarrow> real \<Rightarrow> nat \<Rightarrow> real" where
  "fall_depth g d n = 50 * g * d\<^sup>2 * (real n - 99 * (1 - 0.99 ^ n))"

definition falling :: "real \<Rightarrow> real \<Rightarrow> real \<Rightarrow> real \<Rightarrow> nat \<Rightarrow> point \<Rightarrow> bool" where
  "falling x y g d n p \<longleftrightarrow> located p x (y + fall_depth g d n)
     \<and> p_px p = Fin x \<and> p_py p = Fin (y + fall_depth g d n - fall_speed g d n)
     \<and> p_vx p = Fin 0 \<and> p_vy p = Fin 0"

lemma fall_speed_Suc: "fall_speed g d (Suc n) = 0.99 * fall_speed g d n + g * d\<^sup>2 / 2"
  by (simp add: fall_speed_def algebra_simps)

lemma fall_depth_Suc: "fall_depth g d (Suc n) = fall_depth g d n + fall_speed g d (Suc n)"
  by (simp add: fall_depth_def fall_speed_def algebra_simps)

lemma fall_speed_bounds:
  assumes "0 \<le> g"
  shows "0 \<le> fall_speed g d n \<and> fall_speed g d n \<le> 50 * g * d\<^sup>2"
proof -
  let ?r = "1 - (0.99 :: real) ^ n"
  have "(0.99 :: real) ^ n \<le> 1" by (rule power_le_one) simp_all
  then have r: "0 \<le> ?r" "?r \<le> 1" by simp_all
  from assms have c: "0 \<le> 50 * g * d\<^sup>2" by simp
  from c r(1) have "0 \<le> 50 * g * d\<^sup>2 * ?r" by (rule mult_nonneg_nonneg)
  moreover from r(2) c have "50 * g * d\<^sup>2 * ?r \<le> 50 * g * d\<^sup>2 * 1"
    by (rule mult_left_mono)
  ultimately show ?thesis by (simp add: fall_speed_def)
qed

lemma falling_step:
  assumes "falling x y g d n p"
  shows "falling x y g d (Suc n) (verlet_point (Fin g) (Fin d) p)"
proof -
  from assms have "verlet_point (Fin g) (Fin d) p =
      p\<lparr>p_px := Fin x, p_py := Fin (y + fall_depth g d n),
        p_x := Fin (x + (x - x) * 0.99),
        p_y := Fin (y + fall_depth g d n
                 + (y + fall_depth g d n - (y + fall_depth g d n - fall_speed g d n)) * 0.99
                 + g * d\<^sup>2 / 2)\<rparr>"
    by (intro verlet_point_finite) (simp_all add: falling_def)
  with assms show ?thesis
    by (simp add: falling_def located_def fall_depth_Suc fall_speed_Suc)
qed

lemma idle_mouse: "\<not> mouseDown ms \<Longrightarrow> \<not> dragged pr ms p \<and> \<not> cutting pr ms p"
  by (simp add: dragged_def cutting_def)

lemma updates_falling:
  assumes "a < points_count h" and "\<not> mouseDown ms" and "gravity pr = Fin g"
    and "falling x y g d 0 (point_at h a)"
  shows "\<exists>h'. updates pr ms a (Fin d) n h = Some h' \<and> points_count h' = points_count h
     \<and> falling x y g d n (point_at h' a)"
proof (induction n)
  case 0
  with assms(4) show ?case by (simp add: updates_def)
next
  case (Suc n)
  then obtain k where k: "updates pr ms a (Fin d) n h = Some k" "points_count k = points_count h"
    "falling x y g d n (point_at k a)"
    by blast
  from assms(1,2) k(2) have "Point_update pr ms a (Fin d) k =
      Some (upd_point a (verlet_point (gravity pr) (Fin d)) k)"
    by (intro Point_update_idle) (simp_all add: idle_mouse)
  with k assms(1,3) show ?case
    by (simp add: updates_def fold_opt_snoc falling_step)
qed

text \<open>
  C25. A point at rest at \<open>(x, y)\<close>, updated \<open>n\<close> times with the button up, a time
  step \<open>d\<close> and a gravity \<open>g \<ge> 0\<close>, is at \<open>(x, y + fall_depth g d n)\<close>, and the
  distance it covered in the last step is \<open>fall_speed g d n\<close>, which never
  exceeds \<open>50 * g * d\<^sup>2\<close>. The fall is that of a body with a terminal
  velocity, not a parabola: the factor \<open>0.99\<close> is applied to the whole velocity
  at every step.
\<close>

theorem free_fall:
  assumes "a < points_count h" and "\<not> mouseDown ms" and "gravity pr = Fin g" and "0 \<le> g"
    and "located (point_at h a) x y"
    and "p_px (point_at h a) = Fin x" and "p_py (point_at h a) = Fin y"
    and "p_vx (point_at h a) = Fin 0" and "p_vy (point_at h a) = Fin 0"
  shows "\<exists>h'. updates pr ms a (Fin d) n h = Some h'
     \<and> located (point_at h' a) x (y + fall_depth g d n)
     \<and> p_py (point_at h' a) = Fin (y + fall_depth g d n - fall_speed g d n)
     \<and> 0 \<le> fall_speed g d n \<and> fall_speed g d n \<le> 50 * g * d\<^sup>2"
proof -
  from assms(5-9) have "falling x y g d 0 (point_at h a)"
    by (simp add: falling_def fall_depth_def fall_speed_def)
  from updates_falling [OF assms(1-3) this, of n] fall_speed_bounds [OF assms(4), of d n]
  show ?thesis by (auto simp: falling_def)
qed

theorem free_fall_witness:
  "\<exists>h'. updates (example_props 60) (example_mouse False 0 0 0) 0 (Fin (1 / 10)) 2
         (example_heap 0 0 3 4 10) = Some h'
     \<and> located (point_at h' 0) 0 (1794 / 100)
     \<and> p_py (point_at h' 0) = Fin 6
     \<and> fall_speed 1200 (1 / 10) 2 = 1194 / 100"
  using free_fall [of 0 "example_heap 0 0 3 4 10" "example_mouse False 0 0 0" "example_props 60"
      1200 0 0 "1 / 10" 2]
  by (simp add: example_defs example_mouse_def located_def fall_depth_def fall_speed_def
      power2_eq_square)

section \<open>A loose point in the frame loop\<close>

text \<open>
  A point is loose when it is not pinned and holds no constraint. One frame
  clamps it three times, once in each relaxation pass, and then integrates it.
\<close>

definition loose :: "point \<Rightarrow> bool" where
  "loose p \<longleftrightarrow> \<not> pinned p \<and> p_constraints p = []"

definition frame_point :: "props \<Rightarrow> canvas option \<Rightarrow> point \<Rightarrow> point" where
  "frame_point pr cv = (\<lambda>p. verlet_point (gravity pr) 0.016
     (clamp_into cv (clamp_into cv (clamp_into cv p))))"

lemma loose_clamp [simp]: "loose (clamp_into cv p) = loose p"
  by (simp add: loose_def pinned_def clamp_into_def)

lemma loose_verlet [simp]: "loose (verlet_point g d p) = loose p"
  by (simp add: loose_def pinned_def verlet_point_def)

lemma resolve_loose:
  assumes "a < points_count h" and "loose (point_at h a)"
  shows "Point_resolveConstraints pr cv a h = Some (upd_point a (clamp_into cv) h)"
  using assms by (simp add: Point_resolveConstraints_eq loose_def constraints_of_def)

lemma free_frame:
  assumes a: "a < points_count h" and l: "loose (point_at h a)" and up: "\<not> mouseDown ms"
  shows "Cloth_update pr cv ms \<lparr>cloth_points = [a]\<rparr> h = Some (upd_point a (frame_point pr cv) h)"
proof -
  let ?c = "clamp_into cv"
  have pass: "fold_opt (Point_resolveConstraints pr cv) [a] (upd_point a f h) =
      Some (upd_point a (?c \<circ> f) h)" if "loose (f (point_at h a))" for f
    using a that by (simp add: resolve_loose upd_point_twice)
  have "fold_opt (\<lambda>i. fold_opt (Point_resolveConstraints pr cv) [a]) [0 ..< physicsAccuracy] h =
      Some (upd_point a (?c \<circ> (?c \<circ> ?c)) h)"
    using a l pass [of ?c] pass [of "?c \<circ> ?c"]
    by (simp add: physicsAccuracy_def upt_conv_Cons resolve_loose)
  moreover have "Point_update pr ms a 0.016 (upd_point a (?c \<circ> (?c \<circ> ?c)) h) =
      Some (upd_point a (verlet_point (gravity pr) 0.016) (upd_point a (?c \<circ> (?c \<circ> ?c)) h))"
    using a up by (intro Point_update_idle) (simp_all add: idle_mouse)
  ultimately show ?thesis
    using a by (simp add: Cloth_update_def upd_point_twice frame_point_def comp_def)
qed

lemma frames_loose:
  assumes a: "a < points_count h" and l: "loose (point_at h a)" and up: "\<not> mouseDown ms"
  shows "frames pr cv ms \<lparr>cloth_points = [a]\<rparr> n h = Some (upd_point a (frame_point pr cv ^^ n) h)"
proof (induction n)
  case 0
  show ?case by (simp add: frames_def upd_point_id)
next
  case (Suc n)
  have "loose ((frame_point pr cv ^^ n) p) = loose p" for p
    by (induction n) (simp_all add: frame_point_def)
  with a l have "Cloth_update pr cv ms \<lparr>cloth_points = [a]\<rparr> (upd_point a (frame_point pr cv ^^ n) h)
      = Some (upd_point a (frame_point pr cv) (upd_point a (frame_point pr cv ^^ n) h))"
    using up by (intro free_frame) simp_all
  with Suc a show ?case
    by (simp add: frames_def fold_opt_snoc upd_point_twice comp_def)
qed

section \<open>Reaching the floor\<close>

text \<open>
  The invariant of the fall of a loose point in a canvas whose lower bound is
  \<open>bottom\<close>: after \<open>k\<close> frames the point is at least \<open>k\<close> times the drop of one
  frame below where it started, or at the bottom; it never moves upwards.
\<close>

definition dropping :: "real \<Rightarrow> real \<Rightarrow> real \<Rightarrow> real \<Rightarrow> nat \<Rightarrow> point \<Rightarrow> bool" where
  "dropping x bottom y0 c k p \<longleftrightarrow>
     p_x p = Fin x \<and> p_px p = Fin x \<and> is_finite (p_y p) \<and> is_finite (p_py p)
     \<and> p_vx p = Fin 0 \<and> p_vy p = Fin 0
     \<and> val (p_py p) \<le> val (p_y p) \<and> val (p_py p) \<le> bottom \<and> 1 \<le> val (p_y p)
     \<and> (y0 + real k * c \<le> val (p_y p) \<or> bottom \<le> val (p_y p))"

definition frame_drop :: "real \<Rightarrow> real" where
  "frame_drop g = g * 0.016\<^sup>2 / 2"

lemma frame_drop_pos: "0 < g \<Longrightarrow> 0 < frame_drop g"
  by (simp add: frame_drop_def)

lemma dropping_step:
  assumes d: "dropping x (H - 1) y0 (frame_drop g) k p"
    and cv: "canvasWidth cv = Fin W" "canvasHeight cv = Fin H"
    and x: "1 \<le> x" "x \<le> W - 1" and H: "1 \<le> H - 1"
    and g: "gravity pr = Fin g" "0 < g"
  shows "dropping x (H - 1) y0 (frame_drop g) (Suc k) (frame_point pr cv p)"
proof -
  let ?c = "frame_drop g"
  from g(2) have c: "0 < ?c" by (rule frame_drop_pos)
  from d obtain y q where p: "located p x y" "p_px p = Fin x" "p_py p = Fin q"
      "p_vx p = Fin 0" "p_vy p = Fin 0"
    and b: "q \<le> y" "q \<le> H - 1" "1 \<le> y" "y0 + real k * ?c \<le> y \<or> H - 1 \<le> y"
    by (auto simp: dropping_def located_def is_finite_iff)
  let ?yc = "max 1 (min (H - 1) y)"
  let ?y' = "?yc + (?yc - q) * 0.99 + ?c"
  let ?q = "clamp_into cv (clamp_into cv (clamp_into cv p))"
  from p x H have q: "located ?q x ?yc" "p_px ?q = Fin x" "p_py ?q = Fin q"
      "p_vx ?q = Fin 0" "p_vy ?q = Fin 0"
    by (simp_all add: clamp_into_def located_def cv)
  have "frame_point pr cv p = ?q\<lparr>p_px := Fin x, p_py := Fin ?yc,
      p_x := Fin (x + (x - x) * 0.99), p_y := Fin (?yc + (?yc - q) * 0.99 + g * 0.016\<^sup>2 / 2)\<rparr>"
    unfolding frame_point_def g(1)
    using verlet_point_finite [OF q, of g "0.016"] by simp
  then have v: "frame_point pr cv p = ?q\<lparr>p_px := Fin x, p_py := Fin ?yc,
      p_x := Fin x, p_y := Fin ?y'\<rparr>"
    by (simp add: frame_drop_def)
  from b H have 1: "q \<le> ?yc" "?yc \<le> H - 1" "1 \<le> ?yc" by auto
  then have "0 \<le> (?yc - q) * 0.99" by simp
  then have 2: "?yc + ?c \<le> ?y'" by simp
  from b(3,4) have "y0 + real k * ?c + ?c \<le> ?yc + ?c \<or> H - 1 \<le> ?yc" by auto
  then have 3: "y0 + real (Suc k) * ?c \<le> ?yc + ?c \<or> H - 1 \<le> ?yc"
    by (simp add: algebra_simps)
  from 1 2 c have 4: "?yc \<le> ?y'" "1 \<le> ?y'" by linarith+
  from 2 3 c have 5: "y0 + real (Suc k) * ?c \<le> ?y' \<or> H - 1 \<le> ?y'" by linarith
  from 1(2) 4 5 show ?thesis
    unfolding dropping_def v using q(4,5) by simp
qed

lemma dropping_frames:
  assumes "dropping x (H - 1) y0 (frame_drop g) 0 p"
    and "canvasWidth cv = Fin W" "canvasHeight cv = Fin H"
    and "1 \<le> x" "x \<le> W - 1" and "1 \<le> H - 1"
    and "gravity pr = Fin g" "0 < g"
  shows "dropping x (H - 1) y0 (frame_drop g) m ((frame_point pr cv ^^ m) p)"
proof (induction m)
  case 0
  from assms(1) show ?case by simp
next
  case (Suc m)
  from Suc assms(2-8) show ?case by (simp add: dropping_step)
qed

text \<open>
  C26. A loose point at rest inside the canvas, under a positive gravity and
  with the button up, reaches the lower bound of the canvas: there is a number
  of frames after which, at the end of every frame, the point has a finite
  ordinate that is at least the height of the canvas minus one. No frame
  raises on the way.
\<close>

theorem loose_point_reaches_floor:
  assumes a: "a < points_count h" and up: "\<not> mouseDown ms" and l: "loose (point_at h a)"
    and rest: "located (point_at h a) x y0" "p_px (point_at h a) = Fin x"
      "p_py (point_at h a) = Fin y0" "p_vx (point_at h a) = Fin 0" "p_vy (point_at h a) = Fin 0"
    and cv: "canvasWidth cv = Fin W" "canvasHeight cv = Fin H"
    and inside: "1 \<le> x" "x \<le> W - 1" "1 \<le> y0" "y0 \<le> H - 1"
    and g: "gravity pr = Fin g" "0 < g"
  shows "\<exists>n. \<forall>m \<ge> n. \<exists>h'. frames pr cv ms \<lparr>cloth_points = [a]\<rparr> m h = Some h'
     \<and> is_finite (p_y (point_at h' a)) \<and> H - 1 \<le> val (p_y (point_at h' a))"
proof -
  let ?c = "frame_drop g"
  from g(2) have c: "0 < ?c" by (rule frame_drop_pos)
  from rest inside have d0: "dropping x (H - 1) y0 ?c 0 (point_at h a)"
    by (simp add: dropping_def located_def)
  from inside have H: "1 \<le> H - 1" by simp
  from c obtain n where n: "H - 1 - y0 < real n * ?c"
    using reals_Archimedean3 [of ?c] by blast
  have "\<exists>h'. frames pr cv ms \<lparr>cloth_points = [a]\<rparr> m h = Some h'
      \<and> is_finite (p_y (point_at h' a)) \<and> H - 1 \<le> val (p_y (point_at h' a))" if "n \<le> m" for m
  proof -
    have "dropping x (H - 1) y0 ?c m ((frame_point pr cv ^^ m) (point_at h a))"
      using d0 cv inside(1,2) H g by (rule dropping_frames)
    moreover from that c have "real n * ?c \<le> real m * ?c" by simp
    ultimately have "is_finite (p_y ((frame_point pr cv ^^ m) (point_at h a)))"
      "H - 1 \<le> val (p_y ((frame_point pr cv ^^ m) (point_at h a)))"
      using n by (auto simp: dropping_def)
    with a show ?thesis
      by (simp add: frames_loose [OF a l up])
  qed
  then show ?thesis by blast
qed

theorem loose_point_reaches_floor_witness:
  "\<exists>n. \<forall>m \<ge> n. \<exists>h'. frames (example_props 60) None (example_mouse False 0 0 0)
        \<lparr>cloth_points = [0]\<rparr> m (example_heap 5 5 3 4 10) = Some h'
     \<and> is_finite (p_y (point_at h' 0)) \<and> 200 - 1 \<le> val (p_y (point_at h' 0))"
  using loose_point_reaches_floor [of 0 "example_heap 5 5 3 4 10" "example_mouse False 0 0 0"
      5 5 None 200 200 "example_props 60" 1200]
  by (simp add: example_defs example_mouse_def located_def loose_def pinned_def
      canvasWidth_def canvasHeight_def)

section \<open>A coordinate that is not a number stays so\<close>

text \<open>A point that is not pinned and whose abscissa is \<^verbatim>\<open>NaN\<close>.\<close>

definition lost :: "addr \<Rightarrow> heap \<Rightarrow> bool" where
  "lost a h \<longleftrightarrow> a < points_count h \<and> \<not> pinned (point_at h a) \<and> p_x (point_at h a) = NaN"

lemma lost_moves [simp]:
  "p_x (shift d p) = p_x p + fst d" "p_x (unshift d p) = p_x p - fst d"
  "p_x (detach c p) = p_x p"
  "p_x (clamp_into cv p) = Math_max 1 (Math_min (canvasWidth cv - 1) (p_x p))"
  "p_x (pull ms p) = p_x p"
  "p_x (verlet_point g dt p) = p_x p + (p_x p - p_px p) * 0.99 + ((p_vx p + 0) / 2) * (dt * dt)"
  "pinned (shift d p) = pinned p" "pinned (unshift d p) = pinned p"
  "pinned (detach c p) = pinned p" "pinned (clamp_into cv p) = pinned p"
  "pinned (pull ms p) = pinned p" "pinned (verlet_point g dt p) = pinned p"
  "pinned (p\<lparr>p_constraints := cs\<rparr>) = pinned p"
  by (simp_all add: shift_def unshift_def detach_def clamp_into_def pull_def verlet_point_def
      pinned_def)

lemma lost_move:
  assumes "move pr cv ms k k'" and "lost a k"
  shows "lost a k'"
  using assms by (cases rule: move.cases) (auto simp: lost_def point_at_upd split: if_splits)

lemma frames_moves:
  assumes "frames pr cv ms this n h = Some h'"
  shows "moves pr cv ms h h'"
  using assms unfolding frames_def by (rule fold_opt_moves) (rule Cloth_update_moves)

text \<open>
  C22. Once the abscissa of a point that is not pinned is \<^verbatim>\<open>NaN\<close>, it is \<^verbatim>\<open>NaN\<close>
  after every later frame, whatever the mouse does and whichever constraints
  tear: no relaxation, no clamp and no integration turns \<^verbatim>\<open>NaN\<close> into a number.
  The point is never drawn at a position again.
\<close>

theorem lost_point_stays_lost:
  assumes "frames pr cv ms this n h = Some h'" and "lost a h"
  shows "lost a h'"
  using frames_moves [OF assms(1)] assms(2) by (rule moves_invariant) (rule lost_move)

theorem lost_point_stays_lost_witness:
  "\<exists>h'. frames (example_props 60) None (example_mouse True 0 0 0) \<lparr>cloth_points = [0, 1]\<rparr> 5
        (upd_point 0 (\<lambda>p. p\<lparr>p_x := NaN\<rparr>) (example_heap 0 0 3 4 10)) = Some h'
     \<and> lost 0 h'"
proof -
  let ?h = "upd_point 0 (\<lambda>p. p\<lparr>p_x := NaN\<rparr>) (example_heap 0 0 3 4 10)"
  have "wf_heap ?h" using example_wf by (rule wf_heap_upd_coords) simp
  moreover have "valid_cloth \<lparr>cloth_points = [0, 1]\<rparr> ?h"
    by (simp add: valid_cloth_iff) (simp add: example_heap_def points_count_def)
  ultimately obtain h' where "frames (example_props 60) None (example_mouse True 0 0 0)
      \<lparr>cloth_points = [0, 1]\<rparr> 5 ?h = Some h'"
    using frames_total by blast
  moreover have "lost 0 ?h"
    by (simp add: lost_def pinned_def example_defs points_count_def point_at_def upd_point_def)
  ultimately show ?thesis
    using lost_point_stays_lost [of "example_props 60" None "example_mouse True 0 0 0"
        "\<lparr>cloth_points = [0, 1]\<rparr>" 5 ?h h' 0]
    by simp
qed

section \<open>The accumulated force is zero between frames\<close>

text \<open>
  \<^verbatim>\<open>addForce\<close> is called by \<^verbatim>\<open>update\<close> alone, which sets the force back to zero
  before it returns: in every state between two frames the force of every
  point is zero, so that the step of \<^verbatim>\<open>update\<close> is the Verlet step with the
  gravity as the only force.
\<close>

definition calm :: "heap \<Rightarrow> bool" where
  "calm h \<longleftrightarrow> list_all (\<lambda>p. p_vx p = 0 \<and> p_vy p = 0) (h_points h)"

lemma calm_iff: "calm h \<longleftrightarrow> (\<forall>a < points_count h. p_vx (point_at h a) = 0 \<and> p_vy (point_at h a) = 0)"
  by (simp add: calm_def list_all_length points_count_def point_at_def)

lemma calm_move:
  assumes "move pr cv ms k k'" and "calm k"
  shows "calm k'"
  using assms
  by (cases rule: move.cases)
    (auto simp: calm_iff point_at_upd detach_def shift_def unshift_def clamp_into_def snap_def
      pull_def verlet_point_def)

lemma grid_calm: "calm (grid_heap pr cv n)"
  by (simp add: calm_iff grid_point_def)

lemma frame_calm:
  assumes "frame pr s = Some t" and "calm (sim_heap s)"
  shows "calm (sim_heap t)"
proof -
  from assms(1) obtain h where "Cloth_update pr (Some (sim_canvas s)) (sim_mouse s) (sim_cloth s) (sim_heap s) = Some h"
    and "sim_heap t = h"
    by (auto simp: frame_def Let_def split: Option.bind_splits)
  with assms(2) show ?thesis
    using moves_invariant [OF Cloth_update_moves, where P = calm] calm_move by metis
qed

lemma reachable_calm: "reachable pr s \<Longrightarrow> calm (sim_heap s)"
proof (induction rule: reachable.induct)
  case (initial s)
  then have "frame pr \<lparr>sim_canvas = first_canvas pr, sim_heap = first_grid pr,
      sim_cloth = grid_cloth (grid_size pr),
      sim_mouse = \<lparr>mouseX = 0, mouseY = 0, mouseDown = False, mouseButton = 0\<rparr>, sim_ctx = []\<rparr>
      = Some s"
    by (simp add: start_def first_grid_def split_def)
  from frame_calm [OF this] show ?case by (simp add: first_grid_def grid_calm)
next
  case (after s e s')
  then show ?case by (cases e) (auto dest: frame_calm)
qed

end
