(* ===== verification/Loops.thy ===== *)
theory Loops
  imports Cloth "HOL-Library.While_Combinator"
begin

text \<open>
  The two nested \<^verbatim>\<open>for\<close> loops of the constructor of \<^verbatim>\<open>Cloth\<close> kept as a loop: one
  \<open>while_option\<close> over the two counters and the objects built so far, whose
  result is \<open>None\<close> when the loop does not end. The theory proves that it ends
  for every \<^verbatim>\<open>clothWidth\<close> and \<^verbatim>\<open>clothHeight\<close>, with the result of the recursive
  functions \<open>Cloth_rows\<close> and \<open>Cloth_row\<close> that theory \<open>Cloth\<close> works with.
\<close>

section \<open>The constructor as a while loop\<close>

text \<open>
  The state is \<open>(y, x, s)\<close>: the counters of the outer and of the inner loop and
  the cloth and store so far. The outer loop runs while \<open>y \<le> clothHeight\<close>. One
  step is one test of the inner loop: when \<open>x \<le> clothWidth\<close> the body runs and
  \<open>x\<close> is incremented, otherwise the inner loop is left, \<open>y\<close> is incremented and
  \<open>x\<close> starts again at \<open>0\<close>.
\<close>

definition Cloth_loop_cond :: "props \<Rightarrow> int \<times> int \<times> cloth \<times> heap \<Rightarrow> bool" where
  "Cloth_loop_cond pr = (\<lambda>(y, x, s). y \<le> clothHeight pr)"

definition Cloth_loop_body ::
  "props \<Rightarrow> number \<Rightarrow> int \<times> int \<times> cloth \<times> heap \<Rightarrow> int \<times> int \<times> cloth \<times> heap" where
  "Cloth_loop_body pr startX = (\<lambda>(y, x, s).
     if x \<le> clothWidth pr then (y, x + 1, Cloth_cell pr startX y x s) else (y + 1, 0, s))"

definition Cloth_loop :: "props \<Rightarrow> canvas option \<Rightarrow> heap \<Rightarrow> (int \<times> int \<times> cloth \<times> heap) option" where
  "Cloth_loop pr cv h =
     while_option (Cloth_loop_cond pr) (Cloth_loop_body pr (Cloth_startX pr cv))
       (0, 0, \<lparr>cloth_points = []\<rparr>, h)"

section \<open>The loop ends\<close>

text \<open>From any column of a row the loop reaches the start of the next row.\<close>

lemma Cloth_loop_row:
  "y \<le> clothHeight pr \<Longrightarrow>
   while_option (Cloth_loop_cond pr) (Cloth_loop_body pr sx) (y, x, s)
     = while_option (Cloth_loop_cond pr) (Cloth_loop_body pr sx) (y + 1, 0, Cloth_row pr sx y x s)"
proof (induction pr sx y x s rule: Cloth_row.induct)
  case (1 pr sx y x s)
  then show ?case
    by (subst while_option_unfold, subst Cloth_row.simps)
      (simp add: Cloth_loop_cond_def Cloth_loop_body_def)
qed

text \<open>From the start of any row the loop reaches its end.\<close>

lemma Cloth_loop_rows:
  "while_option (Cloth_loop_cond pr) (Cloth_loop_body pr sx) (y, 0, s)
     = Some (max y (clothHeight pr + 1), 0, Cloth_rows pr sx y s)"
proof (induction pr sx y s rule: Cloth_rows.induct)
  case (1 pr sx y s)
  show ?case
  proof (cases "y \<le> clothHeight pr")
    case True
    with 1 show ?thesis
      by (subst Cloth_rows.simps) (simp add: Cloth_loop_row max_def)
  next
    case False
    then show ?thesis
      by (subst while_option_unfold, subst Cloth_rows.simps) (simp add: Cloth_loop_cond_def)
  qed
qed

text \<open>
  C15. The nested loops of the constructor end for every value of \<^verbatim>\<open>clothWidth\<close>
  and \<^verbatim>\<open>clothHeight\<close>, negative ones included: the loop returns, the outer
  counter stands at \<open>clothHeight + 1\<close> (at \<open>0\<close> when that is negative), and the
  cloth and the store are the ones the recursive definition of the
  constructor computes.
\<close>

theorem Cloth_loop_terminates:
  "Cloth_loop pr cv h = Some (max 0 (clothHeight pr + 1), 0, Cloth_new pr cv h)"
  by (simp add: Cloth_loop_def Cloth_new_def Cloth_loop_rows)

end
