(* ===== verification/Links.thy ===== *)
theory Links
  imports Point
begin

text \<open>
  Laws that span the two classes \<^verbatim>\<open>Point\<close> and \<^verbatim>\<open>Constraint\<close>: the test by which
  the cut of the mouse selects constraints is the test by which \<^verbatim>\<open>resolve\<close>
  tears them, a torn constraint resolved again does nothing, a constraint moves
  a pinned end like any other, a constraint
  attached to \<^verbatim>\<open>undefined\<close> makes the next relaxation of its point raise, and a
  pin survives everything the simulation does to the store.
\<close>

section \<open>The cut and the tear use one test\<close>

lemma stretched_iff:
  assumes "wf_heap h" and "a < points_count h" and "c \<in> set (constraints_of h a)"
    and "c_p2 c = Some b"
  shows "stretched pr h c \<longleftrightarrow> separation (point_at h a) (point_at h b) > tearDistance pr"
proof -
  note held_ends(1) [OF assms(1-3)] held_ends(2) [OF assms(1-3) assms(4)]
  with assms(2,4) show ?thesis
    using longer_than_tear_eq [of h c a "point_at h a" b "point_at h b" pr]
    by (simp add: stretched_def)
qed

lemma relaxed_keeps_lists:
  assumes "a < points_count h" and "b < points_count h"
  shows "constraints_of (upd_point b (unshift d) (upd_point a (shift d) h)) a = constraints_of h a"
  using assms by (simp add: constraints_of_def point_at_upd)

text \<open>
  C16. For a constraint that a point of a well-formed store holds, the
  predicate of the filter in the cut branch of \<^verbatim>\<open>Point.update\<close> is true exactly
  when \<^verbatim>\<open>Constraint.resolve\<close> would tear the constraint, that is, return the store
  from which that constraint alone is removed. The two pieces of code compute
  the separation of the end points separately, once with \<^verbatim>\<open>**\<close> and once with
  \<^verbatim>\<open>*\<close>; they agree on every value, \<^verbatim>\<open>NaN\<close> and the infinities included.
\<close>

theorem cut_keeps_what_resolve_tears:
  assumes wf: "wf_heap h" and a: "a < points_count h" and held: "c \<in> set (constraints_of h a)"
  shows "stretched pr h c \<longleftrightarrow> Constraint_resolve pr c h = Some (without c h)"
proof -
  from held_ends [OF wf a held] obtain b
    where e: "c_p1 c = Some a" "c_p2 c = Some b" "b < points_count h"
    by blast
  note s = stretched_iff [OF wf a held e(2), of pr]
  let ?d = "correction c (point_at h a) (point_at h b)"
  show ?thesis
  proof
    assume "stretched pr h c"
    with s show "Constraint_resolve pr c h = Some (without c h)"
      by (intro Constraint_resolve_torn [OF wf a held e(2)]) simp
  next
    assume r: "Constraint_resolve pr c h = Some (without c h)"
    show "stretched pr h c"
    proof (rule ccontr)
      assume "\<not> stretched pr h c"
      with s have "Constraint_resolve pr c h = Some (upd_point b (unshift ?d) (upd_point a (shift ?d) h))"
        using Constraint_resolve_eq [of h c a "point_at h a" b "point_at h b" pr] a e by simp
      with r have "constraints_of (without c h) a =
          constraints_of (upd_point b (unshift ?d) (upd_point a (shift ?d) h)) a"
        by simp
      with a e(3) have "removeAll c (constraints_of h a) = constraints_of h a"
        by (simp add: relaxed_keeps_lists) (simp add: constraints_of_def)
      then have "c \<notin> set (constraints_of h a)"
        using set_removeAll [of c "constraints_of h a"] by auto
      with held show False by simp
    qed
  qed
qed

theorem cut_keeps_what_resolve_tears_witness:
  "stretched (example_props 4) (example_heap 0 0 3 4 10) (example_link 10)
   \<and> Constraint_resolve (example_props 4) (example_link 10) (example_heap 0 0 3 4 10)
       = Some (without (example_link 10) (example_heap 0 0 3 4 10))"
proof -
  have "stretched (example_props 4) (example_heap 0 0 3 4 10) (example_link 10)"
    by (simp add: stretched_def longer_than_tear_def example_defs separation_def)
  with cut_keeps_what_resolve_tears [OF example_wf _ example_held, of 0 0 3 4 10 "example_props 4"]
  show ?thesis by (simp add: example_defs)
qed

section \<open>A torn constraint resolved again\<close>

text \<open>
  C37. After a held constraint has been torn, a second call of \<^verbatim>\<open>resolve\<close> on the
  same object, with its end points still further apart than the tear distance,
  returns normally and changes nothing: the two filters find nothing to remove.
\<close>

theorem Constraint_resolve_torn_again:
  assumes wf: "wf_heap h" and a: "a < points_count h" and held: "c \<in> set (constraints_of h a)"
    and b: "c_p2 c = Some b"
    and torn: "separation (point_at h a) (point_at h b) > tearDistance pr"
  shows "Constraint_resolve pr c (without c h) = Some (without c h)"
proof -
  note e = held_ends(1) [OF wf a held] held_ends(2) [OF wf a held b]
  from a held have inall: "c \<in> set (all_constraints h)"
    by (auto simp: all_constraints_iff)
  have same: "upd_point k (detach c) (without c h) = without c h" for k
  proof (cases "k < points_count h")
    case True
    have "filter (\<lambda>c'. c_id c' \<noteq> c_id c) (removeAll c (constraints_of h k)) =
        removeAll c (constraints_of h k)"
      unfolding filter_other_ids [OF wf inall True, symmetric] by simp
    with True show ?thesis
      by (intro upd_point_id) (simp add: detach_def)
  next
    case False
    then show ?thesis by (simp add: upd_point_beyond)
  qed
  have "separation (point_at (without c h) a) (point_at (without c h) b)
      = separation (point_at h a) (point_at h b)"
    using a e(2) by (simp add: separation_def)
  with torn show ?thesis
    using Constraint_resolve_eq [of "without c h" c a "point_at (without c h) a" b
        "point_at (without c h) b" pr] a e b
    by (simp add: same)
qed

theorem Constraint_resolve_torn_again_witness:
  "Constraint_resolve (example_props 4) (example_link 10)
      (without (example_link 10) (example_heap 0 0 3 4 10))
     = Some (without (example_link 10) (example_heap 0 0 3 4 10))"
  using Constraint_resolve_torn_again [OF example_wf _ example_held, of 0 0 3 4 10 0 "example_props 4"]
  by (simp add: example_defs separation_def)

section \<open>A constraint moves a pinned end\<close>

text \<open>
  \<^verbatim>\<open>resolve\<close> never reads the pins. A constraint whose end points are not at its
  rest length moves both of them, a pinned one included; the pinned point is
  off its pin until its own \<^verbatim>\<open>resolveConstraints\<close> snaps it back, and the
  constraints resolved in between read the displaced position.
\<close>

lemma Constraint_resolve_displaces_pinned:
  assumes p1: "deref h (c_p1 c) = Some (a1, P1)" and p2: "deref h (c_p2 c) = Some (a2, P2)"
    and l1: "located P1 x1 y1" and l2: "located P2 x2 y2"
    and apart: "x1 \<noteq> x2 \<or> y1 \<noteq> y2"
    and len: "c_length c = Fin L"
    and slack: "\<not> separation P1 P2 > tearDistance pr"
    and off: "euclid (x1 - x2) (y1 - y2) \<noteq> L"
  shows "\<exists>h'. Constraint_resolve pr c h = Some h'
     \<and> pinned (point_at h' a2) = pinned P2 \<and> \<not> located (point_at h' a2) x2 y2"
proof -
  let ?d = "euclid (x1 - x2) (y1 - y2)"
  from p1 p2 l1 l2 apart len slack obtain h'
    where res: "Constraint_resolve pr c h = Some h'"
      and q: "located (point_at h' a2) (x2 - (x1 - x2) * ((L - ?d) / ?d) / 2)
                (y2 - (y1 - y2) * ((L - ?d) / ?d) / 2)"
      and pins: "p_pinX (point_at h' a2) = p_pinX P2" "p_pinY (point_at h' a2) = p_pinY P2"
    by (rule Constraint_resolve_relaxed)
  from apart have "?d \<noteq> 0" by simp
  with off have k: "(L - ?d) / ?d \<noteq> 0" by simp
  have "\<not> located (point_at h' a2) x2 y2"
  proof
    assume "located (point_at h' a2) x2 y2"
    with q have "(x1 - x2) * ((L - ?d) / ?d) = 0" "(y1 - y2) * ((L - ?d) / ?d) = 0"
      by (simp_all add: located_def)
    with k apart show False by auto
  qed
  with res pins show ?thesis by (simp add: pinned_def)
qed

section \<open>Attaching to nothing\<close>

text \<open>
  \<^verbatim>\<open>attach\<close> does not look at its argument. Attached to \<^verbatim>\<open>undefined\<close>, a point that
  is not pinned raises at its next relaxation, when the new constraint reads
  \<^verbatim>\<open>this.p2.x\<close>. The constructor of \<^verbatim>\<open>Cloth\<close> never does this: the index it
  reads is that of a point it has made.
\<close>

lemma attach_undefined_raises:
  assumes "a < points_count h" and "\<not> pinned (point_at h a)"
  shows "Point_resolveConstraints pr cv a (Point_attach pr a None h) = None"
proof -
  let ?h = "Point_attach pr a None h"
  let ?c = "fresh_constraint pr h a None"
  have cs: "constraints_of ?h a = constraints_of h a @ [?c]"
    using assms(1) by (simp add: constraints_of_def Point_attach_point)
  have "Constraint_resolve pr ?c k = None" for k
    by (simp add: Constraint_resolve_None_iff fresh_constraint_def)
  then have "fold_opt (Constraint_resolve pr) (constraints_of ?h a) ?h = None"
    by (simp add: cs fold_opt_snoc split: option.splits)
  moreover from assms have "\<not> pinned (point_at ?h a)"
    by (simp add: Point_attach_point pinned_def)
  ultimately show ?thesis
    using assms(1) by (simp add: Point_resolveConstraints_eq)
qed

section \<open>A pin is read back\<close>

text \<open>
  Whatever happens to the store between \<^verbatim>\<open>pin\<close> and the next relaxation of the
  point, as long as it is one of the changes the simulation makes, the
  relaxation puts the point at the coordinates \<^verbatim>\<open>pin\<close> was given.
\<close>

lemma pin_resolve_roundtrip:
  assumes "a < points_count h" and "evolves (Point_pin a x y h) k"
  shows "\<exists>k'. Point_resolveConstraints pr cv a k = Some k'
     \<and> p_x (point_at k' a) = x \<and> p_y (point_at k' a) = y
     \<and> p_pinX (point_at k' a) = Some x \<and> p_pinY (point_at k' a) = Some y"
proof -
  from assms have pins: "p_pinX (point_at k a) = Some x" "p_pinY (point_at k a) = Some y"
    and a: "a < points_count k"
    using evolvesD(1,3,4) [OF assms(2)] by (simp_all add: Point_pin_eq)
  then show ?thesis
    by (simp add: Point_resolveConstraints_eq pinned_def snap_def)
qed

end
