(* ===== verification/Spec2Isabelle.thy ===== *)
theory Spec2Isabelle
  imports Page Motion Loops Links
begin

text \<open>
  \<^bold>\<open>A verification development for the cloth simulation of
  \<^verbatim>\<open>src/src/ClothSimulation.tsx\<close>.\<close>

  The program is one React component. Inside its effect it declares three
  classes and the closures that drive them:
  \<^item> \<^verbatim>\<open>Point\<close> (lines 58 to 138): a particle with a position, the previous
    position, an accumulated force, an optional pin and the list of the
    constraints it holds; \<^verbatim>\<open>update\<close> integrates one Verlet step after applying
    the mouse, \<^verbatim>\<open>resolveConstraints\<close> snaps a pinned point to its pin or resolves
    the point's constraints and clamps it into the canvas.
  \<^item> \<^verbatim>\<open>Constraint\<close> (lines 140 to 167): a rest length between two points;
    \<^verbatim>\<open>resolve\<close> tears the constraint when it is overstretched and otherwise
    moves both ends half of the correction each.
  \<^item> \<^verbatim>\<open>Cloth\<close> (lines 169 to 210): builds the grid of points, row by row, and
    per frame runs three relaxation passes, one integration pass and one
    drawing pass.
  \<^item> the closures (lines 212 to 266): the mouse handlers that write the four
    mouse variables, the frame callback that clears, updates, draws and asks
    for the next frame, and the registration and removal of the listeners.
  \<^item> the component around them (lines 18 to 56 and 267 to 296): the props and
    their defaults, the state \<^verbatim>\<open>canvasSize\<close>, the two guards at the head of the
    effect, \<^verbatim>\<open>clothSettings\<close>, the dependency list and the canvas element.

  The parts interact through shared variables. The classes read the props, the
  canvas and the four mouse variables of the run of the effect that declared
  them; the handlers write the mouse variables; \<^verbatim>\<open>resizeCanvas\<close> writes the state
  of the component, which reaches the canvas at the next render; every run of
  the effect draws on the one 2D context of the canvas.

  \<^bold>\<open>Theories.\<close>
  \<^descr>[\<open>Prelude\<close>] the fact collections \<open>frame\<close> and \<open>wf_intros\<close>; the JavaScript
    loop and array primitives (\<open>fold_opt\<close> for \<^verbatim>\<open>forEach\<close> and \<^verbatim>\<open>for ... of\<close> with a
    body that may raise, \<open>filter_opt\<close>, \<open>array_get\<close>) with their loop rules;
    counting loops as folds over intervals (\<open>fold_grid\<close>); the real-number facts
    about distances (\<open>euclid\<close>).
  \<^descr>[\<open>JSNumber\<close>] the type \<open>number\<close>: a real, an infinity or \<open>NaN\<close>, with the
    arithmetic, the comparisons and the \<^verbatim>\<open>Math\<close> functions the program uses.
  \<^descr>[\<open>Store\<close>] the records \<open>point\<close>, \<open>constraint\<close>, \<open>heap\<close>, \<open>props\<close>, \<open>mouse\<close>
    and \<open>canvas\<close>; reading and writing the store (\<open>deref\<close>, \<open>upd_point\<close>); the
    well-formedness invariant \<open>wf_heap\<close>; the frame condition \<open>evolves\<close>.
  \<^descr>[\<open>Constraint\<close>] \<open>Constraint_new\<close> and \<open>Constraint_resolve\<close>: the two
    branches of \<^verbatim>\<open>resolve\<close> as equations, what a relaxation step does to the
    separation of the two end points, tearing, and the division by zero for
    coincident end points.
  \<^descr>[\<open>Point\<close>] the methods of \<^verbatim>\<open>Point\<close>, \<^verbatim>\<open>update\<close> as the composition of the
    mouse block \<open>apply_mouse\<close> and the integration \<open>verlet\<close>; each branch of
    \<^verbatim>\<open>update\<close> and \<^verbatim>\<open>resolveConstraints\<close> as an equation on the store, and the
    preservation of \<open>wf_heap\<close> and \<open>evolves\<close> by every method.
  \<^descr>[\<open>Cloth\<close>] the constructor as two counting loops (\<open>Cloth_rows\<close>,
    \<open>Cloth_row\<close>) around the loop body \<open>Cloth_cell\<close>, \<open>Cloth_update\<close> and
    \<open>Cloth_draw\<close>; the specification of the lattice in closed form (\<open>grid_heap\<close>),
    the proof that the constructor builds exactly it, the count of its points
    and constraints, and that a frame neither raises nor changes the shape.
  \<^descr>[\<open>Simulation\<close>] the defaults of the props, the handlers, \<^verbatim>\<open>resizeCanvas\<close>,
    the frame callback \<open>frame\<close>, the body of the effect \<open>start\<close>; the events as
    a datatype with the step function \<open>step\<close>, the reachable states as an
    inductive predicate, and its executable counterpart \<open>run\<close>; the invariant
    \<open>sim_inv\<close> of the reachable states; the pointer as a machine of four
    states (\<open>pointer_step\<close>) that the handlers implement.
  \<^descr>[\<open>Moves\<close>] the eight ways in which the methods write the store, as the
    step relation \<open>move\<close>; every method, and so every frame, is a sequence of
    them (\<open>moves\<close>), which makes a property kept by each write an invariant of
    the simulation.
  \<^descr>[\<open>Finite\<close>] the typing discipline of the coordinates: \<open>finite_heap\<close>, kept
    by \<^verbatim>\<open>update\<close> and, unless the end points coincide, by \<^verbatim>\<open>resolve\<close>; \<open>NaN\<close> in one
    end point spreads to both.
  \<^descr>[\<open>Links\<close>] laws that span \<^verbatim>\<open>Point\<close> and \<^verbatim>\<open>Constraint\<close>: the test of the cut
    is the test of the tear, a torn constraint resolved again, a constraint
    that moves a pinned end, a constraint attached to \<^verbatim>\<open>undefined\<close>, a pin read
    back.
  \<^descr>[\<open>Loops\<close>] the nested loops of the constructor as one \<open>while_option\<close>
    (\<open>Cloth_loop\<close>), proved to end with the result of \<open>Cloth_new\<close>.
  \<^descr>[\<open>Motion\<close>] repeated steps: \<open>updates\<close> (one point, \<open>n\<close> updates) and \<open>frames\<close>
    (the cloth, \<open>n\<close> frames); the closed form of a free fall, a loose point
    reaching the lower bound of the canvas, \<open>NaN\<close> staying \<open>NaN\<close>, and the
    accumulated force being zero in every reachable state.
  \<^descr>[\<open>Lifecycle\<close>] the component: the record \<open>page\<close> (state of the component,
    canvas attributes, context, listeners, closures, pending cleanup), the
    effect \<open>effect\<close> with its parts \<open>listen_window\<close> and \<open>listen_canvas\<close>, \<open>cleanup\<close>,
    \<open>deps\<close>, \<open>render\<close>, \<open>clothSettings\<close>; React and the browser as the datatype
    \<open>action\<close> with the step function \<open>react\<close>, the inductive predicate
    \<open>page_reachable\<close> and the executable \<open>session\<close>.
  \<^descr>[\<open>Page\<close>] the invariant \<open>page_inv\<close> of the states of the component and what
    follows from it; the simulation between a page mounted once and the event
    loop of \<open>Simulation\<close>.
  \<^descr>[\<open>Spec2Isabelle\<close>] this theory: the header and the two properties of the
    whole program.

  \<^bold>\<open>How the model corresponds to the code.\<close> An object is an address into the
  store, a method takes the address of \<^verbatim>\<open>this\<close> and the store and returns the
  new store, every statement of a method is one binding of its definition,
  in the order of the source. A method that can raise returns an \<open>option\<close>:
  \<open>None\<close> is the \<^verbatim>\<open>TypeError\<close> of reading a property of \<^verbatim>\<open>undefined\<close>, the only
  exception these classes can raise. Variables the closures capture are
  arguments: \<open>pr\<close> for the props, \<open>cv\<close> for the canvas, \<open>ms\<close> for the four mouse
  variables. A constraint has an identity \<open>c_id\<close>, taken from a counter of the
  store, which models the comparison of references \<^verbatim>\<open>c !== this\<close>. The loops
  \<^verbatim>\<open>for ... of\<close> and \<^verbatim>\<open>forEach\<close> run over the array as it is when the loop starts,
  as in JavaScript, where \<^verbatim>\<open>filter\<close> makes a new array and leaves the one being
  iterated alone. The 2D context is the list of the calls made on it.

  In theory \<open>Lifecycle\<close> a run of the effect is a \<open>closure\<close>: the props it ran
  with and the variables it declared. The page keeps the closures in the
  order in which they were made; the number of a run is the position of its
  closure, and a listener is a target, an event type and the number of the run
  whose handler it is, which models the identity of the function passed to
  \<^verbatim>\<open>addEventListener\<close>. A closure stays in the page once it is there, because
  \<^verbatim>\<open>update\<close> requests the next frame each time it runs and nothing cancels the
  request. What React and the browser do is the step function \<open>react\<close>: a
  render commits \<^verbatim>\<open>canvasSize\<close> to the canvas and, when a dependency changed,
  runs the pending cleanup and the effect; an event of the DOM calls the
  handlers of the listeners registered for it; an animation frame calls the
  frame callback of every closure.

  \<^bold>\<open>Bounds and assumptions.\<close> Numbers are exact: rounding, overflow to an
  infinity and the sign of zero are not modelled (theory \<open>JSNumber\<close> says why
  the sign of zero cannot matter); \<open>NaN\<close> and the infinities are. The grid
  dimensions \<^verbatim>\<open>clothWidth\<close> and \<^verbatim>\<open>clothHeight\<close> are integers of any sign, the
  sizes of the canvas are natural numbers. No loop needs fuel: the two
  counting loops of the constructor terminate by the measure
  \<open>clothWidth + 1 - x\<close> (and the same for rows), every other loop runs over a
  list. Theory \<open>Loops\<close> keeps the constructor as a \<open>while_option\<close>, whose value
  \<open>None\<close> would be a loop that does not end, and proves the value is \<open>Some\<close>. In
  theory \<open>Simulation\<close> the canvas and its context exist and \<^verbatim>\<open>resizeCanvas\<close> and
  the rendering that follows it are one step; in theory \<open>Lifecycle\<close> both are
  explicit: the effect takes the presence of canvas and context as arguments,
  and \<^verbatim>\<open>resizeCanvas\<close> writes \<open>pg_canvasSize\<close>, which a later render copies to
  \<open>pg_canvas\<close>. The theorems about motion assume what they need of the numbers
  in their hypotheses (finite coordinates, a finite positive gravity); each
  has an instance on a concrete store.

  \<^bold>\<open>What the lemmas show.\<close> For each method: an equation for each of its
  branches, when it raises, and that it keeps the store well formed. For
  \<^verbatim>\<open>Constraint.resolve\<close>: a relaxation step puts the end points exactly the rest
  length apart and keeps their midpoint; a constraint at rest is a fixed
  point; an overstretched constraint is removed and nothing else changes;
  coincident end points become \<open>NaN\<close>. For \<^verbatim>\<open>Point\<close>: the Verlet step, the drag,
  the cut (which keeps the overstretched constraints and removes the others),
  the clamp, the snap to the pin, and that \<^verbatim>\<open>update\<close> moves a pinned point off
  its pin. For \<^verbatim>\<open>Cloth\<close>: the constructor refines the lattice specification; a
  frame is total on well-formed stores and changes neither objects nor pins
  nor adds constraints; \<^verbatim>\<open>draw\<close> emits each held constraint once, and the same
  calls when called again. For the numbers: finite stores stay finite under
  \<^verbatim>\<open>update\<close> and under \<^verbatim>\<open>resolve\<close> of distinct end points; \<open>NaN\<close> spreads along
  constraints and never goes away; the accumulated force is zero between
  frames. For repeated steps: the closed form of a free fall, with its
  terminal velocity, and that a loose point reaches the lower bound of the
  canvas. For the loops of the constructor: they end, with
  the result of the recursive definition. For the component: no sequence of
  renders, events and frames raises; the listeners registered are those of
  the newest run of the effect and the cleanup removes what the effect added;
  the frame callbacks are never cancelled, so that each change of a
  dependency adds a loop and unmounting stops none, while what stays on the
  canvas after an animation frame is the drawing of the newest loop. For the whole: no
  reachable state raises on any event, and a page mounted once behaves as the
  event loop of theory \<open>Simulation\<close>.

  \<^bold>\<open>Plan.\<close> What is left to extend: bounds on the position of a constrained
  point after a frame, the fall of a row of points that hang from pinned ones,
  and finiteness of a whole frame under a condition on the store that can be
  checked before the frame.

  \<^bold>\<open>Not modelled.\<close> The pixels the 2D context produces and the reset of the
  bitmap when the attributes of the canvas change; the position of the canvas
  on the page (\<^verbatim>\<open>getBoundingClientRect\<close> is an input of the mouse events); how
  React schedules renders and effects (batching, the double run of effects in
  strict mode), of which the model keeps only the order cleanup, effect; the
  time at which the browser calls a frame callback; the directive and the
  import of lines 1 and 2.
\<close>

section \<open>The simulation never raises\<close>

text \<open>
  C1. For every value of the props the effect starts the simulation, and from
  the state it leaves every finite sequence of events (mouse events, resizes
  and animation frames, in any order) is handled to the end without an
  exception. In the state reached the store is well formed, has the
  \<open>rows * columns\<close> points of the grid, and has evolved from the grid the
  constructor built: no pin was changed and no constraint was added.
\<close>

theorem simulation_never_raises:
  "\<exists>s0. start pr = Some s0
     \<and> (\<forall>es. \<exists>s. run pr es s0 = Some s \<and> wf_heap (sim_heap s)
           \<and> points_count (sim_heap s) = rows pr * columns pr
           \<and> evolves (first_grid pr) (sim_heap s))"
proof -
  from start_inv [of pr] obtain s0 where s0: "start pr = Some s0" "sim_inv pr s0" by blast
  have "\<exists>s. run pr es s0 = Some s \<and> wf_heap (sim_heap s)
      \<and> points_count (sim_heap s) = rows pr * columns pr
      \<and> evolves (first_grid pr) (sim_heap s)" for es
  proof -
    from run_inv [OF s0(2), of es] obtain s where s: "run pr es s0 = Some s" "sim_inv pr s"
      by blast
    from s(1) sim_invD(1,3,4) [OF s(2)] show ?thesis by (simp add: grid_size_def)
  qed
  with s0(1) show ?thesis by blast
qed

section \<open>A page mounted once is the event loop\<close>

text \<open>
  C8. The component refines the event loop. Mount the component with any
  props, canvas and context present, and let the browser deliver any finite
  sequence of events of the loop, an animation frame as a tick of the page, a
  resize as the event of the window followed by the render it causes, every
  other event as the event of the canvas. Then the loop started by \<open>start\<close>
  handles the events, the page handles the actions, and the page shows the
  state of the loop: the variables of its one closure, the attributes of the
  canvas and the calls made on the context are those of the state the loop
  reached. The listeners registered are still the five of the first run.
\<close>

theorem mounted_page_refines_loop:
  "\<exists>s0 s pg. start pr = Some s0 \<and> run pr es s0 = Some s
     \<and> session (Render pr True True w h # concat (map (acts pr) es)) = Some pg
     \<and> abs_sim pg = s \<and> pg_listeners pg = listeners_of 0"
proof -
  from start_inv obtain s0 where s0: "start pr = Some s0" "sim_inv pr s0" by blast
  from run_inv [OF s0(2)] obtain s where s: "run pr es s0 = Some s" by blast
  from mount_single [OF s0(1)] obtain pg0
    where pg0: "react (Render pr True True w h) blank_page = Some pg0" "single pr pg0" "abs_sim pg0 = s0"
    by blast
  from single_run [OF pg0(2), of es s] s pg0(3) obtain pg
    where "fold_opt react (concat (map (acts pr) es)) pg0 = Some pg" "single pr pg" "abs_sim pg = s"
    by auto
  with s0(1) s pg0(1) show ?thesis
    by (auto simp: session_def single_def)
qed

end
